(* ===== verification/Prelude.thy ===== *)
theory Prelude
  imports Main "HOL-Library.Word" "HOL-Library.AList" "HOL-Library.Sublist"
begin

text \<open>
  Shared vocabulary of the development: machine integers at their Rust width, instants and
  durations, the result type with its state-threading bind, hash maps as association lists, the few
  string functions of the Rust standard library the sources use, and the lemmas on them that the
  component theories rely on.

  Conventions.  An instant (\<open>std::time::Instant\<close>, \<open>SystemTime\<close>, \<open>chrono::DateTime<Utc>\<close>) is an
  integer number of nanoseconds; a \<open>std::time::Duration\<close> is a natural number of nanoseconds; a
  \<open>chrono::Duration\<close> is a signed number of nanoseconds.  A \<open>String\<close> or \<open>&str\<close> is the list of its
  bytes.  A \<open>Result\<close> is a sum whose left summand is the error.  A \<open>HashMap\<close> or \<open>DashMap\<close> is an
  association list, whose order stands for the unspecified iteration order.
\<close>

named_theorems res_simps \<open>unfolding of the result and state-threading combinators\<close>
named_theorems key_simps \<open>disjointness and injectivity of the key namespaces of the store\<close>

section \<open>Machine integers and time\<close>

type_synonym u16 = "16 word"
type_synonym u32 = "32 word"
type_synonym u64 = "64 word"
type_synonym instant = int
type_synonym duration = nat

datatype ipaddr = V4 "32 word" | V6 "128 word"

record socketaddr =
  sa_ip :: ipaddr
  sa_port :: u16

definition nanos_per_sec :: nat where
  "nanos_per_sec = 1000000000"

definition from_secs :: "nat \<Rightarrow> duration" where
  "from_secs n = n * nanos_per_sec"

definition as_secs :: "duration \<Rightarrow> nat" where
  "as_secs d = d div nanos_per_sec"

definition duration_since :: "instant \<Rightarrow> instant \<Rightarrow> duration" where
  "duration_since now t = nat (now - t)"

definition add_dur :: "instant \<Rightarrow> duration \<Rightarrow> instant" where
  "add_dur t d = t + int d"

definition chrono_seconds :: "int \<Rightarrow> int" where
  "chrono_seconds n = n * 1000000000"

definition num_seconds :: "int \<Rightarrow> int" where
  "num_seconds d = (if d < 0 then - ((- d) div 1000000000) else d div 1000000000)"

definition as_u64 :: "int \<Rightarrow> u64" where
  "as_u64 i = word_of_int i"

text \<open>The wrap-around of a signed 64-bit result.\<close>

definition wrap_i64 :: "int \<Rightarrow> int" where
  "wrap_i64 x = (x + 2 ^ 63) mod 2 ^ 64 - 2 ^ 63"

definition saturating_sub :: "'a::len word \<Rightarrow> 'a word \<Rightarrow> 'a word" where
  "saturating_sub a b = (if a < b then 0 else a - b)"

lemma wrap_i64_small: "- (2 ^ 63) \<le> x \<Longrightarrow> x < 2 ^ 63 \<Longrightarrow> wrap_i64 x = x"
  by (simp add: wrap_i64_def)

lemma saturating_sub_le: "saturating_sub a b \<le> a"
  by (simp add: saturating_sub_def word_sub_le)

lemma num_seconds_nonneg: "0 \<le> d \<Longrightarrow> num_seconds d = d div 1000000000"
  by (simp add: num_seconds_def)

lemma num_seconds_whole [simp]: "num_seconds (chrono_seconds n) = n"
proof -
  have "- (n * 1000000000) div 1000000000 = - n"
    by (metis minus_mult_left nonzero_mult_div_cancel_right zero_neq_numeral)
  then show ?thesis by (simp add: num_seconds_def chrono_seconds_def)
qed

lemma unat_as_u64: "\<lbrakk>0 \<le> i; i < 2 ^ 64\<rbrakk> \<Longrightarrow> int (unat (as_u64 i)) = i"
  by (simp add: as_u64_def unat_eq_nat_uint uint_word_of_int take_bit_int_eq_self)

lemma unat_as_u64_negative:
  "\<lbrakk>i < 0; - (2 ^ 64) \<le> i\<rbrakk> \<Longrightarrow> int (unat (as_u64 i)) = 2 ^ 64 + i"
proof -
  assume neg: "i < 0" and low: "- (2 ^ 64) \<le> i"
  have "i mod 2 ^ 64 = (2 ^ 64 + i) mod 2 ^ 64" by simp
  also have "\<dots> = 2 ^ 64 + i" using neg low by (intro mod_pos_pos_trivial) simp_all
  finally show ?thesis
    by (simp add: as_u64_def unat_eq_nat_uint uint_word_of_int)
qed

lemma unat_word_inc: "w < (x :: 'a::len word) \<Longrightarrow> unat (w + 1) = unat w + 1"
proof -
  assume "w < x"
  then have "unat w < unat x" by (simp add: word_less_nat_alt)
  moreover have "unat x < 2 ^ LENGTH('a)" by simp
  ultimately have "unat w + unat (1 :: 'a word) < 2 ^ LENGTH('a)"
    using unat_1 [where 'a = 'a] by linarith
  then show ?thesis by (subst unat_add_lem [THEN iffD1]) simp_all
qed

section \<open>Results and state threading\<close>

type_synonym ('s, 'e, 'a) act = "'s \<Rightarrow> ('e + 'a) \<times> 's"

definition ret :: "'a \<Rightarrow> ('s, 'e, 'a) act" where
  "ret a = (\<lambda>s. (Inr a, s))"

definition fail :: "'e \<Rightarrow> ('s, 'e, 'a) act" where
  "fail e = (\<lambda>s. (Inl e, s))"

text \<open>The \<open>?\<close> operator: an error returns at once and the effects done so far stay.\<close>

definition bind_act :: "('s, 'e, 'a) act \<Rightarrow> ('a \<Rightarrow> ('s, 'e, 'b) act) \<Rightarrow> ('s, 'e, 'b) act" where
  "bind_act m f = (\<lambda>s. case m s of (Inl e, s') \<Rightarrow> (Inl e, s') | (Inr a, s') \<Rightarrow> f a s')"

definition seq_act :: "('s, 'e, 'a) act \<Rightarrow> ('s, 'e, 'b) act \<Rightarrow> ('s, 'e, 'b) act" where
  "seq_act m k = bind_act m (\<lambda>_. k)"

definition map_err :: "('e \<Rightarrow> 'f) \<Rightarrow> ('s, 'e, 'a) act \<Rightarrow> ('s, 'f, 'a) act" where
  "map_err g m = (\<lambda>s. case m s of (Inl e, s') \<Rightarrow> (Inl (g e), s') | (Inr a, s') \<Rightarrow> (Inr a, s'))"

definition lift_res :: "'e + 'a \<Rightarrow> ('s, 'e, 'a) act" where
  "lift_res r = (\<lambda>s. (r, s))"

definition map_err_res :: "('e \<Rightarrow> 'f) \<Rightarrow> 'e + 'a \<Rightarrow> 'f + 'a" where
  "map_err_res g r = (case r of Inl e \<Rightarrow> Inl (g e) | Inr a \<Rightarrow> Inr a)"

definition is_ok :: "'e + 'a \<Rightarrow> bool" where
  "is_ok r = (case r of Inl _ \<Rightarrow> False | Inr _ \<Rightarrow> True)"

lemma ret_app [simp, res_simps]: "ret a s = (Inr a, s)"
  by (simp add: ret_def)

lemma fail_app [simp, res_simps]: "fail e s = (Inl e, s)"
  by (simp add: fail_def)

lemma lift_res_app [simp, res_simps]: "lift_res r s = (r, s)"
  by (simp add: lift_res_def)

lemma is_ok_simps [simp, res_simps]: "is_ok (Inl e) = False" "is_ok (Inr a) = True"
  by (simp_all add: is_ok_def)

lemma map_err_res_simps [simp, res_simps]:
  "map_err_res g (Inl e) = Inl (g e)" "map_err_res g (Inr a) = Inr a"
  by (simp_all add: map_err_res_def)

lemma map_err_res_Inr [simp]: "map_err_res g r = Inr a \<longleftrightarrow> r = Inr a"
  by (cases r) simp_all

lemma bind_act_Inl: "m s = (Inl e, s') \<Longrightarrow> bind_act m f s = (Inl e, s')"
  by (simp add: bind_act_def)

lemma bind_act_Inr: "m s = (Inr a, s') \<Longrightarrow> bind_act m f s = f a s'"
  by (simp add: bind_act_def)

lemma bind_act_ok:
  "bind_act m f s = (Inr b, s'') \<longleftrightarrow> (\<exists>a s'. m s = (Inr a, s') \<and> f a s' = (Inr b, s''))"
  by (auto simp: bind_act_def split: prod.splits sum.splits)

lemma bind_act_err:
  "bind_act m f s = (Inl e, s'') \<longleftrightarrow>
     m s = (Inl e, s'') \<or> (\<exists>a s'. m s = (Inr a, s') \<and> f a s' = (Inl e, s''))"
  by (auto simp: bind_act_def split: prod.splits sum.splits)

lemma seq_act_ok:
  "seq_act m k s = (Inr b, s'') \<longleftrightarrow> (\<exists>a s'. m s = (Inr a, s') \<and> k s' = (Inr b, s''))"
  by (simp add: seq_act_def bind_act_ok)

lemma seq_act_err:
  "seq_act m k s = (Inl e, s'') \<longleftrightarrow>
     m s = (Inl e, s'') \<or> (\<exists>a s'. m s = (Inr a, s') \<and> k s' = (Inl e, s''))"
  by (simp add: seq_act_def bind_act_err)

lemma map_err_ok [simp]: "map_err g m s = (Inr a, s') \<longleftrightarrow> m s = (Inr a, s')"
  by (auto simp: map_err_def split: prod.splits sum.splits)

lemma map_err_err: "map_err g m s = (Inl f, s') \<longleftrightarrow> (\<exists>e. m s = (Inl e, s') \<and> f = g e)"
  by (auto simp: map_err_def split: prod.splits sum.splits)

lemma lift_res_ok: "lift_res r s = (Inr a, s') \<longleftrightarrow> r = Inr a \<and> s' = s"
  by (auto simp: lift_res_def)

lemmas act_ok = bind_act_ok seq_act_ok map_err_ok lift_res_ok
lemmas act_err = bind_act_err seq_act_err map_err_err

section \<open>Hash maps as association lists\<close>

type_synonym ('k, 'v) hmap = "('k \<times> 'v) list"

definition hget :: "('k, 'v) hmap \<Rightarrow> 'k \<Rightarrow> 'v option" where
  "hget m k = map_of m k"

definition hput :: "'k \<Rightarrow> 'v \<Rightarrow> ('k, 'v) hmap \<Rightarrow> ('k, 'v) hmap" where
  "hput k v m = AList.update k v m"

definition hdel :: "'k \<Rightarrow> ('k, 'v) hmap \<Rightarrow> ('k, 'v) hmap" where
  "hdel k m = filter (\<lambda>p. fst p \<noteq> k) m"

definition hretain :: "('k \<Rightarrow> 'v \<Rightarrow> bool) \<Rightarrow> ('k, 'v) hmap \<Rightarrow> ('k, 'v) hmap" where
  "hretain P m = filter (\<lambda>(k, v). P k v) m"

definition hget_or :: "'v \<Rightarrow> ('k, 'v) hmap \<Rightarrow> 'k \<Rightarrow> 'v" where
  "hget_or d m k = (case hget m k of None \<Rightarrow> d | Some v \<Rightarrow> v)"

abbreviation hkeys :: "('k, 'v) hmap \<Rightarrow> 'k list" where
  "hkeys m \<equiv> map fst m"

lemma hget_Nil [simp]: "hget [] k = None"
  by (simp add: hget_def)

lemma hget_Cons [simp]: "hget ((a, v) # m) k = (if k = a then Some v else hget m k)"
  by (simp add: hget_def)

lemma hget_hput [simp]: "hget (hput k v m) k' = (if k' = k then Some v else hget m k')"
  by (simp add: hget_def hput_def update_conv)

lemma hget_hdel [simp]: "hget (hdel k m) k' = (if k' = k then None else hget m k')"
  by (induction m) (auto simp: hdel_def hget_def)

lemma distinct_hput [simp]: "distinct (hkeys (hput k v m)) = distinct (hkeys m)"
  unfolding hput_def by (induction m) (auto simp: update_keys)

lemma set_hkeys_hput [simp]: "set (hkeys (hput k v m)) = insert k (set (hkeys m))"
  unfolding hput_def by (induction m) auto

lemma distinct_hretain: "distinct (hkeys m) \<Longrightarrow> distinct (hkeys (hretain P m))"
  by (induction m) (auto simp: hretain_def)

lemma hget_hretain:
  "distinct (hkeys m) \<Longrightarrow>
   hget (hretain P m) k = (case hget m k of None \<Rightarrow> None | Some v \<Rightarrow> if P k v then Some v else None)"
proof (induction m)
  case (Cons a m)
  obtain k' v' where a: "a = (k', v')" by (cases a)
  have "k' \<notin> set (hkeys m) \<Longrightarrow> hget (hretain P m) k' = None"
    by (auto simp: hget_def hretain_def map_of_eq_None_iff)
  with Cons a show ?case by (auto simp: hretain_def split: option.splits)
qed (simp add: hretain_def)

lemma hget_SomeD: "hget m k = Some v \<Longrightarrow> (k, v) \<in> set m"
  by (simp add: hget_def map_of_SomeD)

lemma hget_mem: "distinct (hkeys m) \<Longrightarrow> (k, v) \<in> set m \<Longrightarrow> hget m k = Some v"
  by (simp add: hget_def)

section \<open>Strings\<close>

abbreviation byte_of :: "char \<Rightarrow> nat" where
  "byte_of c \<equiv> of_char c"

definition is_ascii_lowercase :: "char \<Rightarrow> bool" where
  "is_ascii_lowercase c = (97 \<le> byte_of c \<and> byte_of c \<le> 122)"

definition is_ascii_uppercase :: "char \<Rightarrow> bool" where
  "is_ascii_uppercase c = (65 \<le> byte_of c \<and> byte_of c \<le> 90)"

definition is_ascii_digit :: "char \<Rightarrow> bool" where
  "is_ascii_digit c = (48 \<le> byte_of c \<and> byte_of c \<le> 57)"

definition is_ascii_hexdigit :: "char \<Rightarrow> bool" where
  "is_ascii_hexdigit c =
     (is_ascii_digit c \<or> (97 \<le> byte_of c \<and> byte_of c \<le> 102) \<or> (65 \<le> byte_of c \<and> byte_of c \<le> 70))"

definition is_ascii_alphanumeric :: "char \<Rightarrow> bool" where
  "is_ascii_alphanumeric c = (is_ascii_lowercase c \<or> is_ascii_uppercase c \<or> is_ascii_digit c)"

text \<open>
  \<open>str::trim\<close>: the UTF-8 encodings of the characters with the Unicode property \<open>White_Space\<close>, and the text
  without those at its two ends.  A suffix that is one of the encodings is a whole character, since the
  encoding of a character is never a proper suffix of another one's.
\<close>

definition whitespace_chars :: "string list" where
  "whitespace_chars =
     [[CHR 0x09], [CHR 0x0A], [CHR 0x0B], [CHR 0x0C], [CHR 0x0D], [CHR 0x20],
      [CHR 0xC2, CHR 0x85], [CHR 0xC2, CHR 0xA0], [CHR 0xE1, CHR 0x9A, CHR 0x80],
      [CHR 0xE2, CHR 0x80, CHR 0x80], [CHR 0xE2, CHR 0x80, CHR 0x81], [CHR 0xE2, CHR 0x80, CHR 0x82],
      [CHR 0xE2, CHR 0x80, CHR 0x83], [CHR 0xE2, CHR 0x80, CHR 0x84], [CHR 0xE2, CHR 0x80, CHR 0x85],
      [CHR 0xE2, CHR 0x80, CHR 0x86], [CHR 0xE2, CHR 0x80, CHR 0x87], [CHR 0xE2, CHR 0x80, CHR 0x88],
      [CHR 0xE2, CHR 0x80, CHR 0x89], [CHR 0xE2, CHR 0x80, CHR 0x8A], [CHR 0xE2, CHR 0x80, CHR 0xA8],
      [CHR 0xE2, CHR 0x80, CHR 0xA9], [CHR 0xE2, CHR 0x80, CHR 0xAF], [CHR 0xE2, CHR 0x81, CHR 0x9F],
      [CHR 0xE3, CHR 0x80, CHR 0x80]]"

function strip_while :: "string list \<Rightarrow> string \<Rightarrow> string" where
  "strip_while ws s =
     (case find (\<lambda>w. w \<noteq> [] \<and> prefix w s) ws of
        Some w \<Rightarrow> strip_while ws (drop (length w) s)
      | None \<Rightarrow> s)"
  by pat_completeness auto

termination strip_while
  by (relation "measure (\<lambda>(ws, s). length s)") (auto simp: find_Some_iff prefix_def)

declare strip_while.simps [simp del]

definition trim :: "string \<Rightarrow> string" where
  "trim s = rev (strip_while (map rev whitespace_chars) (rev (strip_while whitespace_chars s)))"

definition to_ascii_lowercase :: "char \<Rightarrow> char" where
  "to_ascii_lowercase c = (if is_ascii_uppercase c then char_of (byte_of c + 32) else c)"

definition eq_ignore_ascii_case :: "string \<Rightarrow> string \<Rightarrow> bool" where
  "eq_ignore_ascii_case a b = (map to_ascii_lowercase a = map to_ascii_lowercase b)"

definition starts_with :: "string \<Rightarrow> string \<Rightarrow> bool" where
  "starts_with s p = prefix p s"

definition ends_with :: "string \<Rightarrow> string \<Rightarrow> bool" where
  "ends_with s p = suffix p s"

definition strip_prefix_str :: "string \<Rightarrow> string \<Rightarrow> string option" where
  "strip_prefix_str s p = (if prefix p s then Some (drop (length p) s) else None)"

text \<open>\<open>str::split(c)\<close> collected into a vector.\<close>

fun split_on :: "char \<Rightarrow> string \<Rightarrow> string list" where
  "split_on c [] = [[]]"
| "split_on c (x # xs) =
     (if x = c then [] # split_on c xs
      else (case split_on c xs of [] \<Rightarrow> [[x]] | y # ys \<Rightarrow> (x # y) # ys))"

text \<open>\<open>str::split_once(c)\<close>: the parts before and after the first occurrence.\<close>

fun split_once :: "char \<Rightarrow> string \<Rightarrow> (string \<times> string) option" where
  "split_once c [] = None"
| "split_once c (x # xs) =
     (if x = c then Some ([], xs)
      else (case split_once c xs of None \<Rightarrow> None | Some (a, b) \<Rightarrow> Some (x # a, b)))"

text \<open>\<open>str::lines\<close>: the lines ended by a line feed, without a carriage return before it, and a last line without one.\<close>

definition strip_cr :: "string \<Rightarrow> string" where
  "strip_cr l = (if l \<noteq> [] \<and> last l = CHR 0x0D then butlast l else l)"

definition lines :: "string \<Rightarrow> string list" where
  "lines s = (let parts = split_on (CHR 0x0A) s in
     map strip_cr (butlast parts) @ (if last parts = [] then [] else [last parts]))"

text \<open>\<open>windows(n).any(|w| w == pat)\<close> for a pattern of length \<open>n\<close>.\<close>

definition contains_seq :: "string \<Rightarrow> string \<Rightarrow> bool" where
  "contains_seq pat s = list_ex (prefix pat) (suffixes s)"

definition digit_char :: "nat \<Rightarrow> char" where
  "digit_char d = ''0123456789'' ! d"

definition digit_val :: "char \<Rightarrow> nat" where
  "digit_val c = byte_of c - 48"

text \<open>\<open>to_string\<close> of an unsigned integer and its inverse.\<close>

fun dec :: "nat \<Rightarrow> string" where
  "dec n = (if n < 10 then [digit_char n] else dec (n div 10) @ [digit_char (n mod 10)])"

declare dec.simps [simp del]

definition undec :: "string \<Rightarrow> nat" where
  "undec s = foldl (\<lambda>a c. a * 10 + digit_val c) 0 s"

definition parse_nat :: "string \<Rightarrow> nat option" where
  "parse_nat s = (if s \<noteq> [] \<and> list_all is_ascii_digit s then Some (undec s) else None)"

lemma split_on_not_Nil [simp]: "split_on c s \<noteq> []"
  by (induction s) (auto split: list.splits)

lemma split_on_single: "c \<notin> set a \<Longrightarrow> split_on c a = [a]"
  by (induction a) auto

lemma split_on_append: "c \<notin> set a \<Longrightarrow> split_on c (a @ c # b) = a # split_on c b"
  by (induction a) (auto split: list.splits)

lemma split_on_no_sep: "p \<in> set (split_on c s) \<Longrightarrow> c \<notin> set p"
  by (induction s arbitrary: p) (auto split: list.splits if_splits)

lemma split_once_append: "c \<notin> set a \<Longrightarrow> split_once c (a @ c # b) = Some (a, b)"
  by (induction a) auto

lemma split_once_None: "split_once c s = None \<longleftrightarrow> c \<notin> set s"
  by (induction s) (auto split: option.splits)

lemma split_once_Some: "split_once c s = Some (a, b) \<longleftrightarrow> s = a @ c # b \<and> c \<notin> set a"
proof
  show "split_once c s = Some (a, b) \<Longrightarrow> s = a @ c # b \<and> c \<notin> set a"
    by (induction s arbitrary: a) (auto split: if_splits option.splits)
qed (auto simp: split_once_append)

lemma contains_seq_sublist: "contains_seq pat s \<longleftrightarrow> sublist pat s"
proof -
  have "contains_seq pat s \<longleftrightarrow> (\<exists>t. suffix t s \<and> prefix pat t)" by (auto simp: contains_seq_def list_ex_iff)
  also have "\<dots> \<longleftrightarrow> sublist pat s" by (auto simp: sublist_altdef')
  finally show ?thesis .
qed

lemma lines_Nil [simp]: "lines [] = []"
  by (simp add: lines_def)

lemma lines_Cons: "CHR 0x0A \<notin> set l \<Longrightarrow> lines (l @ CHR 0x0A # s) = strip_cr l # lines s"
  by (simp add: lines_def split_on_append Let_def)

lemma strip_cr_crlf [simp]: "strip_cr (l @ [CHR 0x0D]) = l"
  by (simp add: strip_cr_def)

text \<open>A text whose first and last byte are printable ASCII characters other than the space is trimmed already.\<close>

definition is_graphic :: "char \<Rightarrow> bool" where
  "is_graphic c = (33 \<le> byte_of c \<and> byte_of c \<le> 126)"

lemma strip_while_stop: "(\<And>w. w \<in> set ws \<Longrightarrow> \<not> (w \<noteq> [] \<and> prefix w s)) \<Longrightarrow> strip_while ws s = s"
  by (subst strip_while.simps) (simp add: find_None_iff [THEN iffD2])

lemma strip_while_graphic:
  assumes "list_all (\<lambda>w. w = [] \<or> \<not> is_graphic (hd w)) ws" and "is_graphic c"
  shows "strip_while ws (c # s) = c # s"
  using assms by (intro strip_while_stop) (auto simp: list_all_iff prefix_Cons)

lemma whitespace_not_graphic:
  "list_all (\<lambda>w. w = [] \<or> \<not> is_graphic (hd w)) whitespace_chars"
  "list_all (\<lambda>w. w = [] \<or> \<not> is_graphic (hd w)) (map rev whitespace_chars)"
  by (simp_all add: whitespace_chars_def is_graphic_def)

lemma strip_while_space: "strip_while whitespace_chars (CHR '' '' # s) = strip_while whitespace_chars s"
  by (subst strip_while.simps) (simp add: whitespace_chars_def)

lemma trim_space: "trim (CHR '' '' # s) = trim s"
  by (simp add: trim_def strip_while_space)

lemma trim_Nil [simp]: "trim [] = []"
  by (simp add: trim_def strip_while.simps [of _ "[]"] find_None_iff [THEN iffD2])

lemma trim_graphic: "s \<noteq> [] \<Longrightarrow> is_graphic (hd s) \<Longrightarrow> is_graphic (last s) \<Longrightarrow> trim s = s"
proof -
  assume ne: "s \<noteq> []" and g: "is_graphic (hd s)" "is_graphic (last s)"
  obtain c t where s: "s = c # t" using ne by (cases s) auto
  obtain d u where r: "rev s = d # u" using ne by (cases "rev s") auto
  have d: "d = last s" using r ne by (metis hd_rev list.sel(1))
  have "strip_while whitespace_chars s = s" using g(1) s strip_while_graphic [OF whitespace_not_graphic(1)] by simp
  moreover have "strip_while (map rev whitespace_chars) (rev s) = rev s"
    unfolding r using g(2) d strip_while_graphic [OF whitespace_not_graphic(2)] by simp
  ultimately show "trim s = s" by (simp add: trim_def)
qed

lemma digit_cases: "d < 10 \<Longrightarrow> d \<in> {0, 1, 2, 3, 4, 5, 6, 7, 8, 9 :: nat}"
  by auto

lemma digit_char_props:
  assumes "d < 10"
  shows "digit_val (digit_char d) = d" "is_ascii_digit (digit_char d)"
  using digit_cases [OF assms] by (auto simp: digit_char_def digit_val_def is_ascii_digit_def)

lemma undec_dec [simp]: "undec (dec n) = n"
proof (induction n rule: dec.induct)
  case (1 n)
  show ?case
  proof (cases "n < 10")
    case True
    then show ?thesis by (simp add: dec.simps [of n] undec_def digit_char_props)
  next
    case False
    then have "undec (dec (n div 10)) = n div 10" by (rule 1)
    with False show ?thesis
      by (simp add: dec.simps [of n] undec_def digit_char_props)
  qed
qed

lemma dec_digits: "list_all is_ascii_digit (dec n)"
  by (induction n rule: dec.induct) (subst dec.simps, simp add: digit_char_props)

lemma dec_not_Nil [simp]: "dec n \<noteq> []"
  by (subst dec.simps) simp

lemma parse_nat_dec [simp]: "parse_nat (dec n) = Some n"
  by (simp add: parse_nat_def dec_digits)

lemma dec_inj [simp]: "dec m = dec n \<longleftrightarrow> m = n"
  by (metis undec_dec)

lemma dec_no_char: "\<not> is_ascii_digit c \<Longrightarrow> c \<notin> set (dec n)"
  using dec_digits [of n] by (auto simp: list_all_iff)

section \<open>Per-key guards\<close>

text \<open>
  Several components keep one record per client (an address, a peer, a client id, a user): each
  operation is about one key.  The contract they share is that an operation on one key leaves what
  is recorded under every other key alone, and that it keeps the record of its own key legal.
\<close>

locale keyed_state =
  fixes step :: "'k \<Rightarrow> 'x \<Rightarrow> 's \<Rightarrow> 's"
    and view :: "'s \<Rightarrow> 'k \<Rightarrow> 'v option"
  assumes step_other: "k' \<noteq> k \<Longrightarrow> view (step k x s) k' = view s k'"
begin

lemma run_other:
  "k \<notin> fst ` set xs \<Longrightarrow> view (fold (\<lambda>(k, x). step k x) xs s) k = view s k"
  by (induction xs arbitrary: s) (auto simp: step_other)

end

locale keyed_invariant = keyed_state +
  fixes ok :: "'v \<Rightarrow> bool"
  assumes step_own: "(\<And>v. view s k = Some v \<Longrightarrow> ok v) \<Longrightarrow> view (step k x s) k = Some v' \<Longrightarrow> ok v'"
begin

lemma step_ok:
  assumes "\<And>k v. view s k = Some v \<Longrightarrow> ok v" and "view (step k x s) k' = Some v"
  shows "ok v"
  using assms step_own step_other by (cases "k' = k") metis+

lemma run_ok:
  assumes "\<And>k v. view s k = Some v \<Longrightarrow> ok v"
    and "view (fold (\<lambda>(k, x). step k x) xs s) k = Some v"
  shows "ok v"
  using assms
proof (induction xs arbitrary: s)
  case (Cons a xs)
  obtain k0 x0 where a: "a = (k0, x0)" by (cases a)
  show ?case
  proof (rule Cons.IH [of "step k0 x0 s"])
    show "\<And>k v. view (step k0 x0 s) k = Some v \<Longrightarrow> ok v"
      using Cons.prems(1) step_ok by blast
    show "view (fold (\<lambda>(k, x). step k x) xs (step k0 x0 s)) k = Some v"
      using Cons.prems(2) a by simp
  qed
qed simp

end

end
