(* ===== verification/Errors.thy ===== *)
theory Errors
  imports Prelude
begin

text \<open>
  The error values of the system and how they become HTTP answers: \<open>FleetingDnsError\<close> of
  \<open>crates/common/src/error.rs\<close>, \<open>ApiError\<close> of \<open>crates/backendapi/src/error.rs\<close>, \<open>AuthError\<close> of
  \<open>crates/auth/src/lib.rs\<close> and the conversion between the last two.  The constructors of
  \<open>FleetingDnsError\<close> carry the prefix \<open>Fd_\<close> and those of \<open>AuthError\<close> the prefix \<open>Auth_\<close>, since the
  three enums share names.  Error ids and timestamps of a response come from the uuid and chrono
  crates and are arguments.
\<close>

section \<open>The shared error type\<close>

datatype FleetingDnsError =
    Fd_AuthenticationFailed string
  | Fd_AuthorizationFailed string
  | Fd_Unauthorized string
  | Fd_Forbidden string
  | Fd_TokenExpired string
  | Fd_InvalidToken string
  | Fd_NotFound string
  | Fd_AlreadyExists string
  | Fd_Conflict string
  | Fd_BadRequest string
  | Fd_ValidationError string
  | Fd_StorageError string
  | Fd_DatabaseError string
  | Fd_RedisError string
  | Fd_ConnectionError string
  | Fd_TimeoutError string
  | Fd_ExternalService string
  | Fd_GitHubApiError string
  | Fd_CertificateError string
  | Fd_DnsError string
  | Fd_SshError string
  | Fd_TlsError string
  | Fd_RateLimitExceeded string
  | Fd_QuotaExceeded string
  | Fd_TooManyRequests string
  | Fd_ResourceExhausted string
  | Fd_ConfigurationError string
  | Fd_InternalError string
  | Fd_ServiceUnavailable string
  | Fd_CircuitBreakerOpen string
  | Fd_NetworkError string
  | Fd_ConnectionRefused string
  | Fd_RequestTimeout string
  | Fd_PayloadTooLarge string
  | Fd_UnsupportedMediaType string
  | Fd_SerializationError string
  | Fd_DeserializationError string
  | Fd_EncodingError string
  | Fd_DecodingError string
  | Fd_Io string
  | Fd_Json string
  | Fd_Generic string

datatype ErrorCategory =
    Client | Authentication | Authorization | RateLimit | Resource | Service | Network | Validation

text \<open>The \<open>Display\<close> text of an error.\<close>

primrec fd_to_string :: "FleetingDnsError \<Rightarrow> string" where
  "fd_to_string (Fd_AuthenticationFailed m) = ''Authentication failed: '' @ m"
| "fd_to_string (Fd_AuthorizationFailed m) = ''Authorization failed: '' @ m"
| "fd_to_string (Fd_Unauthorized m) = ''Unauthorized: '' @ m"
| "fd_to_string (Fd_Forbidden m) = ''Forbidden: '' @ m"
| "fd_to_string (Fd_TokenExpired m) = ''Token expired: '' @ m"
| "fd_to_string (Fd_InvalidToken m) = ''Invalid token: '' @ m"
| "fd_to_string (Fd_NotFound m) = ''Resource not found: '' @ m"
| "fd_to_string (Fd_AlreadyExists m) = ''Resource already exists: '' @ m"
| "fd_to_string (Fd_Conflict m) = ''Resource conflict: '' @ m"
| "fd_to_string (Fd_BadRequest m) = ''Invalid request: '' @ m"
| "fd_to_string (Fd_ValidationError m) = ''Validation error: '' @ m"
| "fd_to_string (Fd_StorageError m) = ''Storage error: '' @ m"
| "fd_to_string (Fd_DatabaseError m) = ''Database error: '' @ m"
| "fd_to_string (Fd_RedisError m) = ''Redis error: '' @ m"
| "fd_to_string (Fd_ConnectionError m) = ''Connection error: '' @ m"
| "fd_to_string (Fd_TimeoutError m) = ''Timeout error: '' @ m"
| "fd_to_string (Fd_ExternalService m) = ''External service error: '' @ m"
| "fd_to_string (Fd_GitHubApiError m) = ''GitHub API error: '' @ m"
| "fd_to_string (Fd_CertificateError m) = ''Certificate authority error: '' @ m"
| "fd_to_string (Fd_DnsError m) = ''DNS error: '' @ m"
| "fd_to_string (Fd_SshError m) = ''SSH error: '' @ m"
| "fd_to_string (Fd_TlsError m) = ''TLS error: '' @ m"
| "fd_to_string (Fd_RateLimitExceeded m) = ''Rate limit exceeded: '' @ m"
| "fd_to_string (Fd_QuotaExceeded m) = ''Quota exceeded: '' @ m"
| "fd_to_string (Fd_TooManyRequests m) = ''Too many requests: '' @ m"
| "fd_to_string (Fd_ResourceExhausted m) = ''Resource exhausted: '' @ m"
| "fd_to_string (Fd_ConfigurationError m) = ''Configuration error: '' @ m"
| "fd_to_string (Fd_InternalError m) = ''Internal server error: '' @ m"
| "fd_to_string (Fd_ServiceUnavailable m) = ''Service unavailable: '' @ m"
| "fd_to_string (Fd_CircuitBreakerOpen m) = ''Circuit breaker open: '' @ m"
| "fd_to_string (Fd_NetworkError m) = ''Network error: '' @ m"
| "fd_to_string (Fd_ConnectionRefused m) = ''Connection refused: '' @ m"
| "fd_to_string (Fd_RequestTimeout m) = ''Request timeout: '' @ m"
| "fd_to_string (Fd_PayloadTooLarge m) = ''Payload too large: '' @ m"
| "fd_to_string (Fd_UnsupportedMediaType m) = ''Unsupported media type: '' @ m"
| "fd_to_string (Fd_SerializationError m) = ''Serialization error: '' @ m"
| "fd_to_string (Fd_DeserializationError m) = ''Deserialization error: '' @ m"
| "fd_to_string (Fd_EncodingError m) = ''Encoding error: '' @ m"
| "fd_to_string (Fd_DecodingError m) = ''Decoding error: '' @ m"
| "fd_to_string (Fd_Io m) = ''IO error: '' @ m"
| "fd_to_string (Fd_Json m) = ''JSON error: '' @ m"
| "fd_to_string (Fd_Generic m) = ''Generic error: '' @ m"

primrec category :: "FleetingDnsError \<Rightarrow> ErrorCategory" where
"category (Fd_AuthenticationFailed m) = Authentication"
| "category (Fd_AuthorizationFailed m) = Authorization"
| "category (Fd_Unauthorized m) = Authorization"
| "category (Fd_Forbidden m) = Authorization"
| "category (Fd_TokenExpired m) = Authentication"
| "category (Fd_InvalidToken m) = Authentication"
| "category (Fd_NotFound m) = Client"
| "category (Fd_AlreadyExists m) = Client"
| "category (Fd_Conflict m) = Client"
| "category (Fd_BadRequest m) = Client"
| "category (Fd_ValidationError m) = Client"
| "category (Fd_StorageError m) = Service"
| "category (Fd_DatabaseError m) = Service"
| "category (Fd_RedisError m) = Service"
| "category (Fd_ConnectionError m) = Network"
| "category (Fd_TimeoutError m) = Service"
| "category (Fd_ExternalService m) = Service"
| "category (Fd_GitHubApiError m) = Service"
| "category (Fd_CertificateError m) = Service"
| "category (Fd_DnsError m) = Service"
| "category (Fd_SshError m) = Service"
| "category (Fd_TlsError m) = Service"
| "category (Fd_RateLimitExceeded m) = RateLimit"
| "category (Fd_QuotaExceeded m) = RateLimit"
| "category (Fd_TooManyRequests m) = RateLimit"
| "category (Fd_ResourceExhausted m) = Resource"
| "category (Fd_ConfigurationError m) = Service"
| "category (Fd_InternalError m) = Service"
| "category (Fd_ServiceUnavailable m) = Service"
| "category (Fd_CircuitBreakerOpen m) = Service"
| "category (Fd_NetworkError m) = Network"
| "category (Fd_ConnectionRefused m) = Network"
| "category (Fd_RequestTimeout m) = Network"
| "category (Fd_PayloadTooLarge m) = Resource"
| "category (Fd_UnsupportedMediaType m) = Client"
| "category (Fd_SerializationError m) = Service"
| "category (Fd_DeserializationError m) = Service"
| "category (Fd_EncodingError m) = Service"
| "category (Fd_DecodingError m) = Service"
| "category (Fd_Io m) = Service"
| "category (Fd_Json m) = Service"
| "category (Fd_Generic m) = Service"

primrec status_code :: "FleetingDnsError \<Rightarrow> u16" where
"status_code (Fd_AuthenticationFailed m) = 401"
| "status_code (Fd_AuthorizationFailed m) = 403"
| "status_code (Fd_Unauthorized m) = 401"
| "status_code (Fd_Forbidden m) = 403"
| "status_code (Fd_TokenExpired m) = 401"
| "status_code (Fd_InvalidToken m) = 401"
| "status_code (Fd_NotFound m) = 404"
| "status_code (Fd_AlreadyExists m) = 409"
| "status_code (Fd_Conflict m) = 409"
| "status_code (Fd_BadRequest m) = 400"
| "status_code (Fd_ValidationError m) = 422"
| "status_code (Fd_StorageError m) = 500"
| "status_code (Fd_DatabaseError m) = 500"
| "status_code (Fd_RedisError m) = 500"
| "status_code (Fd_ConnectionError m) = 502"
| "status_code (Fd_TimeoutError m) = 504"
| "status_code (Fd_ExternalService m) = 502"
| "status_code (Fd_GitHubApiError m) = 502"
| "status_code (Fd_CertificateError m) = 500"
| "status_code (Fd_DnsError m) = 500"
| "status_code (Fd_SshError m) = 500"
| "status_code (Fd_TlsError m) = 500"
| "status_code (Fd_RateLimitExceeded m) = 429"
| "status_code (Fd_QuotaExceeded m) = 429"
| "status_code (Fd_TooManyRequests m) = 429"
| "status_code (Fd_ResourceExhausted m) = 503"
| "status_code (Fd_ConfigurationError m) = 500"
| "status_code (Fd_InternalError m) = 500"
| "status_code (Fd_ServiceUnavailable m) = 503"
| "status_code (Fd_CircuitBreakerOpen m) = 503"
| "status_code (Fd_NetworkError m) = 502"
| "status_code (Fd_ConnectionRefused m) = 502"
| "status_code (Fd_RequestTimeout m) = 504"
| "status_code (Fd_PayloadTooLarge m) = 413"
| "status_code (Fd_UnsupportedMediaType m) = 415"
| "status_code (Fd_SerializationError m) = 500"
| "status_code (Fd_DeserializationError m) = 500"
| "status_code (Fd_EncodingError m) = 500"
| "status_code (Fd_DecodingError m) = 500"
| "status_code (Fd_Io m) = 500"
| "status_code (Fd_Json m) = 500"
| "status_code (Fd_Generic m) = 500"

definition retry_after :: "FleetingDnsError \<Rightarrow> u64 option" where
  "retry_after e = (case e of
      Fd_TimeoutError m \<Rightarrow> Some 5
    | Fd_RateLimitExceeded m \<Rightarrow> Some 60
    | Fd_QuotaExceeded m \<Rightarrow> Some 3600
    | Fd_TooManyRequests m \<Rightarrow> Some 60
    | Fd_ServiceUnavailable m \<Rightarrow> Some 30
    | Fd_CircuitBreakerOpen m \<Rightarrow> Some 300
    | Fd_RequestTimeout m \<Rightarrow> Some 5
    | _ \<Rightarrow> None)"

primrec error_code :: "FleetingDnsError \<Rightarrow> string" where
"error_code (Fd_AuthenticationFailed m) = ''AUTH_FAILED''"
| "error_code (Fd_AuthorizationFailed m) = ''AUTHZ_FAILED''"
| "error_code (Fd_Unauthorized m) = ''UNAUTHORIZED''"
| "error_code (Fd_Forbidden m) = ''FORBIDDEN''"
| "error_code (Fd_TokenExpired m) = ''TOKEN_EXPIRED''"
| "error_code (Fd_InvalidToken m) = ''INVALID_TOKEN''"
| "error_code (Fd_NotFound m) = ''NOT_FOUND''"
| "error_code (Fd_AlreadyExists m) = ''ALREADY_EXISTS''"
| "error_code (Fd_Conflict m) = ''CONFLICT''"
| "error_code (Fd_BadRequest m) = ''BAD_REQUEST''"
| "error_code (Fd_ValidationError m) = ''VALIDATION_ERROR''"
| "error_code (Fd_StorageError m) = ''STORAGE_ERROR''"
| "error_code (Fd_DatabaseError m) = ''DATABASE_ERROR''"
| "error_code (Fd_RedisError m) = ''REDIS_ERROR''"
| "error_code (Fd_ConnectionError m) = ''CONNECTION_ERROR''"
| "error_code (Fd_TimeoutError m) = ''TIMEOUT_ERROR''"
| "error_code (Fd_ExternalService m) = ''EXTERNAL_SERVICE_ERROR''"
| "error_code (Fd_GitHubApiError m) = ''GITHUB_API_ERROR''"
| "error_code (Fd_CertificateError m) = ''CERTIFICATE_ERROR''"
| "error_code (Fd_DnsError m) = ''DNS_ERROR''"
| "error_code (Fd_SshError m) = ''SSH_ERROR''"
| "error_code (Fd_TlsError m) = ''TLS_ERROR''"
| "error_code (Fd_RateLimitExceeded m) = ''RATE_LIMIT_EXCEEDED''"
| "error_code (Fd_QuotaExceeded m) = ''QUOTA_EXCEEDED''"
| "error_code (Fd_TooManyRequests m) = ''TOO_MANY_REQUESTS''"
| "error_code (Fd_ResourceExhausted m) = ''RESOURCE_EXHAUSTED''"
| "error_code (Fd_ConfigurationError m) = ''CONFIGURATION_ERROR''"
| "error_code (Fd_InternalError m) = ''INTERNAL_ERROR''"
| "error_code (Fd_ServiceUnavailable m) = ''SERVICE_UNAVAILABLE''"
| "error_code (Fd_CircuitBreakerOpen m) = ''CIRCUIT_BREAKER_OPEN''"
| "error_code (Fd_NetworkError m) = ''NETWORK_ERROR''"
| "error_code (Fd_ConnectionRefused m) = ''CONNECTION_REFUSED''"
| "error_code (Fd_RequestTimeout m) = ''REQUEST_TIMEOUT''"
| "error_code (Fd_PayloadTooLarge m) = ''PAYLOAD_TOO_LARGE''"
| "error_code (Fd_UnsupportedMediaType m) = ''UNSUPPORTED_MEDIA_TYPE''"
| "error_code (Fd_SerializationError m) = ''SERIALIZATION_ERROR''"
| "error_code (Fd_DeserializationError m) = ''DESERIALIZATION_ERROR''"
| "error_code (Fd_EncodingError m) = ''ENCODING_ERROR''"
| "error_code (Fd_DecodingError m) = ''DECODING_ERROR''"
| "error_code (Fd_Io m) = ''IO_ERROR''"
| "error_code (Fd_Json m) = ''JSON_ERROR''"
| "error_code (Fd_Generic m) = ''GENERIC_ERROR''"

datatype json_value = JString string | JNumber nat

record ErrorContext =
  request_id :: "string option"
  user_id :: "string option"
  endpoint :: "string option"
  http_method :: "string option"
  client_ip :: "string option"
  user_agent :: "string option"
  service_name :: "string option"
  operation :: "string option"

definition opt_detail :: "string \<Rightarrow> string option \<Rightarrow> (string, json_value) hmap \<Rightarrow> (string, json_value) hmap" where
  "opt_detail k v m = (case v of None \<Rightarrow> m | Some x \<Rightarrow> hput k (JString x) m)"

definition error_details :: "FleetingDnsError \<Rightarrow> ErrorContext \<Rightarrow> (string, json_value) hmap option" where
  "error_details e ctx =
     (let details = opt_detail ''operation'' (operation ctx)
                      (opt_detail ''service'' (service_name ctx)
                        (opt_detail ''method'' (http_method ctx)
                          (opt_detail ''endpoint'' (endpoint ctx)
                            (opt_detail ''user_id'' (user_id ctx) []))));
          details = (case e of
              Fd_ValidationError msg \<Rightarrow> hput ''validation_message'' (JString msg) details
            | Fd_RateLimitExceeded msg \<Rightarrow> hput ''rate_limit_message'' (JString msg) details
            | Fd_QuotaExceeded msg \<Rightarrow> hput ''quota_message'' (JString msg) details
            | _ \<Rightarrow> details)
      in if details = [] then None else Some details)"

record ErrorResponse =
  resp_error :: string
  resp_message :: string
  resp_code :: u16
  resp_error_id :: string
  resp_timestamp :: string
  resp_request_id :: "string option"
  resp_details :: "(string, json_value) hmap option"
  resp_retry_after :: "u64 option"
  resp_category :: ErrorCategory

definition into_error_response :: "string \<Rightarrow> string \<Rightarrow> FleetingDnsError \<Rightarrow> ErrorContext \<Rightarrow> ErrorResponse" where
  "into_error_response error_id timestamp e ctx =
     \<lparr> resp_error = error_code e,
       resp_message = fd_to_string e,
       resp_code = status_code e,
       resp_error_id = error_id,
       resp_timestamp = timestamp,
       resp_request_id = request_id ctx,
       resp_details = error_details e ctx,
       resp_retry_after = retry_after e,
       resp_category = category e \<rparr>"

section \<open>The API error type\<close>

datatype ApiError =
    AuthenticationFailed string
  | AuthorizationFailed string
  | Unauthorized string
  | Forbidden string
  | TunnelNotFound string
  | CertificateError string
  | StorageError string
  | ConfigurationError string
  | GitHubApiError string
  | ExternalService string
  | RateLimitExceeded
  | BadRequest string
  | InternalError string
  | ValidationError string
  | NotFound string
  | DatabaseError string
  | ServiceUnavailable string
  | Conflict string
  | PreconditionFailed string
  | RequestTimeout string
  | PayloadTooLarge string
  | UnsupportedMediaType string
  | TooManyRequests string
  | QuotaExceeded string
  | ResourceExhausted string
  | CircuitBreakerOpen string

text \<open>Status, error type, message, category and retry hint of the answer.\<close>

primrec get_error_info :: "ApiError \<Rightarrow> u16 \<times> string \<times> string \<times> ErrorCategory \<times> u64 option" where
  "get_error_info (AuthenticationFailed msg) = (401, ''authentication_failed'', msg, Authentication, None)"
| "get_error_info (AuthorizationFailed msg) = (403, ''authorization_failed'', msg, Authorization, None)"
| "get_error_info (Unauthorized msg) = (401, ''unauthorized'', msg, Authentication, None)"
| "get_error_info (Forbidden msg) = (403, ''forbidden'', msg, Authorization, None)"
| "get_error_info (TunnelNotFound msg) = (404, ''tunnel_not_found'', msg, Client, None)"
| "get_error_info (CertificateError msg) = (500, ''certificate_error'', msg, Service, None)"
| "get_error_info (StorageError msg) = (500, ''storage_error'', msg, Service, None)"
| "get_error_info (ConfigurationError msg) = (500, ''configuration_error'', msg, Service, None)"
| "get_error_info (GitHubApiError msg) = (502, ''github_api_error'', msg, Service, Some 60)"
| "get_error_info (ExternalService msg) = (502, ''external_service_error'', msg, Service, Some 30)"
| "get_error_info RateLimitExceeded = (429, ''rate_limit_exceeded'', ''Rate limit exceeded'', RateLimit, Some 60)"
| "get_error_info (BadRequest msg) = (400, ''bad_request'', msg, Client, None)"
| "get_error_info (InternalError msg) = (500, ''internal_error'', msg, Service, None)"
| "get_error_info (ValidationError msg) = (400, ''validation_error'', msg, Validation, None)"
| "get_error_info (NotFound msg) = (404, ''not_found'', msg, Client, None)"
| "get_error_info (DatabaseError msg) = (500, ''database_error'', msg, Service, Some 5)"
| "get_error_info (ServiceUnavailable msg) = (503, ''service_unavailable'', msg, Service, Some 30)"
| "get_error_info (Conflict msg) = (409, ''conflict'', msg, Client, None)"
| "get_error_info (PreconditionFailed msg) = (412, ''precondition_failed'', msg, Client, None)"
| "get_error_info (RequestTimeout msg) = (408, ''request_timeout'', msg, Network, Some 10)"
| "get_error_info (PayloadTooLarge msg) = (413, ''payload_too_large'', msg, Client, None)"
| "get_error_info (UnsupportedMediaType msg) = (415, ''unsupported_media_type'', msg, Client, None)"
| "get_error_info (TooManyRequests msg) = (429, ''too_many_requests'', msg, RateLimit, Some 60)"
| "get_error_info (QuotaExceeded msg) = (403, ''quota_exceeded'', msg, Resource, None)"
| "get_error_info (ResourceExhausted msg) = (503, ''resource_exhausted'', msg, Resource, Some 300)"
| "get_error_info (CircuitBreakerOpen msg) = (503, ''circuit_breaker_open'', msg, Service, Some 60)"

definition get_error_details :: "ApiError \<Rightarrow> ErrorContext \<Rightarrow> (string, json_value) hmap option" where
  "get_error_details e ctx =
     (let details = opt_detail ''client_ip'' (client_ip ctx)
                      (opt_detail ''method'' (http_method ctx)
                        (opt_detail ''endpoint'' (endpoint ctx)
                          (opt_detail ''user_id'' (user_id ctx) [])));
          details = (case e of
              RateLimitExceeded \<Rightarrow> hput ''retry_after_seconds'' (JNumber 60) details
            | TooManyRequests _ \<Rightarrow> hput ''retry_after_seconds'' (JNumber 60) details
            | QuotaExceeded _ \<Rightarrow> hput ''quota_type'' (JString ''user_quota'') details
            | ValidationError _ \<Rightarrow> hput ''validation_type'' (JString ''request_validation'') details
            | _ \<Rightarrow> details)
      in if details = [] then None else Some details)"

definition into_response_with_context :: "string \<Rightarrow> string \<Rightarrow> ApiError \<Rightarrow> ErrorContext \<Rightarrow> u16 \<times> ErrorResponse" where
  "into_response_with_context error_id timestamp e ctx =
     (case get_error_info e of (status, error_type, message, cat, retry) \<Rightarrow>
        (status,
         \<lparr> resp_error = error_type,
           resp_message = message,
           resp_code = status,
           resp_error_id = error_id,
           resp_timestamp = timestamp,
           resp_request_id = request_id ctx,
           resp_details = get_error_details e ctx,
           resp_retry_after = retry,
           resp_category = cat \<rparr>))"

definition api_status :: "ApiError \<Rightarrow> u16" where
  "api_status e = fst (get_error_info e)"

section \<open>Authentication errors\<close>

datatype AuthError =
    Auth_AuthenticationFailed string
  | Auth_Unauthorized string
  | Auth_ExternalService string
  | Auth_ConfigurationError string
  | Auth_TokenExpired
  | Auth_InvalidTokenFormat
  | Auth_InvalidTokenSignature
  | Auth_InsufficientScopes string string
  | Auth_TokenRevoked

primrec api_from_auth :: "AuthError \<Rightarrow> ApiError" where
  "api_from_auth (Auth_AuthenticationFailed msg) = AuthenticationFailed msg"
| "api_from_auth (Auth_Unauthorized msg) = Unauthorized msg"
| "api_from_auth (Auth_ExternalService msg) = ExternalService msg"
| "api_from_auth (Auth_ConfigurationError msg) = ConfigurationError msg"
| "api_from_auth Auth_TokenExpired = AuthenticationFailed ''Token expired''"
| "api_from_auth Auth_InvalidTokenFormat = AuthenticationFailed ''Invalid token format''"
| "api_from_auth Auth_InvalidTokenSignature = AuthenticationFailed ''Invalid token signature''"
| "api_from_auth (Auth_InsufficientScopes required granted) =
     AuthenticationFailed (''Insufficient scopes: required '' @ required @ '', granted '' @ granted)"
| "api_from_auth Auth_TokenRevoked = AuthenticationFailed ''Token revoked''"

section \<open>Properties\<close>

text \<open>
  The tables of the shared error type agree with one another: a rate-limit error is exactly a 429
  answer, an authentication error is a 401, a client error is a 4xx, a service or network error is a
  5xx, and a retry hint is only given with 429, 503 or 504.
\<close>

lemma error_tables_agree:
  "(category e = RateLimit \<longleftrightarrow> status_code e = 429)
   \<and> (category e \<in> {Authentication} \<longrightarrow> status_code e = 401)
   \<and> (category e \<in> {Client} \<longrightarrow> 400 \<le> status_code e \<and> status_code e < 500)
   \<and> (category e \<in> {Service, Network} \<longrightarrow> 500 \<le> status_code e \<and> status_code e < 600)
   \<and> (retry_after e \<noteq> None \<longrightarrow> status_code e \<in> {429, 503, 504})"
  by (cases e) (simp_all add: retry_after_def)

lemma error_tables_agree_witness:
  "status_code (Fd_QuotaExceeded ''m'') = 429 \<and> retry_after (Fd_QuotaExceeded ''m'') \<noteq> None"
  using error_tables_agree [of "Fd_QuotaExceeded ''m''"] by (simp add: retry_after_def)

text \<open>
  Every answer built from an API error carries the status of its error in both the status line
  and the body, the status is an error status, a failed authentication is answered 401 whatever the
  reason, and only a broken configuration or an unavailable provider makes the authentication layer
  answer with a server error.
\<close>

lemma api_error_answers:
  "(case into_response_with_context i t e ctx of (s, r) \<Rightarrow>
      s = api_status e \<and> resp_code r = s \<and> 400 \<le> s \<and> s < 600 \<and> resp_request_id r = request_id ctx)
   \<and> api_status (api_from_auth a) =
       (case a of Auth_ExternalService _ \<Rightarrow> 502 | Auth_ConfigurationError _ \<Rightarrow> 500 | _ \<Rightarrow> 401)"
proof
  show "case into_response_with_context i t e ctx of (s, r) \<Rightarrow>
      s = api_status e \<and> resp_code r = s \<and> 400 \<le> s \<and> s < 600 \<and> resp_request_id r = request_id ctx"
    by (cases e) (simp_all add: into_response_with_context_def api_status_def)
  show "api_status (api_from_auth a) =
       (case a of Auth_ExternalService _ \<Rightarrow> 502 | Auth_ConfigurationError _ \<Rightarrow> 500 | _ \<Rightarrow> 401)"
    by (cases a) (simp_all add: api_status_def)
qed

end
