(* ===== verification/Ddos_Guard.thy ===== *)
theory Ddos_Guard
  imports Prelude
begin

text \<open>
  The connection guard of \<open>crates/common/src/ddos_protection.rs\<close>: per-address concurrent and rate
  limits, temporary blocks, the request size check, the statistics and the periodic cleanup.  An
  operation that reads the clock takes the reading as an argument (\<open>check_connection_limit\<close> reads it
  twice, once in \<open>is_blocked\<close>).  Log lines and metric counters are left out.

  The lemmas show, over every sequence of accepts, closes and cleanups whose clock does not run
  backwards, that the open connections of an address never exceed the concurrent limit (so the
  32-bit counter never wraps), that no sliding window holds more admissions than the rate limit, and
  that a block lasts its whole duration.
\<close>

section \<open>State and operations\<close>

record DdosConfig =
  max_connections_per_ip :: u32
  connection_rate_per_minute :: u32
  max_request_size :: nat
  block_duration :: duration
  rate_window :: duration

definition DdosConfig_default :: DdosConfig where
  "DdosConfig_default =
     \<lparr> max_connections_per_ip = 10,
       connection_rate_per_minute = 100,
       max_request_size = 1024 * 1024,
       block_duration = from_secs 300,
       rate_window = from_secs 60 \<rparr>"

record IpConnectionInfo =
  active_connections :: u32
  recent_connections :: "instant list"
  blocked_until :: "instant option"

record DdosProtection =
  ddos_config :: DdosConfig
  ip_info :: "(ipaddr, IpConnectionInfo) hmap"

record DdosStats =
  total_tracked_ips :: nat
  blocked_ips :: nat
  total_active_connections :: u32

definition ddos_new :: "DdosConfig \<Rightarrow> DdosProtection" where
  "ddos_new config = \<lparr> ddos_config = config, ip_info = [] \<rparr>"

definition info_blocked :: "instant \<Rightarrow> IpConnectionInfo \<Rightarrow> bool" where
  "info_blocked now info = (case blocked_until info of None \<Rightarrow> False | Some until \<Rightarrow> now < until)"

definition is_blocked :: "instant \<Rightarrow> ipaddr \<Rightarrow> DdosProtection \<Rightarrow> bool" where
  "is_blocked now ip d = (case hget (ip_info d) ip of None \<Rightarrow> False | Some info \<Rightarrow> info_blocked now info)"

definition fresh_info :: IpConnectionInfo where
  "fresh_info = \<lparr> active_connections = 0, recent_connections = [], blocked_until = None \<rparr>"

definition check_connection_limit ::
  "instant \<Rightarrow> instant \<Rightarrow> ipaddr \<Rightarrow> DdosProtection \<Rightarrow> (string + unit) \<times> DdosProtection" where
  "check_connection_limit now0 now ip d =
     (if is_blocked now0 ip d then (Inl ''IP address is blocked'', d)
      else
        let cfg = ddos_config d;
            info0 = hget_or fresh_info (ip_info d) ip;
            recent = filter (\<lambda>t. duration_since now t < rate_window cfg) (recent_connections info0);
            info1 = info0 \<lparr> recent_connections := recent \<rparr>;
            over_rate = (length recent \<ge> unat (connection_rate_per_minute cfg));
            over_active = (active_connections info1 \<ge> max_connections_per_ip cfg)
        in if over_rate \<or> over_active
           then (Inl ''Connection limit exceeded - IP blocked'',
                 d \<lparr> ip_info := hput ip
                        (info1 \<lparr> blocked_until := Some (add_dur now (block_duration cfg)) \<rparr>) (ip_info d) \<rparr>)
           else (Inr (),
                 d \<lparr> ip_info := hput ip
                        (info1 \<lparr> active_connections := active_connections info1 + 1,
                                 recent_connections := recent @ [now] \<rparr>) (ip_info d) \<rparr>))"

definition connection_closed :: "ipaddr \<Rightarrow> DdosProtection \<Rightarrow> DdosProtection" where
  "connection_closed ip d =
     (case hget (ip_info d) ip of
        None \<Rightarrow> d
      | Some info \<Rightarrow>
          d \<lparr> ip_info := hput ip
                 (info \<lparr> active_connections := saturating_sub (active_connections info) 1 \<rparr>) (ip_info d) \<rparr>)"

definition check_request_size :: "nat \<Rightarrow> DdosProtection \<Rightarrow> string + unit" where
  "check_request_size sz d =
     (if sz > max_request_size (ddos_config d)
      then Inl (''Request size '' @ dec sz @ '' exceeds maximum allowed size ''
                @ dec (max_request_size (ddos_config d)))
      else Inr ())"

definition ddos_get_stats :: "instant \<Rightarrow> DdosProtection \<Rightarrow> DdosStats" where
  "ddos_get_stats now d =
     \<lparr> total_tracked_ips = length (ip_info d),
       blocked_ips = length (filter (\<lambda>(ip, info). info_blocked now info) (ip_info d)),
       total_active_connections = fold (\<lambda>(ip, info) acc. acc + active_connections info) (ip_info d) 0 \<rparr>"

definition keep_entry :: "DdosConfig \<Rightarrow> instant \<Rightarrow> IpConnectionInfo \<Rightarrow> bool" where
  "keep_entry cfg now info =
     (if active_connections info = 0
      then (\<exists>t \<in> set (recent_connections info). duration_since now t < rate_window cfg * 2)
           \<or> info_blocked now info
      else True)"

definition ddos_cleanup_old_entries :: "instant \<Rightarrow> DdosProtection \<Rightarrow> DdosProtection" where
  "ddos_cleanup_old_entries now d =
     d \<lparr> ip_info := hretain (\<lambda>ip info. keep_entry (ddos_config d) now info) (ip_info d) \<rparr>"

section \<open>Runs of the guard\<close>

text \<open>
  An accept loop calls \<open>check_connection_limit\<close> for every new peer and \<open>connection_closed\<close> when the
  peer leaves; a timer calls the cleanup.  A run also logs the admissions, newest first, and the
  closes, which the guard does not store.
\<close>

datatype ddos_event =
    Accept ipaddr instant instant
  | Closed ipaddr
  | Sweep instant

record ddos_history =
  guard :: DdosProtection
  admissions :: "(ipaddr \<times> instant) list"
  closes :: "ipaddr list"

definition ddos_step :: "ddos_event \<Rightarrow> ddos_history \<Rightarrow> ddos_history" where
  "ddos_step e h =
     (case e of
        Accept ip now0 now \<Rightarrow>
          (case check_connection_limit now0 now ip (guard h) of
             (Inl err, d) \<Rightarrow> h \<lparr> guard := d \<rparr>
           | (Inr u, d) \<Rightarrow> h \<lparr> guard := d, admissions := (ip, now) # admissions h \<rparr>)
      | Closed ip \<Rightarrow> h \<lparr> guard := connection_closed ip (guard h), closes := ip # closes h \<rparr>
      | Sweep now \<Rightarrow> h \<lparr> guard := ddos_cleanup_old_entries now (guard h) \<rparr>)"

definition ddos_run :: "DdosConfig \<Rightarrow> ddos_event list \<Rightarrow> ddos_history" where
  "ddos_run cfg evs = fold ddos_step evs \<lparr> guard = ddos_new cfg, admissions = [], closes = [] \<rparr>"

fun event_clock :: "instant \<Rightarrow> ddos_event \<Rightarrow> instant" where
  "event_clock t (Accept ip now0 now) = now"
| "event_clock t (Closed ip) = t"
| "event_clock t (Sweep now) = now"

fun event_timely :: "instant \<Rightarrow> ddos_event \<Rightarrow> bool" where
  "event_timely t (Accept ip now0 now) = (t \<le> now0 \<and> now0 \<le> now)"
| "event_timely t (Closed ip) = True"
| "event_timely t (Sweep now) = (t \<le> now)"

fun timely :: "instant \<Rightarrow> ddos_event list \<Rightarrow> bool" where
  "timely t [] = True"
| "timely t (e # es) = (event_timely t e \<and> timely (event_clock t e) es)"

definition admitted_at :: "ipaddr \<Rightarrow> ddos_history \<Rightarrow> instant list" where
  "admitted_at ip h = map snd (filter (\<lambda>p. fst p = ip) (admissions h))"

definition admitted_in_window :: "ipaddr \<Rightarrow> instant \<Rightarrow> duration \<Rightarrow> ddos_history \<Rightarrow> nat" where
  "admitted_in_window ip T w h = length (filter (\<lambda>t. t \<le> T \<and> T - t < int w) (admitted_at ip h))"

definition closes_of :: "ipaddr \<Rightarrow> ddos_history \<Rightarrow> nat" where
  "closes_of ip h = length (filter (\<lambda>i. i = ip) (closes h))"

fun event_before :: "instant \<Rightarrow> ddos_event \<Rightarrow> bool" where
  "event_before u (Accept ip now0 now) = (now0 < u)"
| "event_before u (Closed ip) = True"
| "event_before u (Sweep now) = (now < u)"

text \<open>One operation of the guard on one address: an accept with its two clock readings, or a close.\<close>

definition ddos_op :: "ipaddr \<Rightarrow> (instant \<times> instant) option \<Rightarrow> DdosProtection \<Rightarrow> DdosProtection" where
  "ddos_op ip x d =
     (case x of Some (now0, now) \<Rightarrow> snd (check_connection_limit now0 now ip d)
              | None \<Rightarrow> connection_closed ip d)"

definition ddos_entry :: "DdosProtection \<Rightarrow> ipaddr \<Rightarrow> (DdosConfig \<times> IpConnectionInfo) option" where
  "ddos_entry d ip = map_option (Pair (ddos_config d)) (hget (ip_info d) ip)"

section \<open>Lemmas\<close>

definition info_of :: "DdosProtection \<Rightarrow> ipaddr \<Rightarrow> IpConnectionInfo" where
  "info_of d ip = hget_or fresh_info (ip_info d) ip"

definition trimmed :: "DdosProtection \<Rightarrow> instant \<Rightarrow> ipaddr \<Rightarrow> instant list" where
  "trimmed d now ip =
     filter (\<lambda>t. duration_since now t < rate_window (ddos_config d)) (recent_connections (info_of d ip))"

lemma info_of_hput [simp]:
  "info_of (d\<lparr>ip_info := hput ip v (ip_info d)\<rparr>) ip' = (if ip' = ip then v else info_of d ip')"
  by (simp add: info_of_def hget_or_def)

lemma info_of_ddos_new [simp]: "info_of (ddos_new cfg) ip = fresh_info"
  by (simp add: info_of_def ddos_new_def hget_or_def)

lemma is_blocked_info_of: "is_blocked now ip d = info_blocked now (info_of d ip)"
  by (simp add: is_blocked_def info_of_def hget_or_def info_blocked_def fresh_info_def split: option.split)

text \<open>The three ways \<open>check_connection_limit\<close> returns.\<close>

lemma check_connection_limit_elim:
  assumes "check_connection_limit now0 now ip d = (r, d')"
  obtains
    (blocked) "is_blocked now0 ip d" "r = Inl ''IP address is blocked''" "d' = d"
  | (limited) "\<not> is_blocked now0 ip d" "r = Inl ''Connection limit exceeded - IP blocked''"
      "unat (connection_rate_per_minute (ddos_config d)) \<le> length (trimmed d now ip)
       \<or> max_connections_per_ip (ddos_config d) \<le> active_connections (info_of d ip)"
      "d' = d\<lparr>ip_info := hput ip ((info_of d ip)\<lparr>recent_connections := trimmed d now ip,
              blocked_until := Some (add_dur now (block_duration (ddos_config d)))\<rparr>) (ip_info d)\<rparr>"
  | (admitted) "\<not> is_blocked now0 ip d" "r = Inr ()"
      "length (trimmed d now ip) < unat (connection_rate_per_minute (ddos_config d))"
      "active_connections (info_of d ip) < max_connections_per_ip (ddos_config d)"
      "d' = d\<lparr>ip_info := hput ip ((info_of d ip)\<lparr>active_connections := active_connections (info_of d ip) + 1,
              recent_connections := trimmed d now ip @ [now]\<rparr>) (ip_info d)\<rparr>"
  using assms
  by (auto simp: check_connection_limit_def Let_def info_of_def trimmed_def split: if_splits)

lemma connection_closed_info_of:
  "info_of (connection_closed ip d) ip' =
     (if ip' = ip then (info_of d ip)\<lparr>active_connections := saturating_sub (active_connections (info_of d ip)) 1\<rparr>
      else info_of d ip')"
  by (auto simp: connection_closed_def info_of_def hget_or_def fresh_info_def saturating_sub_def
      split: option.split)

lemma sweep_info_of:
  "distinct (hkeys (ip_info d)) \<Longrightarrow>
   info_of (ddos_cleanup_old_entries now d) ip =
     (if keep_entry (ddos_config d) now (info_of d ip) then info_of d ip else fresh_info)"
  by (auto simp: ddos_cleanup_old_entries_def info_of_def hget_or_def hget_hretain split: option.split)

lemma ddos_config_frame [simp]:
  "ddos_config (connection_closed ip d) = ddos_config d"
  "ddos_config (ddos_cleanup_old_entries now d) = ddos_config d"
  by (auto simp: connection_closed_def ddos_cleanup_old_entries_def split: option.split)

lemma check_connection_limit_config:
  "check_connection_limit now0 now ip d = (r, d') \<Longrightarrow> ddos_config d' = ddos_config d"
  by (auto elim: check_connection_limit_elim)

lemma ddos_distinct_frame:
  assumes "distinct (hkeys (ip_info d))"
  shows "distinct (hkeys (ip_info (connection_closed ip d)))"
    and "distinct (hkeys (ip_info (ddos_cleanup_old_entries now d)))"
    and "check_connection_limit now0 now ip d = (r, d') \<Longrightarrow> distinct (hkeys (ip_info d'))"
  using assms
  by (auto simp: connection_closed_def ddos_cleanup_old_entries_def distinct_hretain split: option.split
      elim: check_connection_limit_elim)

subsection \<open>The invariant of one address\<close>

definition ip_inv ::
  "DdosConfig \<Rightarrow> instant \<Rightarrow> instant list \<Rightarrow> nat \<Rightarrow> IpConnectionInfo \<Rightarrow> bool" where
  "ip_inv cfg clk adm closed info \<longleftrightarrow>
     active_connections info \<le> max_connections_per_ip cfg
   \<and> length adm \<le> closed + unat (active_connections info)
   \<and> (\<forall>t \<in> set adm. t \<le> clk)
   \<and> (\<forall>T \<ge> clk. length (filter (\<lambda>t. duration_since T t < rate_window cfg) adm)
                = length (filter (\<lambda>t. duration_since T t < rate_window cfg) (recent_connections info)))
   \<and> (\<forall>T. length (filter (\<lambda>t. t \<le> T \<and> T - t < int (rate_window cfg)) adm)
           \<le> unat (connection_rate_per_minute cfg))"

lemma ip_inv_fresh: "ip_inv cfg clk [] 0 fresh_info"
  by (simp add: ip_inv_def fresh_info_def)

lemma ip_inv_later: "ip_inv cfg clk adm c info \<Longrightarrow> clk \<le> clk' \<Longrightarrow> ip_inv cfg clk' adm c info"
  unfolding ip_inv_def by (meson order_trans)

lemma filter_window_trim:
  assumes "now \<le> T"
  shows "filter (\<lambda>t. duration_since T t < w) (filter (\<lambda>t. duration_since now t < w) ts)
       = filter (\<lambda>t. duration_since T t < w) ts"
proof -
  have "duration_since T t < w \<Longrightarrow> duration_since now t < w" for t
    using assms by (simp add: duration_since_def)
  then show ?thesis by (simp add: filter_filter) (metis (mono_tags, lifting))
qed

lemma ip_inv_limited:
  assumes "ip_inv cfg clk adm c info" and "clk \<le> now"
  shows "ip_inv cfg now adm c
           (info\<lparr>recent_connections := filter (\<lambda>t. duration_since now t < rate_window cfg) (recent_connections info),
                 blocked_until := b\<rparr>)"
  using assms unfolding ip_inv_def by (auto simp: filter_window_trim simp del: filter_filter)

lemma window_count_at_now:
  assumes "\<forall>t \<in> set adm. t \<le> now"
  shows "filter (\<lambda>t. t \<le> now \<and> now - t < int w) adm = filter (\<lambda>t. duration_since now t < w) adm"
  using assms by (intro filter_cong) (auto simp: duration_since_def)

lemma ip_inv_admitted:
  assumes inv: "ip_inv cfg clk adm c info" and le: "clk \<le> now"
    and rate: "length (filter (\<lambda>t. duration_since now t < rate_window cfg) (recent_connections info))
               < unat (connection_rate_per_minute cfg)"
    and act: "active_connections info < max_connections_per_ip cfg"
  shows "ip_inv cfg now (now # adm) c
           (info\<lparr>active_connections := active_connections info + 1,
                 recent_connections := filter (\<lambda>t. duration_since now t < rate_window cfg) (recent_connections info) @ [now]\<rparr>)"
proof -
  let ?w = "rate_window cfg"
  have old: "\<forall>t \<in> set adm. t \<le> now" using inv le by (auto simp: ip_inv_def)
  have cnt: "length (filter (\<lambda>t. duration_since now t < ?w) adm) < unat (connection_rate_per_minute cfg)"
    using inv le rate by (simp add: ip_inv_def)
  have "length (filter (\<lambda>t. t \<le> T \<and> T - t < int ?w) (now # adm)) \<le> unat (connection_rate_per_minute cfg)" for T
  proof (cases "now \<le> T \<and> T - now < int ?w")
    case True
    have "length (filter (\<lambda>t. t \<le> T \<and> T - t < int ?w) adm)
          = length (filter (\<lambda>t. t \<le> T \<and> T - t < int ?w) (filter (\<lambda>t. duration_since now t < ?w) adm))"
      using True old by (simp add: filter_filter)
        (rule arg_cong [of _ _ length], rule filter_cong, auto simp: duration_since_def)
    also have "\<dots> \<le> length (filter (\<lambda>t. duration_since now t < ?w) adm)" by (rule length_filter_le)
    finally show ?thesis using cnt True by simp
  next
    case False
    then show ?thesis using inv by (auto simp: ip_inv_def)
  qed
  moreover have "unat (active_connections info + 1) = unat (active_connections info) + 1"
    using act by (rule unat_word_inc)
  moreover have "active_connections info + 1 \<le> max_connections_per_ip cfg"
    using act by (simp add: inc_le)
  ultimately show ?thesis
    using inv le old unfolding ip_inv_def by (auto simp: filter_window_trim simp del: filter_filter)
qed

lemma ip_inv_closed:
  assumes "ip_inv cfg clk adm c info"
  shows "ip_inv cfg clk adm (c + 1) (info\<lparr>active_connections := saturating_sub (active_connections info) 1\<rparr>)"
proof -
  let ?a = "active_connections info"
  have "unat ?a \<le> 1 + unat (saturating_sub ?a 1)"
    by (cases "?a = 0") (simp_all add: saturating_sub_def unat_minus_one)
  moreover have "saturating_sub ?a 1 \<le> max_connections_per_ip cfg"
    using assms saturating_sub_le [of ?a 1] unfolding ip_inv_def by (meson order_trans)
  ultimately show ?thesis using assms unfolding ip_inv_def by auto
qed

lemma ip_inv_dropped:
  assumes inv: "ip_inv cfg clk adm c info" and le: "clk \<le> now" and drop: "\<not> keep_entry cfg now info"
  shows "ip_inv cfg now adm c fresh_info"
proof -
  have zero: "active_connections info = 0"
    and old: "\<And>t. t \<in> set (recent_connections info) \<Longrightarrow> \<not> duration_since now t < rate_window cfg * 2"
    using drop by (auto simp: keep_entry_def split: if_splits)
  have "filter (\<lambda>t. duration_since T t < rate_window cfg) (recent_connections info) = []" if "now \<le> T" for T
    using old that by (fastforce simp: filter_empty_conv duration_since_def)
  then show ?thesis using inv le zero unfolding ip_inv_def by (auto simp: fresh_info_def)
qed

subsection \<open>The invariant of a run\<close>

definition ddos_inv :: "DdosConfig \<Rightarrow> instant \<Rightarrow> ddos_history \<Rightarrow> bool" where
  "ddos_inv cfg clk h \<longleftrightarrow>
     ddos_config (guard h) = cfg \<and> distinct (hkeys (ip_info (guard h)))
   \<and> (\<forall>ip. ip_inv cfg clk (admitted_at ip h) (closes_of ip h) (info_of (guard h) ip))"

lemma admitted_at_simps [simp]:
  "admitted_at ip (h\<lparr>guard := d\<rparr>) = admitted_at ip h"
  "admitted_at ip (h\<lparr>guard := d, closes := cs\<rparr>) = admitted_at ip h"
  "admitted_at ip (h\<lparr>guard := d, admissions := (ip', t) # admissions h\<rparr>)
     = (if ip' = ip then t # admitted_at ip h else admitted_at ip h)"
  by (simp_all add: admitted_at_def)

lemma closes_of_simps [simp]:
  "closes_of ip (h\<lparr>guard := d\<rparr>) = closes_of ip h"
  "closes_of ip (h\<lparr>guard := d, admissions := as\<rparr>) = closes_of ip h"
  "closes_of ip (h\<lparr>guard := d, closes := ip' # closes h\<rparr>)
     = (if ip' = ip then closes_of ip h + 1 else closes_of ip h)"
  by (simp_all add: closes_of_def)

lemma ddos_inv_accept:
  assumes inv: "ddos_inv cfg clk h" and le: "clk \<le> now"
  shows "ddos_inv cfg now (ddos_step (Accept ip now0 now) h)"
proof -
  obtain r d where ccl: "check_connection_limit now0 now ip (guard h) = (r, d)"
    by (cases "check_connection_limit now0 now ip (guard h)")
  have cfg: "ddos_config (guard h) = cfg" and dis: "distinct (hkeys (ip_info (guard h)))"
    and ips: "\<And>ip. ip_inv cfg clk (admitted_at ip h) (closes_of ip h) (info_of (guard h) ip)"
    using inv by (auto simp: ddos_inv_def)
  have frame: "ddos_config d = cfg" "distinct (hkeys (ip_info d))"
    using check_connection_limit_config [OF ccl] ddos_distinct_frame(3) [OF dis ccl] cfg by simp_all
  note later = ip_inv_later [OF ips le]
  from ccl show ?thesis
  proof (cases rule: check_connection_limit_elim)
    case blocked
    with ccl frame later show ?thesis by (simp add: ddos_step_def ddos_inv_def)
  next
    case limited
    have "ip_inv cfg now (admitted_at i h) (closes_of i h) (info_of d i)" for i
      using later [of i] ip_inv_limited [OF ips le, of ip]
      by (simp only: limited(4) info_of_hput trimmed_def cfg split: if_split) blast
    with ccl frame limited(2) show ?thesis by (simp add: ddos_step_def ddos_inv_def)
  next
    case admitted
    have "ip_inv cfg now (if ip = i then now # admitted_at i h else admitted_at i h) (closes_of i h) (info_of d i)" for i
      using later [of i] ip_inv_admitted [OF ips le, of ip] admitted(3,4)
      by (simp only: admitted(5) info_of_hput trimmed_def cfg split: if_split) blast
    with ccl frame admitted(2) show ?thesis by (simp add: ddos_step_def ddos_inv_def)
  qed
qed

lemma ddos_inv_step:
  assumes inv: "ddos_inv cfg clk h" and tm: "event_timely clk e"
  shows "ddos_inv cfg (event_clock clk e) (ddos_step e h)"
proof (cases e)
  case (Accept ip now0 now)
  with inv tm show ?thesis using ddos_inv_accept [of cfg clk h now ip now0] by simp
next
  case (Closed ip)
  with inv ip_inv_closed show ?thesis
    by (auto simp: ddos_inv_def ddos_step_def connection_closed_info_of ddos_distinct_frame)
next
  case (Sweep now)
  with inv tm show ?thesis
    by (auto simp: ddos_inv_def ddos_step_def sweep_info_of ddos_distinct_frame
        intro: ip_inv_later ip_inv_dropped)
qed

lemma ddos_inv_fold:
  "timely clk evs \<Longrightarrow> ddos_inv cfg clk h \<Longrightarrow> \<exists>clk'. ddos_inv cfg clk' (fold ddos_step evs h)"
proof (induction evs arbitrary: clk h)
  case (Cons e evs)
  then show ?case using ddos_inv_step by fastforce
qed auto

lemma ddos_inv_run:
  assumes "timely t evs"
  shows "\<exists>clk. ddos_inv cfg clk (ddos_run cfg evs)"
  unfolding ddos_run_def
  by (rule ddos_inv_fold [OF assms])
    (simp add: ddos_inv_def ddos_new_def info_of_def hget_or_def ip_inv_fresh admitted_at_def closes_of_def)

subsection \<open>Blocks\<close>

lemma ddos_distinct_step:
  "distinct (hkeys (ip_info (guard h))) \<Longrightarrow> distinct (hkeys (ip_info (guard (ddos_step e h))))"
  by (auto simp: ddos_step_def ddos_distinct_frame split: ddos_event.split prod.split sum.split)

lemma ddos_distinct_run: "distinct (hkeys (ip_info (guard (ddos_run cfg evs))))"
  unfolding ddos_run_def
  by (rule fold_invariant [where Q = "\<lambda>_. True" and P = "\<lambda>h. distinct (hkeys (ip_info (guard h)))"])
    (simp_all add: ddos_new_def ddos_distinct_step)

lemma block_step:
  assumes blk: "blocked_until (info_of (guard h) ip) = Some u" and dis: "distinct (hkeys (ip_info (guard h)))"
    and bef: "event_before u e"
  shows "blocked_until (info_of (guard (ddos_step e h)) ip) = Some u"
proof (cases e)
  case (Accept ip' now0 now)
  obtain r d where ccl: "check_connection_limit now0 now ip' (guard h) = (r, d)"
    by (cases "check_connection_limit now0 now ip' (guard h)")
  have "\<not> is_blocked now0 ip' (guard h) \<Longrightarrow> ip' \<noteq> ip"
    using blk bef Accept by (auto simp: is_blocked_info_of info_blocked_def)
  with ccl have "blocked_until (info_of d ip) = Some u"
    using blk by (auto elim!: check_connection_limit_elim)
  with ccl Accept show ?thesis by (simp add: ddos_step_def split: sum.split)
next
  case (Closed ip')
  with blk show ?thesis by (auto simp: ddos_step_def connection_closed_info_of)
next
  case (Sweep now)
  with blk bef dis show ?thesis
    by (simp add: ddos_step_def sweep_info_of keep_entry_def info_blocked_def)
qed

lemma block_fold:
  "blocked_until (info_of (guard h) ip) = Some u \<Longrightarrow> distinct (hkeys (ip_info (guard h))) \<Longrightarrow>
   list_all (event_before u) evs \<Longrightarrow> blocked_until (info_of (guard (fold ddos_step evs h)) ip) = Some u"
  by (induction evs arbitrary: h) (auto simp: block_step ddos_distinct_step)

subsection \<open>The per-address contract\<close>

interpretation dg: keyed_invariant ddos_op ddos_entry
  "\<lambda>(cfg, info). active_connections info \<le> max_connections_per_ip cfg"
proof (unfold_locales, goal_cases)
  case (1 k' k x s)
  then show ?case
    by (auto simp: ddos_op_def ddos_entry_def check_connection_limit_def connection_closed_def Let_def
        split: option.split)
next
  case (2 s k x v')
  have keep: "active_connections (info_of s k) \<le> max_connections_per_ip (ddos_config s)"
    using 2(1) by (cases "hget (ip_info s) k") (auto simp: ddos_entry_def info_of_def hget_or_def fresh_info_def)
  show ?case
  proof (cases x)
    case None
    with 2(2) keep saturating_sub_le [of "active_connections (info_of s k)" 1] show ?thesis
      by (auto simp: ddos_op_def ddos_entry_def connection_closed_def info_of_def hget_or_def
          split: option.splits)
  next
    case (Some p)
    obtain now0 now r d where p: "p = (now0, now)" and ccl: "check_connection_limit now0 now k s = (r, d)"
      by (metis surj_pair)
    with 2(2) Some have v': "ddos_entry d k = Some v'" by (simp add: ddos_op_def)
    from ccl show ?thesis
      by (cases rule: check_connection_limit_elim) (use keep v' in \<open>auto simp: ddos_entry_def info_of_def hget_or_def inc_le\<close>)
  qed
qed

lemma ddos_op_config [simp]: "ddos_config (ddos_op ip x d) = ddos_config d"
  by (auto simp: ddos_op_def check_connection_limit_def connection_closed_def Let_def split: option.split)

lemma ddos_ops_config: "ddos_config (fold (\<lambda>(ip, x). ddos_op ip x) ops d) = ddos_config d"
  by (induction ops arbitrary: d) auto

section \<open>Properties\<close>

lemmas ddos_eval =
  ddos_run_def ddos_step_def ddos_new_def check_connection_limit_def is_blocked_def info_blocked_def
  connection_closed_def ddos_cleanup_old_entries_def keep_entry_def fresh_info_def hget_or_def hretain_def
  hput_def duration_since_def add_dur_def Let_def

text \<open>
  C31: over every sequence of accepts, closes and sweeps whose clock does not run backwards, the guard
  never admits more than \<open>connection_rate_per_minute\<close> connections of an address within any window of
  length \<open>rate_window\<close>, and never lets more than \<open>max_connections_per_ip\<close> of them be open at once.
\<close>

theorem ddos_limits_hold:
  assumes "timely t evs"
  shows "admitted_in_window ip T (rate_window cfg) (ddos_run cfg evs) \<le> unat (connection_rate_per_minute cfg)
       \<and> length (admitted_at ip (ddos_run cfg evs)) \<le> closes_of ip (ddos_run cfg evs) + unat (max_connections_per_ip cfg)"
proof -
  obtain clk where "ddos_inv cfg clk (ddos_run cfg evs)" using ddos_inv_run [OF assms] ..
  then have inv: "ip_inv cfg clk (admitted_at ip (ddos_run cfg evs)) (closes_of ip (ddos_run cfg evs))
      (info_of (guard (ddos_run cfg evs)) ip)"
    by (simp add: ddos_inv_def)
  then have "unat (active_connections (info_of (guard (ddos_run cfg evs)) ip)) \<le> unat (max_connections_per_ip cfg)"
    by (simp add: ip_inv_def word_le_nat_alt)
  with inv show ?thesis by (auto simp: ip_inv_def admitted_in_window_def)
qed

theorem ddos_limits_hold_witness:
  "admitted_in_window (V4 1) 10 (rate_window DdosConfig_default)
     (ddos_run DdosConfig_default [Accept (V4 1) 0 0, Accept (V4 1) 1 2, Closed (V4 1), Sweep 9]) \<le> 100
   \<and> timely 0 [Accept (V4 1) 0 0, Accept (V4 1) 1 2, Closed (V4 1), Sweep 9]"
  using ddos_limits_hold [of 0 "[Accept (V4 1) 0 0, Accept (V4 1) 1 2, Closed (V4 1), Sweep 9]"
      "V4 1" 10 DdosConfig_default]
  by (simp add: DdosConfig_default_def)

text \<open>
  An accept refused for exceeding a limit blocks its address for the whole \<open>block_duration\<close>: after
  any accepts, closes and sweeps that read the clock before the block ends, a further accept of the
  address whose first clock reading is before the end is refused and changes nothing.
\<close>

lemma ddos_block_lasts:
  assumes lim: "fst (check_connection_limit now0 now ip (guard (ddos_run cfg evs)))
                = Inl ''Connection limit exceeded - IP blocked''"
    and bef: "list_all (event_before (add_dur now (block_duration cfg))) evs'"
    and t1: "t1 < add_dur now (block_duration cfg)"
  shows "let d = guard (ddos_run cfg (evs @ Accept ip now0 now # evs'))
         in check_connection_limit t1 t2 ip d = (Inl ''IP address is blocked'', d)"
proof -
  let ?h = "ddos_run cfg evs" and ?h1 = "ddos_run cfg (evs @ [Accept ip now0 now])"
  have cfg: "ddos_config (guard ?h) = cfg"
    unfolding ddos_run_def
    by (rule fold_invariant [where Q = "\<lambda>_. True" and P = "\<lambda>h. ddos_config (guard h) = cfg"])
      (auto simp: ddos_new_def ddos_step_def check_connection_limit_config
        split: ddos_event.splits prod.splits sum.splits dest: check_connection_limit_config)
  obtain d where ccl: "check_connection_limit now0 now ip (guard ?h)
      = (Inl ''Connection limit exceeded - IP blocked'', d)"
    using lim by (metis prod.collapse)
  then have h1: "?h1 = ?h\<lparr>guard := d\<rparr>" by (simp add: ddos_run_def ddos_step_def)
  have "blocked_until (info_of d ip) = Some (add_dur now (block_duration cfg))"
    using ccl cfg by (auto elim: check_connection_limit_elim)
  with h1 have "blocked_until (info_of (guard (fold ddos_step evs' ?h1)) ip) = Some (add_dur now (block_duration cfg))"
    using bef ddos_distinct_run [of cfg "evs @ [Accept ip now0 now]"] by (intro block_fold) simp_all
  moreover have "fold ddos_step evs' ?h1 = ddos_run cfg (evs @ Accept ip now0 now # evs')"
    by (simp add: ddos_run_def)
  ultimately show ?thesis
    using t1 by (simp add: check_connection_limit_def is_blocked_info_of info_blocked_def)
qed

lemma ddos_block_lasts_witness:
  "let d = guard (ddos_run (DdosConfig_default\<lparr>max_connections_per_ip := 1\<rparr>)
             ([Accept (V4 1) 0 0] @ Accept (V4 1) 1 2 # [Closed (V4 1), Sweep 9]))
   in check_connection_limit 10 11 (V4 1) d = (Inl ''IP address is blocked'', d)"
  by (rule ddos_block_lasts) (simp_all add: ddos_eval DdosConfig_default_def from_secs_def nanos_per_sec_def)

text \<open>
  Operations on other addresses never change the answer an address gets: the outcome of an accept
  is the same after any sequence of accepts and closes of other addresses.
\<close>

lemma ddos_addresses_independent:
  assumes "ip \<notin> fst ` set ops"
  shows "fst (check_connection_limit now0 now ip (fold (\<lambda>(ip, x). ddos_op ip x) ops d))
       = fst (check_connection_limit now0 now ip d)"
proof -
  let ?d = "fold (\<lambda>(ip, x). ddos_op ip x) ops d"
  have "ddos_entry ?d ip = ddos_entry d ip" by (rule dg.run_other [OF assms])
  then have "hget (ip_info ?d) ip = hget (ip_info d) ip"
    by (auto simp: ddos_entry_def map_option_eq_Some ddos_ops_config
        intro!: option.inj_map_strong [where f = "Pair (ddos_config d)" and fa = "Pair (ddos_config d)"])
  then show ?thesis
    by (simp add: check_connection_limit_def is_blocked_def hget_or_def ddos_ops_config Let_def)
qed

lemma ddos_addresses_independent_witness:
  "fst (check_connection_limit 3 3 (V4 1)
      (fold (\<lambda>(ip, x). ddos_op ip x) [(V4 2, Some (0, 1)), (V4 2, None)] (ddos_new DdosConfig_default))) = Inr ()"
  by (subst ddos_addresses_independent)
    (simp_all add: ddos_eval DdosConfig_default_def from_secs_def nanos_per_sec_def)

end
