(* ===== verification/Redis_Store.thy ===== *)
theory Redis_Store
  imports Prelude Errors
begin

text \<open>
  The Redis server the services share, and the helpers of \<open>crates/common/src/redis/cache.rs\<close> over it.

  Redis and its connection pool are not part of the repository.  The model takes the commands the
  sources use as a record of functions over an abstract server state, each given the instant at which
  the server executes it, and each able to fail.  The locale \<open>redis_server\<close> states the documented
  behaviour the services rely on, for commands that succeed: what a read returns, what a write changes
  for every later instant, and that a value only ever disappears with time.  A failed command promises
  nothing about the state it leaves.  A server over association lists satisfies the locale.

  The locale \<open>string_store\<close> is the contract of the string helpers that the certificate registry and
  the liveness markers use; the helpers satisfy it over every \<open>redis_server\<close>.
\<close>

section \<open>The server\<close>

record 's redis =
  r_conn :: "('s, string, unit) act"
  r_get :: "instant \<Rightarrow> string \<Rightarrow> ('s, string, string option) act"
  r_set :: "instant \<Rightarrow> string \<Rightarrow> string \<Rightarrow> ('s, string, unit) act"
  r_set_ex :: "instant \<Rightarrow> string \<Rightarrow> string \<Rightarrow> u64 \<Rightarrow> ('s, string, unit) act"
  r_set_nx_ex :: "instant \<Rightarrow> string \<Rightarrow> string \<Rightarrow> u64 \<Rightarrow> ('s, string, string option) act"
  r_del :: "instant \<Rightarrow> string \<Rightarrow> ('s, string, unit) act"
  r_expire :: "instant \<Rightarrow> string \<Rightarrow> int \<Rightarrow> ('s, string, unit) act"
  r_keys :: "instant \<Rightarrow> string \<Rightarrow> ('s, string, string list) act"
  r_exists :: "instant \<Rightarrow> string \<Rightarrow> ('s, string, bool) act"

type_synonym view = "instant \<Rightarrow> string \<Rightarrow> string option"

definition after_secs :: "instant \<Rightarrow> nat \<Rightarrow> instant" where
  "after_secs t n = t + int n * 1000000000"

text \<open>The largest time to live in seconds the server accepts: it is kept in milliseconds as \<open>i64\<close>.\<close>

definition max_expire :: u64 where
  "max_expire = 9223372036854775"

definition live_until :: "instant \<Rightarrow> string \<Rightarrow> instant \<Rightarrow> string option" where
  "live_until e v t = (if t < e then Some v else None)"

text \<open>A pattern prefix without a character that is special in a glob.\<close>

definition glob_plain :: "string \<Rightarrow> bool" where
  "glob_plain p = list_all (\<lambda>c. c \<notin> {CHR ''*'', CHR ''?'', CHR ''['', CHR '']'', CHR 0x5C}) p"

definition same_from :: "instant \<Rightarrow> view \<Rightarrow> view \<Rightarrow> bool" where
  "same_from t f g \<longleftrightarrow> (\<forall>t' \<ge> t. g t' = f t')"

lemma nat_sint_small:
  assumes "w \<le> max_expire"
  shows "nat (sint w) = unat w" and "uint w \<le> 9223372036854775"
proof -
  have n: "uint (9223372036854775 :: u64) = 9223372036854775" by simp
  have "uint w \<le> uint (9223372036854775 :: u64)"
    using assms unfolding max_expire_def by (rule word_le_def [THEN iffD1])
  then show u: "uint w \<le> 9223372036854775" unfolding n .
  have "sint w = uint w"
    unfolding sint_uint using u by (intro signed_take_bit_int_eq_self) (simp_all add: order_trans [OF _ uint_ge_0])
  then show "nat (sint w) = unat w" by (simp only: unat_eq_nat_uint)
qed

lemma same_from_refl [simp]: "same_from t f f"
  by (simp add: same_from_def)

lemma same_from_trans: "same_from t f g \<Longrightarrow> same_from t g h \<Longrightarrow> same_from t f h"
  by (simp add: same_from_def)

lemma same_fromD: "same_from t f g \<Longrightarrow> t \<le> t' \<Longrightarrow> g t' k = f t' k"
  by (simp add: same_from_def)

lemma same_from_now: "same_from t f g \<Longrightarrow> g t k = f t k"
  by (simp add: same_from_def)

lemma same_from_later: "same_from t f g \<Longrightarrow> t \<le> t' \<Longrightarrow> same_from t' f g"
  by (simp add: same_from_def)

lemma live_until_simps [simp]:
  "t < e \<Longrightarrow> live_until e v t = Some v" "e \<le> t \<Longrightarrow> live_until e v t = None"
  by (simp_all add: live_until_def)

lemma live_until_Some: "live_until e v t = Some w \<longleftrightarrow> t < e \<and> w = v"
  by (auto simp: live_until_def)

locale redis_server =
  fixes R :: "'s redis" and view :: "'s \<Rightarrow> view"
  assumes decay: "view s t' k = Some v \<Longrightarrow> t \<le> t' \<Longrightarrow> view s t k = Some v"
    and conn_law: "r_conn R s = (r, s') \<Longrightarrow> view s' = view s"
    and get_law: "r_get R t k s = (Inr w, s') \<Longrightarrow> w = view s t k \<and> same_from t (view s) (view s')"
    and set_law: "r_set R t k v s = (Inr u, s') \<Longrightarrow> t \<le> t' \<Longrightarrow> view s' t' = (view s t')(k := Some v)"
    and set_ex_law: "r_set_ex R t k v ttl s = (Inr u, s') \<Longrightarrow> t \<le> t' \<Longrightarrow>
          view s' t' = (view s t')(k := live_until (after_secs t (unat ttl)) v t')"
    and set_ex_range: "r_set_ex R t k v ttl s = (Inr u, s') \<Longrightarrow> 0 < ttl \<and> ttl \<le> max_expire"
    and set_nx_free: "r_set_nx_ex R t k v ttl s = (Inr c, s') \<Longrightarrow> view s t k = None \<Longrightarrow>
          c \<noteq> None \<and> (\<forall>t' \<ge> t. view s' t' = (view s t')(k := live_until (after_secs t (unat ttl)) v t'))"
    and set_nx_taken: "r_set_nx_ex R t k v ttl s = (Inr c, s') \<Longrightarrow> view s t k \<noteq> None \<Longrightarrow>
          c = None \<and> same_from t (view s) (view s')"
    and del_law: "r_del R t k s = (Inr u, s') \<Longrightarrow> t \<le> t' \<Longrightarrow> view s' t' = (view s t')(k := None)"
    and expire_law: "r_expire R t k n s = (Inr u, s') \<Longrightarrow> t \<le> t' \<Longrightarrow>
          view s' t' = (view s t')(k := (case view s t k of None \<Rightarrow> None
                                         | Some v \<Rightarrow> live_until (after_secs t (nat n)) v t'))"
    and keys_law: "r_keys R t (p @ ''*'') s = (Inr ks, s') \<Longrightarrow> glob_plain p \<Longrightarrow>
          set ks = {k. prefix p k \<and> view s t k \<noteq> None} \<and> same_from t (view s) (view s')"
    and exists_law: "r_exists R t k s = (Inr b, s') \<Longrightarrow>
          b = (view s t k \<noteq> None) \<and> same_from t (view s) (view s')"
begin

lemma get_ok: "r_get R t k s = (Inr v, s') \<Longrightarrow> v = view s t k"
  using get_law by blast

lemma get_same: "r_get R t k s = (Inr v, s') \<Longrightarrow> same_from t (view s) (view s')"
  using get_law by blast

lemma set_nx_cases:
  assumes "r_set_nx_ex R t k v ttl s = (Inr c, s')"
  obtains (free) "view s t k = None" "c \<noteq> None"
      "\<And>t'. t \<le> t' \<Longrightarrow> view s' t' = (view s t')(k := live_until (after_secs t (unat ttl)) v t')"
  | (taken) w where "view s t k = Some w" "c = None" "same_from t (view s) (view s')"
  using set_nx_free [OF assms] set_nx_taken [OF assms] by (cases "view s t k") auto

lemma expired_gone: "view s t k = None \<Longrightarrow> t \<le> t' \<Longrightarrow> view s t' k = None"
  using decay [of s t' k _ t] by (cases "view s t' k") auto

end

section \<open>A server over association lists\<close>

type_synonym mem_state = "(string, string \<times> instant option) hmap"

definition mem_view :: "mem_state \<Rightarrow> view" where
  "mem_view s t k =
     (case hget s k of
        None \<Rightarrow> None
      | Some (v, None) \<Rightarrow> Some v
      | Some (v, Some e) \<Rightarrow> live_until e v t)"

definition mem_set_ex :: "instant \<Rightarrow> string \<Rightarrow> string \<Rightarrow> u64 \<Rightarrow> (mem_state, string, unit) act" where
  "mem_set_ex t k v ttl s =
     (if ttl = 0 \<or> ttl > max_expire then (Inl ''ERR invalid expire time'', s)
      else (Inr (), hput k (v, Some (after_secs t (unat ttl))) s))"

definition mem_redis :: "mem_state redis" where
  "mem_redis =
     \<lparr> r_conn = ret (),
       r_get = (\<lambda>t k s. (Inr (mem_view s t k), s)),
       r_set = (\<lambda>t k v s. (Inr (), hput k (v, None) s)),
       r_set_ex = mem_set_ex,
       r_set_nx_ex = (\<lambda>t k v ttl s.
         if mem_view s t k \<noteq> None then (Inr None, s)
         else case mem_set_ex t k v ttl s of (Inl e, s') \<Rightarrow> (Inl e, s') | (Inr u, s') \<Rightarrow> (Inr (Some ''OK''), s')),
       r_del = (\<lambda>t k s. (Inr (), hdel k s)),
       r_expire = (\<lambda>t k n s.
         (Inr (), case mem_view s t k of None \<Rightarrow> hdel k s | Some v \<Rightarrow> hput k (v, Some (after_secs t (nat n))) s)),
       r_keys = (\<lambda>t p s. (Inr (filter (\<lambda>k. prefix (butlast p) k \<and> mem_view s t k \<noteq> None) (hkeys s)), s)),
       r_exists = (\<lambda>t k s. (Inr (mem_view s t k \<noteq> None), s)) \<rparr>"

lemma mem_ops:
  "r_conn mem_redis s = (Inr (), s)"
  "r_get mem_redis t k s = (Inr (mem_view s t k), s)"
  "r_set mem_redis t k v s = (Inr (), hput k (v, None) s)"
  "r_set_ex mem_redis t k v ttl s = mem_set_ex t k v ttl s"
  "r_set_nx_ex mem_redis t k v ttl s =
     (if mem_view s t k \<noteq> None then (Inr None, s)
      else case mem_set_ex t k v ttl s of (Inl e, s') \<Rightarrow> (Inl e, s') | (Inr u, s') \<Rightarrow> (Inr (Some ''OK''), s'))"
  "r_del mem_redis t k s = (Inr (), hdel k s)"
  "r_expire mem_redis t k n s =
     (Inr (), case mem_view s t k of None \<Rightarrow> hdel k s | Some v \<Rightarrow> hput k (v, Some (after_secs t (nat n))) s)"
  "r_keys mem_redis t p s = (Inr (filter (\<lambda>k. prefix (butlast p) k \<and> mem_view s t k \<noteq> None) (hkeys s)), s)"
  "r_exists mem_redis t k s = (Inr (mem_view s t k \<noteq> None), s)"
  by (simp_all add: mem_redis_def)

lemmas mem_eval = mem_ops mem_set_ex_def mem_view_def seq_act_def bind_act_def map_err_def max_expire_def

lemma mem_view_Nil [simp]: "mem_view [] t k = None"
  by (simp add: mem_view_def)

lemma mem_view_hput: "mem_view (hput k (v, e) s) t =
    (mem_view s t)(k := (case e of None \<Rightarrow> Some v | Some x \<Rightarrow> live_until x v t))"
  by (rule ext) (simp add: mem_view_def)

lemma mem_view_hdel: "mem_view (hdel k s) t = (mem_view s t)(k := None)"
  by (rule ext) (simp add: mem_view_def)

lemma mem_view_key: "mem_view s t k \<noteq> None \<Longrightarrow> k \<in> set (hkeys s)"
  by (cases "hget s k") (auto simp: mem_view_def dest!: hget_SomeD intro: image_eqI [rotated])

lemma mem_set_ex_ok:
  "mem_set_ex t k v ttl s = (Inr u, s') \<Longrightarrow> s' = hput k (v, Some (after_secs t (unat ttl))) s"
  by (simp add: mem_set_ex_def split: if_splits)

lemma mem_view_decay: "mem_view s t' k = Some v \<Longrightarrow> t \<le> t' \<Longrightarrow> mem_view s t k = Some v"
  by (auto simp: mem_view_def live_until_def split: option.splits if_splits)

interpretation mem: redis_server mem_redis mem_view
proof (unfold_locales, goal_cases)
  case 1
  then show ?case by (rule mem_view_decay)
next
  case 2
  then show ?case by (simp add: mem_redis_def)
next
  case 3
  then show ?case by (auto simp: mem_redis_def)
next
  case 4
  then show ?case by (simp add: mem_redis_def) (auto simp: mem_view_hput)
next
  case 5
  then show ?case by (simp add: mem_redis_def) (drule mem_set_ex_ok, simp add: mem_view_hput)
next
  case 6
  then show ?case by (auto simp: mem_redis_def mem_set_ex_def word_neq_0_conv not_less split: if_splits)
next
  case (7 t k v ttl s c s')
  then obtain u where "mem_set_ex t k v ttl s = (Inr u, s')" and "c = Some ''OK''"
    by (auto simp: mem_redis_def split: prod.splits sum.splits)
  then show ?case by (auto simp: mem_view_hput dest: mem_set_ex_ok)
next
  case 8
  then show ?case by (simp add: mem_redis_def)
next
  case 9
  then show ?case by (simp add: mem_redis_def) (auto simp: mem_view_hdel)
next
  case 10
  then show ?case by (simp add: mem_redis_def) (auto simp: mem_view_hdel mem_view_hput split: option.split)
next
  case (11 t p s ks s')
  then have ks: "ks = filter (\<lambda>k. prefix p k \<and> mem_view s t k \<noteq> None) (hkeys s)" and "s' = s"
    by (auto simp: mem_redis_def)
  have "set ks = {k. prefix p k \<and> mem_view s t k \<noteq> None}"
    unfolding ks set_filter using mem_view_key by blast
  with \<open>s' = s\<close> show ?case by simp
next
  case 12
  then show ?case by (auto simp: mem_redis_def)
qed

section \<open>Addresses as text\<close>

text \<open>\<open>Display\<close> and \<open>FromStr\<close> of \<open>std::net::Ipv4Addr\<close>: four decimal octets without leading zeros.\<close>

definition octets :: "32 word \<Rightarrow> nat list" where
  "octets ip = (let n = unat ip in [n div 16777216, n div 65536 mod 256, n div 256 mod 256, n mod 256])"

definition ipv4_to_string :: "32 word \<Rightarrow> string" where
  "ipv4_to_string ip =
     (case octets ip of [a, b, c, d] \<Rightarrow> dec a @ ''.'' @ dec b @ ''.'' @ dec c @ ''.'' @ dec d | _ \<Rightarrow> [])"

definition parse_octet :: "string \<Rightarrow> nat option" where
  "parse_octet s =
     (if length s \<le> 3 \<and> (length s > 1 \<longrightarrow> hd s \<noteq> CHR ''0'') then
        (case parse_nat s of None \<Rightarrow> None | Some n \<Rightarrow> if n \<le> 255 then Some n else None)
      else None)"

definition parse_ipv4 :: "string \<Rightarrow> 32 word option" where
  "parse_ipv4 s =
     (case map parse_octet (split_on CHR ''.'' s) of
        [Some a, Some b, Some c, Some d] \<Rightarrow> Some (of_nat (a * 16777216 + b * 65536 + c * 256 + d))
      | _ \<Rightarrow> None)"

section \<open>The helpers of cache.rs\<close>

definition connect :: "'s redis \<Rightarrow> ('s, FleetingDnsError, unit) act" where
  "connect R = map_err Fd_ConnectionError (r_conn R)"

definition get_slot :: "'s redis \<Rightarrow> instant \<Rightarrow> string \<Rightarrow> ('s, FleetingDnsError, 32 word) act" where
  "get_slot R now slot =
     seq_act (connect R)
       (bind_act (map_err Fd_RedisError (r_get R now slot)) (\<lambda>val.
          case val of
            Some v \<Rightarrow>
              (case parse_ipv4 v of
                 None \<Rightarrow> fail (Fd_ValidationError ''Invalid IP address format'')
               | Some ip \<Rightarrow> ret ip)
          | None \<Rightarrow> fail (Fd_NotFound (''DNS record not found for slot: '' @ slot))))"

definition set_slot :: "'s redis \<Rightarrow> instant \<Rightarrow> string \<Rightarrow> 32 word \<Rightarrow> u64 \<Rightarrow> ('s, FleetingDnsError, unit) act" where
  "set_slot R now slot ip ttl =
     seq_act (connect R) (map_err Fd_RedisError (r_set_ex R now slot (ipv4_to_string ip) ttl))"

definition del_slot :: "'s redis \<Rightarrow> instant \<Rightarrow> string \<Rightarrow> ('s, FleetingDnsError, unit) act" where
  "del_slot R now slot = seq_act (connect R) (map_err Fd_RedisError (r_del R now slot))"

definition set_string_ex :: "'s redis \<Rightarrow> instant \<Rightarrow> string \<Rightarrow> string \<Rightarrow> u64 \<Rightarrow> ('s, FleetingDnsError, unit) act" where
  "set_string_ex R now key v ttl = seq_act (connect R) (map_err Fd_RedisError (r_set_ex R now key v ttl))"

definition get_string :: "'s redis \<Rightarrow> instant \<Rightarrow> string \<Rightarrow> ('s, FleetingDnsError, string option) act" where
  "get_string R now key = seq_act (connect R) (map_err Fd_RedisError (r_get R now key))"

definition del_key :: "'s redis \<Rightarrow> instant \<Rightarrow> string \<Rightarrow> ('s, FleetingDnsError, unit) act" where
  "del_key R now key = seq_act (connect R) (map_err Fd_RedisError (r_del R now key))"

section \<open>The contract of the string helpers\<close>

locale string_store =
  fixes put :: "instant \<Rightarrow> string \<Rightarrow> string \<Rightarrow> u64 \<Rightarrow> ('s, 'e, unit) act"
    and fetch :: "instant \<Rightarrow> string \<Rightarrow> ('s, 'e, string option) act"
    and remove :: "instant \<Rightarrow> string \<Rightarrow> ('s, 'e, unit) act"
    and view :: "'s \<Rightarrow> view"
  assumes put_law: "put t k v ttl s = (Inr u, s') \<Longrightarrow> t \<le> t' \<Longrightarrow>
          view s' t' = (view s t')(k := live_until (after_secs t (unat ttl)) v t')"
    and fetch_law: "fetch t k s = (Inr w, s') \<Longrightarrow> w = view s t k \<and> same_from t (view s) (view s')"
    and remove_law: "remove t k s = (Inr u, s') \<Longrightarrow> t \<le> t' \<Longrightarrow> view s' t' = (view s t')(k := None)"
begin

lemma fetch_after_put:
  "put t k v ttl s = (Inr u, s1) \<Longrightarrow> fetch t' k s1 = (Inr w, s2) \<Longrightarrow> t \<le> t' \<Longrightarrow>
   w = live_until (after_secs t (unat ttl)) v t'"
  using put_law [of t k v ttl s u s1 t'] by (auto dest: fetch_law)

lemma fetch_after_other_put:
  "put t k v ttl s = (Inr u, s1) \<Longrightarrow> fetch t' k' s1 = (Inr w, s2) \<Longrightarrow> t \<le> t' \<Longrightarrow> k' \<noteq> k \<Longrightarrow>
   w = view s t' k'"
  using put_law [of t k v ttl s u s1 t'] by (auto dest: fetch_law)

lemma fetch_after_remove:
  "remove t k s = (Inr u, s1) \<Longrightarrow> fetch t' k s1 = (Inr w, s2) \<Longrightarrow> t \<le> t' \<Longrightarrow> w = None"
  using remove_law [of t k s u s1 t'] by (auto dest: fetch_law)

end

context redis_server
begin

lemma connect_view: "connect R s = (r, s') \<Longrightarrow> view s' = view s"
  by (auto simp: connect_def map_err_def conn_law split: prod.splits sum.splits dest: conn_law)

end

sublocale redis_server \<subseteq> cache: string_store "set_string_ex R" "get_string R" "del_key R" view
proof (unfold_locales, goal_cases)
  case 1
  then show ?case by (auto simp: set_string_ex_def act_ok set_ex_law dest: connect_view)
next
  case 2
  then show ?case by (auto simp: get_string_def act_ok dest!: connect_view get_law)
next
  case 3
  then show ?case by (auto simp: del_key_def act_ok del_law dest: connect_view)
qed

context redis_server
begin

lemma helpers_string_store: "string_store (set_string_ex R) (get_string R) (del_key R) view"
  by (rule cache.string_store_axioms)

end

section \<open>Slot records\<close>

lemma digit_char_nonzero: "0 < d \<Longrightarrow> d < 10 \<Longrightarrow> digit_char d \<noteq> CHR ''0''"
  using digit_cases [of d] by (auto simp: digit_char_def)

lemma dec_no_leading_zero: "0 < n \<Longrightarrow> hd (dec n) \<noteq> CHR ''0''"
proof (induction n rule: dec.induct)
  case (1 n)
  then show ?case
    by (cases "n < 10") (simp_all add: dec.simps [of n] digit_char_nonzero div_greater_zero_iff)
qed

lemma length_dec_small: "n < 1000 \<Longrightarrow> length (dec n) \<le> 3"
  by (simp add: dec.simps [of n] dec.simps [of "n div 10"] dec.simps [of "n div 10 div 10"])

lemma parse_octet_dec: "n < 256 \<Longrightarrow> parse_octet (dec n) = Some n"
  using dec_no_leading_zero [of n] length_dec_small [of n]
  by (cases "n = 0") (simp_all add: parse_octet_def, simp add: dec.simps [of 0])

lemma dot_not_dec: "CHR ''.'' \<notin> set (dec n)"
  by (rule dec_no_char) (simp add: is_ascii_digit_def)

lemma octets_sum:
  "n div 16777216 * 16777216 + n div 65536 mod 256 * 65536 + n div 256 mod 256 * 256 + n mod 256 = (n :: nat)"
proof -
  have e: "n div 65536 = n div 256 div 256" "n div 16777216 = n div 256 div 256 div 256"
    by (simp_all add: div_mult2_eq [symmetric])
  have "m div 256 * 256 + m mod 256 = m" for m :: nat by simp
  from this [of n] this [of "n div 256"] this [of "n div 256 div 256"] show ?thesis
    unfolding e by linarith
qed

lemma parse_ipv4_to_string [simp]: "parse_ipv4 (ipv4_to_string ip) = Some ip"
proof -
  have "unat ip < 2 ^ LENGTH(32)" by (rule unsigned_less)
  then have "unat ip div 16777216 < 256" by (simp add: less_mult_imp_div_less)
  then show ?thesis
    by (simp add: parse_ipv4_def ipv4_to_string_def octets_def Let_def split_on_append split_on_single
        dot_not_dec parse_octet_dec octets_sum)
qed

lemma get_slot_outcome:
  assumes "redis_server R view" and "get_slot R t k s = (r, s')"
  shows "(\<exists>e. r = Inl (Fd_ConnectionError e)) \<or> (\<exists>e. r = Inl (Fd_RedisError e)) \<or>
         r = (case view s t k of
                None \<Rightarrow> Inl (Fd_NotFound (''DNS record not found for slot: '' @ k))
              | Some v \<Rightarrow> (case parse_ipv4 v of None \<Rightarrow> Inl (Fd_ValidationError ''Invalid IP address format'')
                            | Some ip \<Rightarrow> Inr ip))"
proof -
  note laws = redis_server.connect_view [OF assms(1)] redis_server.get_ok [OF assms(1)]
  obtain c s1 where c: "connect R s = (c, s1)" by (cases "connect R s")
  obtain g s2 where g: "r_get R t k s1 = (g, s2)" by (cases "r_get R t k s1")
  show ?thesis
  proof (cases c)
    case (Inl e)
    with c assms(2) show ?thesis
      by (auto simp: get_slot_def seq_act_def bind_act_def connect_def map_err_def split: prod.splits sum.splits)
  next
    case (Inr u)
    show ?thesis
    proof (cases g)
      case (Inl e)
      with c Inr g assms(2) show ?thesis
        by (auto simp: get_slot_def seq_act_def bind_act_def map_err_def)
    next
      case (Inr v)
      have "v = view s t k" using laws(1) [OF c] laws(2) [OF g [unfolded Inr]] by simp
      with c \<open>c = Inr u\<close> g Inr assms(2) show ?thesis
        by (auto simp: get_slot_def seq_act_def bind_act_def map_err_def split: option.splits)
    qed
  qed
qed

text \<open>
  A slot written with \<open>set_slot\<close> is read back by \<open>get_slot\<close> as the same address until its time to
  live runs out and is reported as not found from then on; no other answer is possible except that the
  connection or the command fails.
\<close>

lemma slot_roundtrip:
  assumes server: "redis_server R view"
    and put: "set_slot R t k ip ttl s = (Inr u, s1)" and le: "t \<le> t'"
    and got: "get_slot R t' k s1 = (r, s2)"
  shows "(\<exists>e. r = Inl (Fd_ConnectionError e)) \<or> (\<exists>e. r = Inl (Fd_RedisError e)) \<or>
         r = (if t' < after_secs t (unat ttl) then Inr ip
              else Inl (Fd_NotFound (''DNS record not found for slot: '' @ k)))"
proof -
  obtain s0 c where "connect R s = (Inr c, s0)" and set: "r_set_ex R t k (ipv4_to_string ip) ttl s0 = (Inr u, s1)"
    using put by (auto simp: set_slot_def act_ok)
  then have "view s1 t' k = live_until (after_secs t (unat ttl)) (ipv4_to_string ip) t'"
    using redis_server.set_ex_law [OF server set le] by simp
  then show ?thesis
    using get_slot_outcome [OF server got] by (auto simp: live_until_def split: if_splits)
qed

lemma slot_roundtrip_witness:
  "fst (get_slot mem_redis 5 ''slot:a.example'' (snd (set_slot mem_redis 0 ''slot:a.example'' 3232235777 30 []))) = Inr 3232235777"
proof -
  obtain u s1 where put: "set_slot mem_redis 0 ''slot:a.example'' 3232235777 30 [] = (Inr u, s1)"
    by (simp add: set_slot_def connect_def seq_act_def bind_act_def map_err_def mem_redis_def mem_set_ex_def max_expire_def)
  obtain r s2 where got: "get_slot mem_redis 5 ''slot:a.example'' s1 = (r, s2)"
    by (cases "get_slot mem_redis 5 ''slot:a.example'' s1")
  have "\<not> (\<exists>e. r = Inl (Fd_ConnectionError e)) \<and> \<not> (\<exists>e. r = Inl (Fd_RedisError e))"
    using got by (auto simp: get_slot_def connect_def seq_act_def bind_act_def map_err_def mem_redis_def split: option.splits)
  with slot_roundtrip [OF mem.redis_server_axioms put _ got] have "r = Inr 3232235777"
    by (simp add: after_secs_def)
  with put got show ?thesis by simp
qed

end
