(* ===== verification/Tunnel_Types.thy ===== *)
theory Tunnel_Types
  imports Prelude Errors Redis_Store
begin

text \<open>
  The tunnel records the services exchange through Redis: \<open>Tunnel\<close> and \<open>TunnelStatus\<close> of
  \<open>crates/backendapi/src/models.rs\<close>, \<open>TunnelInfo\<close> and \<open>TeardownPolicy\<close> of
  \<open>crates/common/src/redis/tunnel.rs\<close>, \<open>TunnelData\<close> and \<open>UserTunnelLookup\<close> of
  \<open>crates/common/src/tunnel.rs\<close>, \<open>SessionData\<close> of \<open>crates/common/src/redis/auth.rs\<close>, and the names of
  the keys they live under.

  The JSON texts come from serde_json, the identifiers from the uuid crate and the timestamps from
  chrono, none of which is part of the repository.  The record \<open>codec\<close> holds the functions the
  sources call and the locale \<open>codec_laws\<close> what they rely on: what was written is read back, and the
  API's \<open>Tunnel\<close> record is read by the edge as the \<open>TunnelInfo\<close> with the same fields.
\<close>

section \<open>Records\<close>

type_synonym uuid = "128 word"

datatype TunnelStatus = Creating | Active | Destroying | Expired | Error

datatype TeardownPolicy = TtlOnly | ViewerIdle

record Tunnel =
  t_id :: uuid
  t_github_user_id :: string
  t_github_username :: string
  t_subdomain :: string
  t_fqdn :: string
  t_local_port :: u16
  t_slot :: u16
  t_certificate_serial :: string
  t_created_at :: instant
  t_expires_at :: instant
  t_status :: TunnelStatus
  t_protected :: bool
  t_teardown_policy :: TeardownPolicy

record TunnelInfo =
  ti_id :: string
  ti_github_user_id :: string
  ti_github_username :: string
  ti_subdomain :: string
  ti_fqdn :: string
  ti_local_port :: u16
  ti_slot :: u16
  ti_certificate_serial :: string
  ti_created_at :: string
  ti_expires_at :: string
  ti_status :: string
  ti_protected :: bool
  ti_teardown_policy :: TeardownPolicy

record TunnelData =
  td_id :: string
  td_github_user_id :: string
  td_github_username :: string
  td_subdomain :: string
  td_fqdn :: string
  td_local_port :: u16
  td_slot :: u16
  td_certificate_serial :: string
  td_created_at :: string
  td_expires_at :: string
  td_status :: string

record UserTunnelLookup =
  lk_github_user_id :: string
  lk_github_username :: string
  lk_tunnels :: "string list"

record SessionData =
  sd_github_user_id :: string
  sd_public_key :: string
  sd_fingerprint :: string
  sd_expires_at :: instant
  sd_session_id :: string

text \<open>The serialised name of a status (\<open>rename_all = "lowercase"\<close>).\<close>

fun status_name :: "TunnelStatus \<Rightarrow> string" where
  "status_name Creating = ''creating''"
| "status_name Active = ''active''"
| "status_name Destroying = ''destroying''"
| "status_name Expired = ''expired''"
| "status_name Error = ''error''"

section \<open>Text forms\<close>

record codec =
  uuid_to_string :: "uuid \<Rightarrow> string"
  parse_uuid :: "string \<Rightarrow> string + uuid"
  to_rfc3339 :: "instant \<Rightarrow> string"
  parse_rfc3339 :: "string \<Rightarrow> instant option"
  ser_tunnel :: "Tunnel \<Rightarrow> string + string"
  de_tunnel :: "string \<Rightarrow> string + Tunnel"
  ser_info :: "TunnelInfo \<Rightarrow> string + string"
  de_info :: "string \<Rightarrow> string + TunnelInfo"
  ser_lookup :: "UserTunnelLookup \<Rightarrow> string + string"
  de_lookup :: "string \<Rightarrow> string + UserTunnelLookup"
  ser_session :: "SessionData \<Rightarrow> string + string"
  de_session :: "string \<Rightarrow> string + SessionData"

definition info_of_tunnel :: "codec \<Rightarrow> Tunnel \<Rightarrow> TunnelInfo" where
  "info_of_tunnel C t =
     \<lparr> ti_id = uuid_to_string C (t_id t),
       ti_github_user_id = t_github_user_id t,
       ti_github_username = t_github_username t,
       ti_subdomain = t_subdomain t,
       ti_fqdn = t_fqdn t,
       ti_local_port = t_local_port t,
       ti_slot = t_slot t,
       ti_certificate_serial = t_certificate_serial t,
       ti_created_at = to_rfc3339 C (t_created_at t),
       ti_expires_at = to_rfc3339 C (t_expires_at t),
       ti_status = status_name (t_status t),
       ti_protected = t_protected t,
       ti_teardown_policy = t_teardown_policy t \<rparr>"

locale codec_laws =
  fixes C :: codec
  assumes uuid_round: "parse_uuid C (uuid_to_string C u) = Inr u"
    and uuid_chars: "list_all (\<lambda>c. is_ascii_hexdigit c \<or> c = CHR ''-'') (uuid_to_string C u)"
    and time_round: "parse_rfc3339 C (to_rfc3339 C t) = Some t"
    and tunnel_round: "ser_tunnel C x = Inr j \<Longrightarrow> de_tunnel C j = Inr x"
    and tunnel_info: "ser_tunnel C x = Inr j \<Longrightarrow> de_info C j = Inr (info_of_tunnel C x)"
    and info_round: "ser_info C i = Inr j \<Longrightarrow> de_info C j = Inr i"
    and lookup_round: "ser_lookup C l = Inr j \<Longrightarrow> de_lookup C j = Inr l"
    and session_round: "ser_session C d = Inr j \<Longrightarrow> de_session C j = Inr d"
begin

lemma uuid_inj: "uuid_to_string C u = uuid_to_string C v \<longleftrightarrow> u = v"
  using uuid_round by (metis sum.inject(2))

lemma uuid_no_colon: "CHR '':'' \<notin> set (uuid_to_string C u)"
  using uuid_chars [of u] by (auto simp: list_all_iff is_ascii_hexdigit_def is_ascii_digit_def)

end

text \<open>A codec that can write the values of given tables, each as the position in its table.\<close>

definition tab_ser :: "'a list \<Rightarrow> 'a \<Rightarrow> string + string" where
  "tab_ser xs x =
     (case List.find (\<lambda>i. xs ! i = x) [0..<length xs] of None \<Rightarrow> Inl ''unsupported'' | Some i \<Rightarrow> Inr (dec i))"

definition tab_de :: "'a list \<Rightarrow> string \<Rightarrow> string + 'a" where
  "tab_de xs j =
     (case parse_nat j of None \<Rightarrow> Inl ''syntax'' | Some i \<Rightarrow> if i < length xs then Inr (xs ! i) else Inl ''range'')"

definition int_to_string :: "int \<Rightarrow> string" where
  "int_to_string i = (if i < 0 then CHR ''-'' # dec (nat (- i)) else dec (nat i))"

definition parse_int :: "string \<Rightarrow> int option" where
  "parse_int s =
     (case s of
        [] \<Rightarrow> None
      | c # cs \<Rightarrow> if c = CHR ''-'' then map_option (\<lambda>n. - int n) (parse_nat cs) else map_option int (parse_nat s))"

definition tab_codec :: "Tunnel list \<Rightarrow> UserTunnelLookup list \<Rightarrow> SessionData list \<Rightarrow> codec" where
  "tab_codec ts ls ss =
     \<lparr> uuid_to_string = (\<lambda>u. dec (unat u)),
       parse_uuid = (\<lambda>s. case parse_nat s of None \<Rightarrow> Inl ''invalid'' | Some n \<Rightarrow> Inr (of_nat n)),
       to_rfc3339 = int_to_string,
       parse_rfc3339 = parse_int,
       ser_tunnel = tab_ser ts,
       de_tunnel = tab_de ts,
       ser_info = (\<lambda>i. Inl ''unsupported''),
       de_info = (\<lambda>j. case tab_de ts j of Inl e \<Rightarrow> Inl e
                    | Inr t \<Rightarrow> Inr \<lparr> ti_id = dec (unat (t_id t)),
                        ti_github_user_id = t_github_user_id t,
                        ti_github_username = t_github_username t,
                        ti_subdomain = t_subdomain t,
                        ti_fqdn = t_fqdn t,
                        ti_local_port = t_local_port t,
                        ti_slot = t_slot t,
                        ti_certificate_serial = t_certificate_serial t,
                        ti_created_at = int_to_string (t_created_at t),
                        ti_expires_at = int_to_string (t_expires_at t),
                        ti_status = status_name (t_status t),
                        ti_protected = t_protected t,
                        ti_teardown_policy = t_teardown_policy t \<rparr>),
       ser_lookup = tab_ser ls,
       de_lookup = tab_de ls,
       ser_session = tab_ser ss,
       de_session = tab_de ss \<rparr>"

lemma tab_round: "tab_ser xs x = Inr j \<Longrightarrow> tab_de xs j = Inr x"
  by (auto simp: tab_ser_def tab_de_def find_Some_iff split: option.splits)

lemma dec_hex_chars: "list_all (\<lambda>c. is_ascii_hexdigit c \<or> c = CHR ''-'') (dec n)"
  using dec_digits [of n] by (auto simp: list_all_iff is_ascii_hexdigit_def)

lemma parse_int_to_string: "parse_int (int_to_string i) = Some i"
proof (cases "i < 0")
  case False
  obtain c cs where d: "dec (nat i) = c # cs" by (cases "dec (nat i)") auto
  have "CHR ''-'' \<notin> set (dec (nat i))" by (rule dec_no_char) (simp add: is_ascii_digit_def)
  with d have "c \<noteq> CHR ''-''" by auto
  then show ?thesis
    using False parse_nat_dec [of "nat i"] by (simp add: int_to_string_def parse_int_def d)
qed (simp add: int_to_string_def parse_int_def)

interpretation tab: codec_laws "tab_codec ts ls ss" for ts ls ss
  by unfold_locales
    (auto simp: tab_codec_def tab_round dec_hex_chars parse_int_to_string info_of_tunnel_def)

section \<open>Constructors and observers\<close>

definition Tunnel_new ::
  "instant \<Rightarrow> uuid \<Rightarrow> string \<Rightarrow> string \<Rightarrow> string \<Rightarrow> string \<Rightarrow> u16 \<Rightarrow> u16 \<Rightarrow> string \<Rightarrow> u64 \<Rightarrow> Tunnel" where
  "Tunnel_new now new_id github_user_id github_username subdomain base_domain local_port slot
     certificate_serial ttl_seconds =
     \<lparr> t_id = new_id,
       t_github_user_id = github_user_id,
       t_github_username = github_username,
       t_subdomain = subdomain,
       t_fqdn = subdomain @ ''.'' @ base_domain,
       t_local_port = local_port,
       t_slot = slot,
       t_certificate_serial = certificate_serial,
       t_created_at = now,
       t_expires_at = now + chrono_seconds (sint ttl_seconds),
       t_status = Creating,
       t_protected = False,
       t_teardown_policy = TtlOnly \<rparr>"

definition is_expired :: "instant \<Rightarrow> Tunnel \<Rightarrow> bool" where
  "is_expired now t = (now > t_expires_at t)"

definition remaining_ttl :: "instant \<Rightarrow> Tunnel \<Rightarrow> int" where
  "remaining_ttl now t = num_seconds (t_expires_at t - now)"

definition TunnelData_new ::
  "codec \<Rightarrow> instant \<Rightarrow> uuid \<Rightarrow> string \<Rightarrow> string \<Rightarrow> string \<Rightarrow> string \<Rightarrow> u16 \<Rightarrow> u16 \<Rightarrow> string \<Rightarrow> instant \<Rightarrow> TunnelData" where
  "TunnelData_new C now tid github_user_id github_username subdomain fqdn local_port slot
     certificate_serial expires_at =
     \<lparr> td_id = uuid_to_string C tid,
       td_github_user_id = github_user_id,
       td_github_username = github_username,
       td_subdomain = subdomain,
       td_fqdn = fqdn,
       td_local_port = local_port,
       td_slot = slot,
       td_certificate_serial = certificate_serial,
       td_created_at = to_rfc3339 C now,
       td_expires_at = to_rfc3339 C expires_at,
       td_status = ''creating'' \<rparr>"

definition td_is_expired :: "codec \<Rightarrow> instant \<Rightarrow> TunnelData \<Rightarrow> bool" where
  "td_is_expired C now d =
     (case parse_rfc3339 C (td_expires_at d) of Some e \<Rightarrow> now > e | None \<Rightarrow> True)"

definition td_ttl_seconds :: "codec \<Rightarrow> instant \<Rightarrow> TunnelData \<Rightarrow> u64" where
  "td_ttl_seconds C now d =
     (case parse_rfc3339 C (td_expires_at d) of
        Some e \<Rightarrow> as_u64 (max (num_seconds (e - now)) 0)
      | None \<Rightarrow> 0)"

section \<open>Keys\<close>

definition tunnel_key :: "string \<Rightarrow> string" where
  "tunnel_key tid = ''tunnel:'' @ tid"

definition lookup_key :: "string \<Rightarrow> string" where
  "lookup_key uid = ''tunnel_lookup:'' @ uid"

definition subdomain_key :: "string \<Rightarrow> string" where
  "subdomain_key sub = ''subdomain:'' @ sub"

definition slot_key :: "string \<Rightarrow> string" where
  "slot_key fqdn = ''slot:'' @ fqdn"

definition port_key :: "u16 \<Rightarrow> string" where
  "port_key port = ''port:'' @ dec (unat port)"

definition session_key :: "string \<Rightarrow> string" where
  "session_key sid = ''session:'' @ sid"

definition tunnel_live_key :: "string \<Rightarrow> string" where
  "tunnel_live_key tid = ''tunnel:live:'' @ tid"

definition session_grant_key :: "string \<Rightarrow> string \<Rightarrow> string" where
  "session_grant_key subdomain token = ''session_grant:'' @ subdomain @ '':'' @ token"

lemmas key_defs = tunnel_key_def lookup_key_def subdomain_key_def slot_key_def port_key_def
  session_key_def tunnel_live_key_def session_grant_key_def

lemma key_inj [simp, key_simps]:
  "tunnel_key a = tunnel_key b \<longleftrightarrow> a = b"
  "lookup_key a = lookup_key b \<longleftrightarrow> a = b"
  "subdomain_key a = subdomain_key b \<longleftrightarrow> a = b"
  "slot_key a = slot_key b \<longleftrightarrow> a = b"
  "port_key p = port_key q \<longleftrightarrow> p = q"
  "session_key a = session_key b \<longleftrightarrow> a = b"
  "tunnel_live_key a = tunnel_live_key b \<longleftrightarrow> a = b"
  by (simp_all add: key_defs word_unat_eq_iff)

lemma key_disjoint [simp, key_simps]:
  "tunnel_key a \<noteq> lookup_key b" "lookup_key b \<noteq> tunnel_key a"
  "tunnel_key a \<noteq> subdomain_key b" "subdomain_key b \<noteq> tunnel_key a"
  "tunnel_key a \<noteq> slot_key b" "slot_key b \<noteq> tunnel_key a"
  "tunnel_key a \<noteq> port_key p" "port_key p \<noteq> tunnel_key a"
  "tunnel_key a \<noteq> session_key b" "session_key b \<noteq> tunnel_key a"
  "tunnel_key a \<noteq> session_grant_key b c" "session_grant_key b c \<noteq> tunnel_key a"
  "lookup_key a \<noteq> subdomain_key b" "subdomain_key b \<noteq> lookup_key a"
  "lookup_key a \<noteq> slot_key b" "slot_key b \<noteq> lookup_key a"
  "lookup_key a \<noteq> port_key p" "port_key p \<noteq> lookup_key a"
  "lookup_key a \<noteq> session_key b" "session_key b \<noteq> lookup_key a"
  "lookup_key a \<noteq> session_grant_key b c" "session_grant_key b c \<noteq> lookup_key a"
  "lookup_key a \<noteq> tunnel_live_key b" "tunnel_live_key b \<noteq> lookup_key a"
  "subdomain_key a \<noteq> slot_key b" "slot_key b \<noteq> subdomain_key a"
  "subdomain_key a \<noteq> port_key p" "port_key p \<noteq> subdomain_key a"
  "subdomain_key a \<noteq> session_key b" "session_key b \<noteq> subdomain_key a"
  "subdomain_key a \<noteq> session_grant_key b c" "session_grant_key b c \<noteq> subdomain_key a"
  "subdomain_key a \<noteq> tunnel_live_key b" "tunnel_live_key b \<noteq> subdomain_key a"
  "slot_key a \<noteq> port_key p" "port_key p \<noteq> slot_key a"
  "slot_key a \<noteq> session_key b" "session_key b \<noteq> slot_key a"
  "slot_key a \<noteq> session_grant_key b c" "session_grant_key b c \<noteq> slot_key a"
  "slot_key a \<noteq> tunnel_live_key b" "tunnel_live_key b \<noteq> slot_key a"
  "port_key p \<noteq> session_key b" "session_key b \<noteq> port_key p"
  "port_key p \<noteq> session_grant_key b c" "session_grant_key b c \<noteq> port_key p"
  "port_key p \<noteq> tunnel_live_key b" "tunnel_live_key b \<noteq> port_key p"
  "session_key a \<noteq> session_grant_key b c" "session_grant_key b c \<noteq> session_key a"
  "session_key a \<noteq> tunnel_live_key b" "tunnel_live_key b \<noteq> session_key a"
  by (simp_all add: key_defs)

lemma append_sep_inj: "\<lbrakk>c \<notin> set a; c \<notin> set b; a @ c # x = b @ c # y\<rbrakk> \<Longrightarrow> a = b \<and> x = y"
proof (induction a arbitrary: b)
  case Nil
  then show ?case by (cases b) auto
next
  case (Cons d a)
  then show ?case by (cases b) auto
qed

text \<open>A session grant key determines its parts when the subdomain has no colon.\<close>

lemma session_grant_key_inj:
  "\<lbrakk>CHR '':'' \<notin> set a; CHR '':'' \<notin> set b; session_grant_key a x = session_grant_key b y\<rbrakk> \<Longrightarrow> a = b \<and> x = y"
  by (drule (1) append_sep_inj) (simp_all add: session_grant_key_def)

end
