(* ===== verification/Tunnel_Storage.thy ===== *)
theory Tunnel_Storage
  imports Tunnel_Types
begin

text \<open>
  \<open>TunnelStorage\<close> of \<open>crates/backendapi/src/storage.rs\<close>: the Redis records of a tunnel and the
  operations on them, command by command.  An operation takes the server, the codec and the instant at
  which it runs; it threads the server state, so that what an operation wrote before an error stays
  written.  \<open>EDGE_PUBLIC_IP\<close>, random numbers and fresh identifiers are arguments.

  The lemmas give, for every operation that succeeds, the exact change of what later readers see; the
  properties are built from them.
\<close>

section \<open>Operations\<close>

definition storage_err :: "string \<Rightarrow> string \<Rightarrow> ApiError" where
  "storage_err msg e = StorageError (msg @ '': '' @ e)"

definition get_connection :: "'s redis \<Rightarrow> ('s, ApiError, unit) act" where
  "get_connection R = map_err (storage_err ''Failed to get Redis connection'') (r_conn R)"

definition store_ttl :: "instant \<Rightarrow> Tunnel \<Rightarrow> u64" where
  "store_ttl now t = as_u64 (num_seconds (t_expires_at t - now))"

definition new_lookup :: "Tunnel \<Rightarrow> UserTunnelLookup" where
  "new_lookup t =
     \<lparr> lk_github_user_id = t_github_user_id t, lk_github_username = t_github_username t, lk_tunnels = [] \<rparr>"

definition merge_lookup :: "codec \<Rightarrow> Tunnel \<Rightarrow> string option \<Rightarrow> UserTunnelLookup" where
  "merge_lookup C t existing =
     (let lookup = (case existing of
            Some data \<Rightarrow> (case de_lookup C data of Inl e \<Rightarrow> new_lookup t | Inr l \<Rightarrow> l)
          | None \<Rightarrow> new_lookup t)
      in if uuid_to_string C (t_id t) \<in> set (lk_tunnels lookup) then lookup
         else lookup \<lparr> lk_tunnels := lk_tunnels lookup @ [uuid_to_string C (t_id t)] \<rparr>)"

definition store_lookup :: "'s redis \<Rightarrow> codec \<Rightarrow> instant \<Rightarrow> Tunnel \<Rightarrow> ('s, ApiError, unit) act" where
  "store_lookup R C now t =
     (let user_key = lookup_key (t_github_user_id t) in
      bind_act (map_err (storage_err ''Failed to get existing user tunnel lookup'') (r_get R now user_key))
        (\<lambda>existing.
      bind_act (lift_res (map_err_res (storage_err ''Failed to serialize user tunnel lookup'')
                  (ser_lookup C (merge_lookup C t existing))))
        (\<lambda>user_data.
      map_err (storage_err ''Failed to store user tunnel lookup in Redis'') (r_set R now user_key user_data))))"

text \<open>The claim was refused: accept it only when the tunnel itself is the holder.\<close>

definition recheck_holder :: "'s redis \<Rightarrow> codec \<Rightarrow> instant \<Rightarrow> Tunnel \<Rightarrow> ('s, ApiError, unit) act" where
  "recheck_holder R C now t =
     bind_act (map_err (storage_err ''Failed to read subdomain holder'') (r_get R now (subdomain_key (t_subdomain t))))
       (\<lambda>holder.
     if holder \<noteq> Some (uuid_to_string C (t_id t)) then
       fail (BadRequest (''Subdomain '' @ [CHR 0x27] @ t_subdomain t @ [CHR 0x27]
               @ '' is already in use by an active tunnel''))
     else map_err (storage_err ''Failed to refresh subdomain TTL'')
            (r_expire R now (subdomain_key (t_subdomain t)) (sint (store_ttl now t))))"

definition claim_subdomain :: "'s redis \<Rightarrow> codec \<Rightarrow> instant \<Rightarrow> Tunnel \<Rightarrow> ('s, ApiError, unit) act" where
  "claim_subdomain R C now t =
     bind_act (map_err (storage_err ''Failed to claim subdomain'')
         (r_set_nx_ex R now (subdomain_key (t_subdomain t)) (uuid_to_string C (t_id t)) (store_ttl now t)))
       (\<lambda>claimed. if claimed = None then recheck_holder R C now t else ret ())"

definition store_tunnel :: "'s redis \<Rightarrow> codec \<Rightarrow> string \<Rightarrow> instant \<Rightarrow> Tunnel \<Rightarrow> ('s, ApiError, unit) act" where
  "store_tunnel R C edge_ip now t =
     seq_act (get_connection R)
    (bind_act (lift_res (map_err_res (storage_err ''Failed to serialize tunnel data'') (ser_tunnel C t)))
       (\<lambda>tunnel_data.
     let ttl = store_ttl now t in
     seq_act (map_err (storage_err ''Failed to store tunnel data in Redis'')
                (r_set_ex R now (tunnel_key (uuid_to_string C (t_id t))) tunnel_data ttl))
    (seq_act (store_lookup R C now t)
    (seq_act (claim_subdomain R C now t)
       (map_err (storage_err ''Failed to create DNS slot mapping'')
          (r_set_ex R now (slot_key (t_fqdn t)) edge_ip ttl))))))"

text \<open>The value of a session grant is a JSON object the edge never reads; it is an argument.\<close>

definition store_session_grant ::
  "'s redis \<Rightarrow> instant \<Rightarrow> string \<Rightarrow> string \<Rightarrow> string \<Rightarrow> u64 \<Rightarrow> ('s, ApiError, unit) act" where
  "store_session_grant R now subdomain token grant ttl_seconds =
     seq_act (get_connection R)
       (map_err (storage_err ''Failed to store session grant'')
          (r_set_ex R now (session_grant_key subdomain token) grant ttl_seconds))"

definition store_ssh_session ::
  "'s redis \<Rightarrow> codec \<Rightarrow> instant \<Rightarrow> string \<Rightarrow> string \<Rightarrow> string \<Rightarrow> string \<Rightarrow> instant \<Rightarrow> ('s, ApiError, unit) act" where
  "store_ssh_session R C now session_id github_user_id public_key fingerprint expires_at =
     seq_act (get_connection R)
    (bind_act (lift_res (map_err_res (storage_err ''Failed to serialize SSH session'')
        (ser_session C \<lparr> sd_github_user_id = github_user_id, sd_public_key = public_key,
           sd_fingerprint = fingerprint, sd_expires_at = expires_at, sd_session_id = session_id \<rparr>)))
       (\<lambda>v.
     let ttl = as_u64 (max (num_seconds (expires_at - now)) 1) + 60 in
     map_err (storage_err ''Failed to store SSH session'') (r_set_ex R now (session_key session_id) v ttl)))"

definition is_tunnel_live :: "'s redis \<Rightarrow> instant \<Rightarrow> string \<Rightarrow> ('s, ApiError, bool) act" where
  "is_tunnel_live R now tunnel_id =
     seq_act (get_connection R)
    (bind_act (map_err (storage_err ''Failed to read tunnel liveness'') (r_get R now (tunnel_live_key tunnel_id)))
       (\<lambda>v. ret (v \<noteq> None)))"

definition get_tunnel :: "'s redis \<Rightarrow> codec \<Rightarrow> instant \<Rightarrow> uuid \<Rightarrow> ('s, ApiError, Tunnel option) act" where
  "get_tunnel R C now tunnel_id =
     seq_act (get_connection R)
    (bind_act (map_err (storage_err ''Failed to get tunnel'') (r_get R now (tunnel_key (uuid_to_string C tunnel_id))))
       (\<lambda>tunnel_json.
     case tunnel_json of
       Some json \<Rightarrow>
         bind_act (lift_res (map_err_res (storage_err ''Failed to deserialize tunnel'') (de_tunnel C json)))
           (\<lambda>t. ret (Some t))
     | None \<Rightarrow> ret None))"

definition get_tunnel_by_subdomain ::
  "'s redis \<Rightarrow> codec \<Rightarrow> instant \<Rightarrow> string \<Rightarrow> ('s, ApiError, Tunnel option) act" where
  "get_tunnel_by_subdomain R C now subdomain =
     seq_act (get_connection R)
    (bind_act (map_err (storage_err ''Failed to get subdomain mapping'') (r_get R now (subdomain_key subdomain)))
       (\<lambda>tunnel_id.
     case tunnel_id of
       Some i \<Rightarrow>
         (case parse_uuid C i of
            Inl e \<Rightarrow> fail (storage_err ''Failed to parse tunnel ID'' e)
          | Inr u \<Rightarrow> get_tunnel R C now u)
     | None \<Rightarrow> ret None))"

text \<open>The loop of \<open>list_user_tunnels\<close>: an id that cannot be parsed, read or found is skipped.\<close>

fun collect_tunnels :: "'s redis \<Rightarrow> codec \<Rightarrow> instant \<Rightarrow> string list \<Rightarrow> 's \<Rightarrow> Tunnel list \<times> 's" where
  "collect_tunnels R C now [] s = ([], s)"
| "collect_tunnels R C now (i # is) s =
     (case parse_uuid C i of
        Inl e \<Rightarrow> collect_tunnels R C now is s
      | Inr u \<Rightarrow>
          (case get_tunnel R C now u s of
             (Inr (Some t), s') \<Rightarrow> (case collect_tunnels R C now is s' of (ts, s'') \<Rightarrow> (t # ts, s''))
           | (_, s') \<Rightarrow> collect_tunnels R C now is s'))"

definition list_user_tunnels ::
  "'s redis \<Rightarrow> codec \<Rightarrow> instant \<Rightarrow> string \<Rightarrow> ('s, ApiError, Tunnel list) act" where
  "list_user_tunnels R C now github_user_id =
     seq_act (get_connection R)
    (bind_act (map_err (storage_err ''Failed to get user tunnel lookup'') (r_get R now (lookup_key github_user_id)))
       (\<lambda>user_data.
     case user_data of
       None \<Rightarrow> ret []
     | Some data \<Rightarrow>
         bind_act (lift_res (map_err_res (storage_err ''Failed to deserialize user tunnel lookup'') (de_lookup C data)))
           (\<lambda>lookup s. case collect_tunnels R C now (lk_tunnels lookup) s of (ts, s') \<Rightarrow> (Inr ts, s'))))"

definition update_tunnel_status ::
  "'s redis \<Rightarrow> codec \<Rightarrow> string \<Rightarrow> instant \<Rightarrow> uuid \<Rightarrow> TunnelStatus \<Rightarrow> ('s, ApiError, unit) act" where
  "update_tunnel_status R C edge_ip now tunnel_id status =
     bind_act (get_tunnel R C now tunnel_id) (\<lambda>found.
       case found of
         Some t \<Rightarrow> store_tunnel R C edge_ip now (t \<lparr> t_status := status \<rparr>)
       | None \<Rightarrow> ret ())"

definition remove_from_lookup :: "'s redis \<Rightarrow> codec \<Rightarrow> instant \<Rightarrow> uuid \<Rightarrow> string \<Rightarrow> ('s, ApiError, unit) act" where
  "remove_from_lookup R C now tunnel_id user_key =
     bind_act (map_err (storage_err ''Failed to read user tunnel lookup'') (r_get R now user_key))
       (\<lambda>existing.
     case existing of
       None \<Rightarrow> ret ()
     | Some data \<Rightarrow>
         (case de_lookup C data of
            Inl e \<Rightarrow> ret ()
          | Inr lookup \<Rightarrow>
              bind_act (lift_res (map_err_res (storage_err ''Failed to serialize user tunnel lookup'')
                 (ser_lookup C (lookup \<lparr> lk_tunnels :=
                    filter (\<lambda>i. i \<noteq> uuid_to_string C tunnel_id) (lk_tunnels lookup) \<rparr>))))
                (\<lambda>updated.
              map_err (storage_err ''Failed to remove from user tunnels'') (r_set R now user_key updated))))"

definition delete_tunnel :: "'s redis \<Rightarrow> codec \<Rightarrow> instant \<Rightarrow> uuid \<Rightarrow> ('s, ApiError, bool) act" where
  "delete_tunnel R C now tunnel_id =
     bind_act (get_tunnel R C now tunnel_id) (\<lambda>found.
       case found of
         None \<Rightarrow> ret False
       | Some t \<Rightarrow>
           seq_act (get_connection R)
          (seq_act (map_err (storage_err ''Failed to delete tunnel'')
              (r_del R now (tunnel_key (uuid_to_string C tunnel_id))))
          (seq_act (map_err (storage_err ''Failed to delete subdomain mapping'')
              (r_del R now (subdomain_key (t_subdomain t))))
          (seq_act (map_err (storage_err ''Failed to delete DNS slot mapping'')
              (r_del R now (slot_key (t_fqdn t))))
          (seq_act (remove_from_lookup R C now tunnel_id (lookup_key (t_github_user_id t)))
             (ret True))))))"

text \<open>One key of the sweep: it counts when the read, the parse, the expiry check and the delete all succeed.\<close>

definition cleanup_key :: "'s redis \<Rightarrow> codec \<Rightarrow> instant \<Rightarrow> string \<Rightarrow> 's \<Rightarrow> bool \<times> 's" where
  "cleanup_key R C now key s =
     (case r_get R now key s of
        (Inr (Some json), s1) \<Rightarrow>
          (case de_tunnel C json of
             Inl e \<Rightarrow> (False, s1)
           | Inr t \<Rightarrow>
               if is_expired now t then
                 (case r_del R now key s1 of (r, s2) \<Rightarrow> (is_ok r, s2))
               else (False, s1))
      | (_, s1) \<Rightarrow> (False, s1))"

fun cleanup_keys :: "'s redis \<Rightarrow> codec \<Rightarrow> instant \<Rightarrow> string list \<Rightarrow> u32 \<Rightarrow> 's \<Rightarrow> u32 \<times> 's" where
  "cleanup_keys R C now [] n s = (n, s)"
| "cleanup_keys R C now (k # ks) n s =
     (case cleanup_key R C now k s of (b, s') \<Rightarrow> cleanup_keys R C now ks (if b then n + 1 else n) s')"

definition cleanup_expired_tunnels :: "'s redis \<Rightarrow> codec \<Rightarrow> instant \<Rightarrow> ('s, ApiError, u32) act" where
  "cleanup_expired_tunnels R C now =
     seq_act (get_connection R)
    (bind_act (map_err (storage_err ''Failed to get tunnel keys'') (r_keys R now (''tunnel:'' @ ''*'')))
       (\<lambda>ks s. case cleanup_keys R C now ks 0 s of (n, s') \<Rightarrow> (Inr n, s')))"

definition get_active_tunnel_count :: "'s redis \<Rightarrow> instant \<Rightarrow> ('s, ApiError, u64) act" where
  "get_active_tunnel_count R now =
     seq_act (get_connection R)
    (bind_act (map_err (storage_err ''Failed to get tunnel keys'') (r_keys R now (''tunnel:'' @ ''*'')))
       (\<lambda>ks. ret (of_nat (length ks))))"

definition is_subdomain_available :: "'s redis \<Rightarrow> codec \<Rightarrow> instant \<Rightarrow> string \<Rightarrow> ('s, ApiError, bool) act" where
  "is_subdomain_available R C now subdomain =
     bind_act (get_tunnel_by_subdomain R C now subdomain) (\<lambda>t. ret (t = None))"

section \<open>Ports\<close>

definition PORT_RANGE_START :: u16 where "PORT_RANGE_START = 10000"
definition PORT_RANGE_END :: u16 where "PORT_RANGE_END = 65535"
definition MAX_ATTEMPTS :: nat where "MAX_ATTEMPTS = 1000"

definition next_port :: "u16 \<Rightarrow> u16" where
  "next_port port = (if port = PORT_RANGE_END then PORT_RANGE_START else port + 1)"

text \<open>The claim loop with the attempts that are left.\<close>

fun claim_from :: "'s redis \<Rightarrow> instant \<Rightarrow> string \<Rightarrow> u64 \<Rightarrow> nat \<Rightarrow> u16 \<Rightarrow> ('s, ApiError, u16) act" where
  "claim_from R now tunnel_id certificate_ttl 0 port =
     fail (StorageError ''No available ports found after 1000 attempts'')"
| "claim_from R now tunnel_id certificate_ttl (Suc n) port =
     bind_act (map_err (storage_err ''Failed to reserve port'')
         (r_set_nx_ex R now (port_key port) tunnel_id certificate_ttl))
       (\<lambda>claimed. if claimed \<noteq> None then ret port
                  else claim_from R now tunnel_id certificate_ttl n (next_port port))"

definition allocate_port :: "'s redis \<Rightarrow> instant \<Rightarrow> u16 \<Rightarrow> string \<Rightarrow> u64 \<Rightarrow> ('s, ApiError, u16) act" where
  "allocate_port R now start_port tunnel_id certificate_ttl =
     seq_act (get_connection R) (claim_from R now tunnel_id certificate_ttl MAX_ATTEMPTS start_port)"

definition release_port :: "'s redis \<Rightarrow> instant \<Rightarrow> u16 \<Rightarrow> ('s, ApiError, unit) act" where
  "release_port R now port =
     seq_act (get_connection R) (map_err (storage_err ''Failed to release port'') (r_del R now (port_key port)))"

section \<open>What the operations change\<close>

definition store_until :: "instant \<Rightarrow> Tunnel \<Rightarrow> instant" where
  "store_until now t = after_secs now (unat (store_ttl now t))"

text \<open>A result that is not a storage error went past every step that can only fail with one.\<close>

definition not_storage :: "ApiError + 'a \<Rightarrow> bool" where
  "not_storage r \<longleftrightarrow> (\<forall>m. r \<noteq> Inl (StorageError m))"

lemma not_storage_simps [simp]: "not_storage (Inr a)" "not_storage (Inl (BadRequest m))"
  by (simp_all add: not_storage_def)

lemma storage_err_not [simp]:
  "\<not> not_storage (Inl (storage_err msg e))" "storage_err msg e \<noteq> BadRequest m" "BadRequest m \<noteq> storage_err msg e"
  "\<exists>m. storage_err msg e = StorageError m"
  by (simp_all add: not_storage_def storage_err_def)

lemma past_bind:
  assumes "bind_act (map_err (storage_err msg) m) f s = (r, s')" and "not_storage r"
  obtains a s1 where "m s = (Inr a, s1)" and "f a s1 = (r, s')"
  using assms by (auto simp: bind_act_def map_err_def split: prod.splits sum.splits)

lemma past_seq:
  assumes "seq_act (map_err (storage_err msg) m) k s = (r, s')" and "not_storage r"
  obtains a s1 where "m s = (Inr a, s1)" and "k s1 = (r, s')"
  using assms unfolding seq_act_def by (rule past_bind)

lemma past_lift:
  assumes "bind_act (lift_res (map_err_res (storage_err msg) x)) f s = (r, s')" and "not_storage r"
  obtains a where "x = Inr a" and "f a s = (r, s')"
  using assms by (cases x) (auto simp: bind_act_def)

lemma past_connection:
  assumes "seq_act (get_connection R) k s = (r, s')" and "not_storage r"
  obtains u s1 where "get_connection R s = (Inr u, s1)" and "k s1 = (r, s')"
  using assms unfolding get_connection_def by (auto elim!: past_seq)

lemma store_lookup_error:
  assumes "store_lookup R C now t s = (r, s')" and ns: "not_storage r"
  obtains u where "r = Inr u"
  using assms(1) unfolding store_lookup_def Let_def
  by (rule past_bind [OF _ ns], elim past_lift [OF _ ns]) (use ns that in \<open>cases r; auto simp: map_err_err\<close>)

locale storage_env = redis_server R view + codec_laws C
  for R :: "'s redis" and view :: "'s \<Rightarrow> view" and C :: codec
begin

lemma get_connection_view: "get_connection R s = (r, s') \<Longrightarrow> view s' = view s"
  by (auto simp: get_connection_def map_err_def dest: conn_law split: prod.splits sum.splits)

lemma store_lookup_ok:
  assumes "store_lookup R C now t s = (Inr u, s')"
  obtains d where "ser_lookup C (merge_lookup C t (view s now (lookup_key (t_github_user_id t)))) = Inr d"
    and "\<And>t'. now \<le> t' \<Longrightarrow> view s' t' = (view s t')(lookup_key (t_github_user_id t) := Some d)"
proof -
  let ?k = "lookup_key (t_github_user_id t)"
  obtain e s1 d where g: "r_get R now ?k s = (Inr e, s1)"
    and d: "ser_lookup C (merge_lookup C t e) = Inr d" and st: "r_set R now ?k d s1 = (Inr u, s')"
    using assms by (auto simp: store_lookup_def Let_def act_ok)
  show thesis
  proof (rule that)
    show "ser_lookup C (merge_lookup C t (view s now ?k)) = Inr d" using d get_ok [OF g] by simp
    show "view s' t' = (view s t')(?k := Some d)" if "now \<le> t'" for t'
      using set_law [OF st that] get_same [OF g] that by (simp add: same_from_def)
  qed
qed

lemma recheck_holder_ok:
  assumes "recheck_holder R C now t s = (Inr u, s')" and "store_ttl now t \<le> max_expire"
  shows "view s now (subdomain_key (t_subdomain t)) = Some (uuid_to_string C (t_id t))"
    and "now \<le> t' \<Longrightarrow> view s' t' = (view s t')(subdomain_key (t_subdomain t) :=
           live_until (store_until now t) (uuid_to_string C (t_id t)) t')"
proof -
  let ?k = "subdomain_key (t_subdomain t)" and ?i = "uuid_to_string C (t_id t)" and ?ttl = "store_ttl now t"
  obtain s1 where g: "r_get R now ?k s = (Inr (Some ?i), s1)"
    and ex: "r_expire R now ?k (sint ?ttl) s1 = (Inr u, s')"
    using assms(1) by (auto simp: recheck_holder_def act_ok split: if_splits)
  show held: "view s now ?k = Some ?i" using get_ok [OF g] by simp
  show "view s' t' = (view s t')(?k := live_until (store_until now t) ?i t')" if "now \<le> t'"
    using expire_law [OF ex that] get_same [OF g] held that nat_sint_small(1) [OF assms(2)] by (simp add: same_from_def store_until_def)
qed

lemma recheck_holder_conflict:
  assumes "recheck_holder R C now t s = (Inl (BadRequest m), s')"
  shows "view s now (subdomain_key (t_subdomain t)) \<noteq> Some (uuid_to_string C (t_id t))"
    and "same_from now (view s) (view s')"
proof -
  obtain h where g: "r_get R now (subdomain_key (t_subdomain t)) s = (Inr h, s')"
    and h: "h \<noteq> Some (uuid_to_string C (t_id t))"
    using assms by (auto simp: recheck_holder_def act_err split: if_splits)
  from get_ok [OF g] h show "view s now (subdomain_key (t_subdomain t)) \<noteq> Some (uuid_to_string C (t_id t))" by simp
  show "same_from now (view s) (view s')" by (rule get_same [OF g])
qed

lemma claim_subdomain_ok:
  assumes "claim_subdomain R C now t s = (Inr u, s')" and ttl: "store_ttl now t \<le> max_expire"
  shows "view s now (subdomain_key (t_subdomain t)) \<in> {None, Some (uuid_to_string C (t_id t))}"
    and "now \<le> t' \<Longrightarrow> view s' t' = (view s t')(subdomain_key (t_subdomain t) :=
           live_until (store_until now t) (uuid_to_string C (t_id t)) t')"
proof -
  obtain c s1 where nx: "r_set_nx_ex R now (subdomain_key (t_subdomain t)) (uuid_to_string C (t_id t))
      (store_ttl now t) s = (Inr c, s1)"
    and rest: "(if c = None then recheck_holder R C now t else ret ()) s1 = (Inr u, s')"
    using assms(1) unfolding claim_subdomain_def act_ok by blast
  have "view s now (subdomain_key (t_subdomain t)) \<in> {None, Some (uuid_to_string C (t_id t))} \<and>
    (now \<le> t' \<longrightarrow> view s' t' = (view s t')(subdomain_key (t_subdomain t) :=
           live_until (store_until now t) (uuid_to_string C (t_id t)) t'))"
    using nx
  proof (cases rule: set_nx_cases)
    case free
    with rest show ?thesis by (simp add: store_until_def)
  next
    case (taken w)
    then have "recheck_holder R C now t s1 = (Inr u, s')" using rest by simp
    from recheck_holder_ok [OF this ttl] taken show ?thesis by (simp add: same_from_def)
  qed
  then show "view s now (subdomain_key (t_subdomain t)) \<in> {None, Some (uuid_to_string C (t_id t))}"
    and "now \<le> t' \<Longrightarrow> view s' t' = (view s t')(subdomain_key (t_subdomain t) :=
           live_until (store_until now t) (uuid_to_string C (t_id t)) t')"
    by blast+
qed

lemma claim_subdomain_conflict:
  assumes "claim_subdomain R C now t s = (Inl (BadRequest m), s')"
  shows "same_from now (view s) (view s')"
    and "\<exists>h. view s now (subdomain_key (t_subdomain t)) = Some h \<and> h \<noteq> uuid_to_string C (t_id t)"
proof -
  obtain c s1 where nx: "r_set_nx_ex R now (subdomain_key (t_subdomain t)) (uuid_to_string C (t_id t))
      (store_ttl now t) s = (Inr c, s1)"
    and "c = None" and re: "recheck_holder R C now t s1 = (Inl (BadRequest m), s')"
    using assms by (auto simp: claim_subdomain_def act_err split: if_splits)
  have "same_from now (view s) (view s') \<and>
      (\<exists>h. view s now (subdomain_key (t_subdomain t)) = Some h \<and> h \<noteq> uuid_to_string C (t_id t))"
    using nx
  proof (cases rule: set_nx_cases)
    case free
    with \<open>c = None\<close> show ?thesis by simp
  next
    case (taken w)
    with recheck_holder_conflict [OF re] show ?thesis
      by (auto simp: same_from_now intro: same_from_trans)
  qed
  then show "same_from now (view s) (view s')"
    and "\<exists>h. view s now (subdomain_key (t_subdomain t)) = Some h \<and> h \<noteq> uuid_to_string C (t_id t)"
    by blast+
qed

lemma claim_subdomain_taken:
  assumes held: "view s now (subdomain_key (t_subdomain t)) = Some h" and "h \<noteq> uuid_to_string C (t_id t)"
  shows "claim_subdomain R C now t s \<noteq> (Inr u, s')"
proof
  assume "claim_subdomain R C now t s = (Inr u, s')"
  then obtain c s1 where nx: "r_set_nx_ex R now (subdomain_key (t_subdomain t)) (uuid_to_string C (t_id t))
      (store_ttl now t) s = (Inr c, s1)"
    and rest: "(if c = None then recheck_holder R C now t else ret ()) s1 = (Inr u, s')"
    unfolding claim_subdomain_def act_ok by blast
  from set_nx_taken [OF nx] held have "c = None" and same: "same_from now (view s) (view s1)" by simp_all
  with rest obtain s2 where "r_get R now (subdomain_key (t_subdomain t)) s1 = (Inr (Some (uuid_to_string C (t_id t))), s2)"
    by (auto simp: recheck_holder_def act_ok split: if_splits)
  from get_ok [OF this] same held assms(2) show False by (simp add: same_from_now)
qed

lemma store_tunnel_steps:
  assumes "store_tunnel R C edge_ip now t s = (r, s')" and ns: "not_storage r"
  obtains j d s2 where "ser_tunnel C t = Inr j"
    and "ser_lookup C (merge_lookup C t (view s now (lookup_key (t_github_user_id t)))) = Inr d"
    and "0 < store_ttl now t" and "store_ttl now t \<le> max_expire"
    and "\<And>t'. now \<le> t' \<Longrightarrow> view s2 t' = (view s t')
           (tunnel_key (uuid_to_string C (t_id t)) := live_until (store_until now t) j t',
            lookup_key (t_github_user_id t) := Some d)"
    and "seq_act (claim_subdomain R C now t) (map_err (storage_err ''Failed to create DNS slot mapping'')
          (r_set_ex R now (slot_key (t_fqdn t)) edge_ip (store_ttl now t))) s2 = (r, s')"
proof -
  let ?rest = "seq_act (claim_subdomain R C now t) (map_err (storage_err ''Failed to create DNS slot mapping'')
          (r_set_ex R now (slot_key (t_fqdn t)) edge_ip (store_ttl now t)))"
  obtain w s0 where con: "get_connection R s = (Inr w, s0)"
    and 1: "bind_act (lift_res (map_err_res (storage_err ''Failed to serialize tunnel data'') (ser_tunnel C t)))
       (\<lambda>tunnel_data. seq_act (map_err (storage_err ''Failed to store tunnel data in Redis'')
          (r_set_ex R now (tunnel_key (uuid_to_string C (t_id t))) tunnel_data (store_ttl now t)))
         (seq_act (store_lookup R C now t) ?rest)) s0 = (r, s')"
    using past_connection [OF assms(1) [unfolded store_tunnel_def Let_def] ns] by blast
  obtain j where j: "ser_tunnel C t = Inr j"
    and 2: "seq_act (map_err (storage_err ''Failed to store tunnel data in Redis'')
          (r_set_ex R now (tunnel_key (uuid_to_string C (t_id t))) j (store_ttl now t)))
         (seq_act (store_lookup R C now t) ?rest) s0 = (r, s')"
    using past_lift [OF 1 ns] by blast
  obtain u s1 where set: "r_set_ex R now (tunnel_key (uuid_to_string C (t_id t))) j (store_ttl now t) s0 = (Inr u, s1)"
    and 3: "seq_act (store_lookup R C now t) ?rest s1 = (r, s')"
    using past_seq [OF 2 ns] by blast
  obtain v s2 where lk: "store_lookup R C now t s1 = (Inr v, s2)" and rest: "?rest s2 = (r, s')"
    using 3 ns unfolding seq_act_def
    by (auto simp: bind_act_def split: prod.splits sum.splits dest!: store_lookup_error [where r = "Inl _"])
  have s0: "view s0 = view s" by (rule get_connection_view [OF con])
  obtain d where d: "ser_lookup C (merge_lookup C t (view s1 now (lookup_key (t_github_user_id t)))) = Inr d"
    and v2: "\<And>t'. now \<le> t' \<Longrightarrow> view s2 t' = (view s1 t')(lookup_key (t_github_user_id t) := Some d)"
    using store_lookup_ok [OF lk] by blast
  note v1 = set_ex_law [OF set, unfolded s0]
  show thesis
  proof (rule that [OF j _ _ _ _ rest, of d])
    show "ser_lookup C (merge_lookup C t (view s now (lookup_key (t_github_user_id t)))) = Inr d"
      using d v1 [of now] by simp
  qed (use set_ex_range [OF set] in \<open>simp_all only: v1 v2 store_until_def\<close>)
qed

lemma store_tunnel_ok:
  assumes "store_tunnel R C edge_ip now t s = (Inr u, s')"
  obtains j d where "ser_tunnel C t = Inr j"
    and "ser_lookup C (merge_lookup C t (view s now (lookup_key (t_github_user_id t)))) = Inr d"
    and "0 < store_ttl now t" and "store_ttl now t \<le> max_expire"
    and "view s now (subdomain_key (t_subdomain t)) \<in> {None, Some (uuid_to_string C (t_id t))}"
    and "\<And>t'. now \<le> t' \<Longrightarrow> view s' t' = (view s t')
           (tunnel_key (uuid_to_string C (t_id t)) := live_until (store_until now t) j t',
            lookup_key (t_github_user_id t) := Some d,
            subdomain_key (t_subdomain t) :=
              live_until (store_until now t) (uuid_to_string C (t_id t)) t',
            slot_key (t_fqdn t) := live_until (store_until now t) edge_ip t')"
proof -
  obtain j d s2 where j: "ser_tunnel C t = Inr j"
    and d: "ser_lookup C (merge_lookup C t (view s now (lookup_key (t_github_user_id t)))) = Inr d"
    and ttl: "0 < store_ttl now t" "store_ttl now t \<le> max_expire"
    and v2: "\<And>t'. now \<le> t' \<Longrightarrow> view s2 t' = (view s t')
           (tunnel_key (uuid_to_string C (t_id t)) := live_until (store_until now t) j t',
            lookup_key (t_github_user_id t) := Some d)"
    and rest: "seq_act (claim_subdomain R C now t) (map_err (storage_err ''Failed to create DNS slot mapping'')
          (r_set_ex R now (slot_key (t_fqdn t)) edge_ip (store_ttl now t))) s2 = (Inr u, s')"
    using store_tunnel_steps [OF assms not_storage_simps(1)] by blast
  obtain v s3 where cl: "claim_subdomain R C now t s2 = (Inr v, s3)"
    and set: "r_set_ex R now (slot_key (t_fqdn t)) edge_ip (store_ttl now t) s3 = (Inr u, s')"
    using rest unfolding act_ok by blast
  note c = claim_subdomain_ok [OF cl ttl(2)]
  show thesis
  proof (rule that [OF j d ttl])
    show "view s now (subdomain_key (t_subdomain t)) \<in> {None, Some (uuid_to_string C (t_id t))}"
      using c(1) v2 [of now] by simp
  qed (simp only: set_ex_law [OF set] c(2) v2 store_until_def)
qed

lemma store_tunnel_conflict:
  assumes "store_tunnel R C edge_ip now t s = (Inl (BadRequest m), s')"
  obtains j d h where "ser_tunnel C t = Inr j"
    and "view s now (subdomain_key (t_subdomain t)) = Some h" and "h \<noteq> uuid_to_string C (t_id t)"
    and "\<And>t'. now \<le> t' \<Longrightarrow> view s' t' = (view s t')
           (tunnel_key (uuid_to_string C (t_id t)) := live_until (store_until now t) j t',
            lookup_key (t_github_user_id t) := Some d)"
    and "ser_lookup C (merge_lookup C t (view s now (lookup_key (t_github_user_id t)))) = Inr d"
proof -
  obtain j d s2 where j: "ser_tunnel C t = Inr j"
    and d: "ser_lookup C (merge_lookup C t (view s now (lookup_key (t_github_user_id t)))) = Inr d"
    and ttl: "0 < store_ttl now t" "store_ttl now t \<le> max_expire"
    and v2: "\<And>t'. now \<le> t' \<Longrightarrow> view s2 t' = (view s t')
           (tunnel_key (uuid_to_string C (t_id t)) := live_until (store_until now t) j t',
            lookup_key (t_github_user_id t) := Some d)"
    and rest: "seq_act (claim_subdomain R C now t) (map_err (storage_err ''Failed to create DNS slot mapping'')
          (r_set_ex R now (slot_key (t_fqdn t)) edge_ip (store_ttl now t))) s2 = (Inl (BadRequest m), s')"
    using store_tunnel_steps [OF assms not_storage_simps(2)] by blast
  then have cl: "claim_subdomain R C now t s2 = (Inl (BadRequest m), s')"
    by (auto simp: act_err)
  note c = claim_subdomain_conflict [OF cl]
  obtain h where h: "view s2 now (subdomain_key (t_subdomain t)) = Some h" "h \<noteq> uuid_to_string C (t_id t)"
    using c(2) by blast
  show thesis
  proof (rule that [OF j _ h(2) _ d])
    show "view s now (subdomain_key (t_subdomain t)) = Some h" using h(1) v2 [of now] by simp
  qed (use c(1) v2 in \<open>simp only: same_from_def\<close>)
qed

lemma get_tunnel_ok:
  assumes "get_tunnel R C now i s = (Inr x, s')"
  shows "same_from now (view s) (view s')"
    and "x = None \<longleftrightarrow> view s now (tunnel_key (uuid_to_string C i)) = None"
    and "view s now (tunnel_key (uuid_to_string C i)) = Some j \<Longrightarrow> \<exists>t. de_tunnel C j = Inr t \<and> x = Some t"
proof -
  obtain u s1 v where con: "get_connection R s = (Inr u, s1)"
    and g: "r_get R now (tunnel_key (uuid_to_string C i)) s1 = (Inr v, s')"
    and x: "case v of None \<Rightarrow> x = None | Some j \<Rightarrow> \<exists>t. de_tunnel C j = Inr t \<and> x = Some t"
    using assms by (auto simp: get_tunnel_def act_ok split: option.splits)
  have "view s1 = view s" by (rule get_connection_view [OF con])
  with get_ok [OF g] get_same [OF g] x
  show "same_from now (view s) (view s')"
    and "x = None \<longleftrightarrow> view s now (tunnel_key (uuid_to_string C i)) = None"
    and "view s now (tunnel_key (uuid_to_string C i)) = Some j \<Longrightarrow> \<exists>t. de_tunnel C j = Inr t \<and> x = Some t"
    by (auto split: option.splits)
qed

lemma get_tunnel_by_subdomain_ok:
  assumes "get_tunnel_by_subdomain R C now sub s = (Inr x, s')"
  shows "same_from now (view s) (view s')"
    and "view s now (subdomain_key sub) = None \<Longrightarrow> x = None"
    and "view s now (subdomain_key sub) = Some (uuid_to_string C i) \<Longrightarrow>
         \<exists>s1. same_from now (view s) (view s1) \<and> get_tunnel R C now i s1 = (Inr x, s')"
proof -
  obtain u s1 v s2 where con: "get_connection R s = (Inr u, s1)"
    and g: "r_get R now (subdomain_key sub) s1 = (Inr v, s2)"
    and rest: "(case v of Some i \<Rightarrow> (case parse_uuid C i of Inl e \<Rightarrow> fail (storage_err ''Failed to parse tunnel ID'' e)
          | Inr u \<Rightarrow> get_tunnel R C now u) | None \<Rightarrow> ret None) s2 = (Inr x, s')"
    using assms unfolding get_tunnel_by_subdomain_def act_ok by blast
  have x: "case v of None \<Rightarrow> x = None \<and> s' = s2 | Some j \<Rightarrow> \<exists>w. parse_uuid C j = Inr w \<and> get_tunnel R C now w s2 = (Inr x, s')"
    using rest by (auto split: option.splits sum.splits)
  have v: "v = view s now (subdomain_key sub)" and s2: "same_from now (view s) (view s2)"
    using get_ok [OF g] get_same [OF g] get_connection_view [OF con] by simp_all
  show "same_from now (view s) (view s')"
    using x s2 by (auto split: option.splits dest!: get_tunnel_ok(1) intro: same_from_trans)
  show "view s now (subdomain_key sub) = None \<Longrightarrow> x = None" using x v by simp
  show "\<exists>s1. same_from now (view s) (view s1) \<and> get_tunnel R C now i s1 = (Inr x, s')"
    if "view s now (subdomain_key sub) = Some (uuid_to_string C i)"
    using x v s2 that uuid_round by auto
qed

lemma remove_from_lookup_ok:
  assumes "remove_from_lookup R C now i k s = (Inr u, s')" and "now \<le> t'"
  shows "k' \<noteq> k \<Longrightarrow> view s' t' k' = view s t' k'"
    and "\<lbrakk>view s now k = Some data; de_lookup C data = Inr l\<rbrakk> \<Longrightarrow>
         \<exists>d. view s' t' k = Some d \<and> de_lookup C d =
             Inr (l\<lparr>lk_tunnels := filter (\<lambda>j. j \<noteq> uuid_to_string C i) (lk_tunnels l)\<rparr>)"
proof -
  obtain e s1 where g: "r_get R now k s = (Inr e, s1)"
    and rest: "(case e of None \<Rightarrow> ret () | Some data \<Rightarrow> (case de_lookup C data of Inl e \<Rightarrow> ret () | Inr lookup \<Rightarrow>
       bind_act (lift_res (map_err_res (storage_err ''Failed to serialize user tunnel lookup'')
                 (ser_lookup C (lookup \<lparr> lk_tunnels :=
                    filter (\<lambda>i'. i' \<noteq> uuid_to_string C i) (lk_tunnels lookup) \<rparr>))))
                (\<lambda>updated.
              map_err (storage_err ''Failed to remove from user tunnels'') (r_set R now k updated)))) s1 = (Inr u, s')"
    using assms(1) unfolding remove_from_lookup_def act_ok by blast
  have e: "e = view s now k" and same: "view s1 t' = view s t'"
    using get_ok [OF g] get_same [OF g] assms(2) by (simp_all add: same_from_def)
  show "k' \<noteq> k \<Longrightarrow> view s' t' k' = view s t' k'"
    using rest same assms(2) by (auto simp: act_ok set_law split: option.splits sum.splits)
  show "\<exists>d. view s' t' k = Some d \<and> de_lookup C d =
             Inr (l\<lparr>lk_tunnels := filter (\<lambda>j. j \<noteq> uuid_to_string C i) (lk_tunnels l)\<rparr>)"
    if "view s now k = Some data" "de_lookup C data = Inr l"
    using rest e that assms(2) by (auto simp: act_ok set_law lookup_round)
qed

lemma delete_tunnel_ok:
  assumes "delete_tunnel R C now i s = (Inr True, s')"
  obtains j t where "view s now (tunnel_key (uuid_to_string C i)) = Some j" and "de_tunnel C j = Inr t"
    and "\<And>t'. now \<le> t' \<Longrightarrow> view s' t' (tunnel_key (uuid_to_string C i)) = None"
    and "\<And>t'. now \<le> t' \<Longrightarrow> view s' t' (subdomain_key (t_subdomain t)) = None"
    and "\<And>t'. now \<le> t' \<Longrightarrow> view s' t' (slot_key (t_fqdn t)) = None"
    and "\<And>t' data l. \<lbrakk>now \<le> t'; view s now (lookup_key (t_github_user_id t)) = Some data; de_lookup C data = Inr l\<rbrakk> \<Longrightarrow>
         \<exists>d. view s' t' (lookup_key (t_github_user_id t)) = Some d \<and> de_lookup C d =
             Inr (l\<lparr>lk_tunnels := filter (\<lambda>j. j \<noteq> uuid_to_string C i) (lk_tunnels l)\<rparr>)"
    and "\<And>t' k. \<lbrakk>now \<le> t'; k \<notin> {tunnel_key (uuid_to_string C i), subdomain_key (t_subdomain t),
                 slot_key (t_fqdn t), lookup_key (t_github_user_id t)}\<rbrakk> \<Longrightarrow> view s' t' k = view s t' k"
proof -
  obtain t s1 u s2 v s3 w s4 x s5 y where gt: "get_tunnel R C now i s = (Inr (Some t), s1)"
    and con: "get_connection R s1 = (Inr u, s2)"
    and d1: "r_del R now (tunnel_key (uuid_to_string C i)) s2 = (Inr v, s3)"
    and d2: "r_del R now (subdomain_key (t_subdomain t)) s3 = (Inr w, s4)"
    and d3: "r_del R now (slot_key (t_fqdn t)) s4 = (Inr x, s5)"
    and rm: "remove_from_lookup R C now i (lookup_key (t_github_user_id t)) s5 = (Inr y, s')"
    using assms by (auto simp: delete_tunnel_def act_ok split: option.splits)
  have v5: "view s5 t' = (view s t')(tunnel_key (uuid_to_string C i) := None,
      subdomain_key (t_subdomain t) := None, slot_key (t_fqdn t) := None)" if "now \<le> t'" for t'
    using del_law [OF d1 that] del_law [OF d2 that] del_law [OF d3 that] get_connection_view [OF con]
      get_tunnel_ok(1) [OF gt] that by (simp add: same_from_def)
  obtain j where j: "view s now (tunnel_key (uuid_to_string C i)) = Some j" "de_tunnel C j = Inr t"
    using get_tunnel_ok(2,3) [OF gt] by (cases "view s now (tunnel_key (uuid_to_string C i))") auto
  note rl = remove_from_lookup_ok [OF rm]
  show thesis
    by (rule that [OF j]) (use rl(1) rl(2) v5 in \<open>simp_all\<close>)
qed

end

interpretation mem_env: storage_env mem_redis mem_view "tab_codec ts ls ss" for ts ls ss
  by (rule storage_env.intro) (rule mem.redis_server_axioms tab.codec_laws_axioms)+

section \<open>Lifetimes\<close>

definition failed :: "ApiError + 'a \<Rightarrow> bool" where
  "failed r \<longleftrightarrow> (\<exists>m. r = Inl (StorageError m))"

lemma failed_simps [simp]:
  "\<not> failed (Inr a)" "failed (Inl (storage_err m e))" "failed (Inl (StorageError m))" "\<not> failed (Inl (BadRequest m))"
  by (simp_all add: failed_def)

lemma uint_as_u64: "uint (as_u64 i) = i mod 2 ^ 64"
  by (simp add: as_u64_def uint_word_of_int)

lemma store_until_le_expiry:
  assumes "0 < store_ttl now t" and "store_ttl now t \<le> max_expire"
    and i64: "- (2 ^ 63) \<le> num_seconds (t_expires_at t - now)" "num_seconds (t_expires_at t - now) < 2 ^ 63"
  shows "now < store_until now t \<and> store_until now t \<le> t_expires_at t"
proof -
  let ?d = "t_expires_at t - now" let ?n = "num_seconds ?d"
  have u: "uint (store_ttl now t) = ?n mod 2 ^ 64" by (simp only: store_ttl_def uint_as_u64)
  have pos: "0 < uint (store_ttl now t)" using assms(1) by (simp add: word_less_def)
  have small: "uint (store_ttl now t) \<le> 9223372036854775" by (rule nat_sint_small(2) [OF assms(2)])
  have "0 \<le> ?n"
  proof (rule ccontr)
    assume "\<not> 0 \<le> ?n"
    then have "?n mod 2 ^ 64 = ?n + 2 ^ 64"
      using i64(1) by (intro mod_pos_pos_trivial [of "?n + 2 ^ 64" "2 ^ 64", simplified mod_add_self2]) simp_all
    then show False using u small i64(1) by simp
  qed
  then have n: "uint (store_ttl now t) = ?n" using u i64(2) by simp
  with pos have "0 \<le> ?d" by (auto simp: num_seconds_def split: if_splits)
  then have "?n * 1000000000 \<le> ?d" by (simp add: num_seconds_nonneg)
  moreover have "int (unat (store_ttl now t)) = ?n" using n by simp
  ultimately show ?thesis using n pos unfolding store_until_def after_secs_def by linarith
qed

lemma get_tunnel_cases: "failed (fst (get_tunnel R C now i s)) \<or> is_ok (fst (get_tunnel R C now i s))"
  by (auto simp: get_tunnel_def get_connection_def seq_act_def bind_act_def map_err_def lift_res_def map_err_res_def
      split: prod.splits sum.splits option.splits)

lemma get_tunnel_by_subdomain_cases:
  "failed (fst (get_tunnel_by_subdomain R C now sub s)) \<or> is_ok (fst (get_tunnel_by_subdomain R C now sub s))"
  by (auto simp: get_tunnel_by_subdomain_def get_connection_def seq_act_def bind_act_def map_err_def get_tunnel_cases
      split: prod.splits sum.splits option.splits)

context storage_env
begin

lemma get_tunnel_reads:
  assumes "view s now (tunnel_key (uuid_to_string C i)) = live_until e j now" and "de_tunnel C j = Inr t"
  shows "failed (fst (get_tunnel R C now i s))
       \<or> fst (get_tunnel R C now i s) = Inr (if now < e then Some t else None)"
proof (cases "get_tunnel R C now i s")
  case (Pair r s')
  show ?thesis
  proof (cases r)
    case (Inl x)
    then show ?thesis using get_tunnel_cases [of R C now i s] Pair by simp
  next
    case (Inr x)
    with Pair have g: "get_tunnel R C now i s = (Inr x, s')" by simp
    from get_tunnel_ok(2,3) [OF g] assms g show ?thesis by (auto simp: live_until_def split: if_splits)
  qed
qed

lemma get_tunnel_by_subdomain_reads:
  assumes sub: "view s now (subdomain_key sub) = live_until e (uuid_to_string C i) now"
    and tun: "view s now (tunnel_key (uuid_to_string C i)) = live_until e j now" and j: "de_tunnel C j = Inr t"
  shows "failed (fst (get_tunnel_by_subdomain R C now sub s))
       \<or> fst (get_tunnel_by_subdomain R C now sub s) = Inr (if now < e then Some t else None)"
proof (cases "get_tunnel_by_subdomain R C now sub s")
  case (Pair r s')
  show ?thesis
  proof (cases r)
    case (Inl x)
    then show ?thesis using get_tunnel_by_subdomain_cases [of R C now sub s] Pair by simp
  next
    case (Inr x)
    with Pair have g: "get_tunnel_by_subdomain R C now sub s = (Inr x, s')" by simp
    show ?thesis
    proof (cases "now < e")
      case True
      then obtain s1 where s1: "same_from now (view s) (view s1)" and gt: "get_tunnel R C now i s1 = (Inr x, s')"
        using get_tunnel_by_subdomain_ok(3) [OF g, of i] sub by auto
      have "view s1 now (tunnel_key (uuid_to_string C i)) = live_until e j now"
        using same_from_now [OF s1] tun by simp
      from get_tunnel_reads [OF this j] gt g show ?thesis by simp
    next
      case False
      with get_tunnel_by_subdomain_ok(2) [OF g] sub g show ?thesis by simp
    qed
  qed
qed

end

section \<open>A worked example\<close>

text \<open>Two users who want the same subdomain, a codec for their records, and the store after the first.\<close>

definition demo_tunnel :: "uuid \<Rightarrow> string \<Rightarrow> Tunnel" where
  "demo_tunnel i user = Tunnel_new 0 i user ''alice'' ''app'' ''x.dev'' 8080 20000 ''serial'' 600"

definition demo_lookup :: "string \<Rightarrow> string list \<Rightarrow> UserTunnelLookup" where
  "demo_lookup user ts = \<lparr> lk_github_user_id = user, lk_github_username = ''alice'', lk_tunnels = ts \<rparr>"

definition demo_codec :: codec where
  "demo_codec = tab_codec [demo_tunnel 1 ''u1'', demo_tunnel 2 ''u2'']
     [demo_lookup ''u1'' [''1''], demo_lookup ''u2'' [''2''], demo_lookup ''u1'' []] []"

definition demo_store :: mem_state where
  "demo_store = [(tunnel_key ''1'', (''0'', Some 600000000000)), (lookup_key ''u1'', (''0'', None)),
     (subdomain_key ''app'', (''1'', Some 600000000000)), (slot_key ''app.x.dev'', (''10.0.0.1'', Some 600000000000))]"

lemma demo_env: "storage_env mem_redis mem_view demo_codec"
  unfolding demo_codec_def by (rule mem_env.storage_env_axioms)

lemma demo_ser:
  "ser_tunnel demo_codec (demo_tunnel 1 ''u1'') = Inr ''0''"
  "ser_tunnel demo_codec (demo_tunnel 2 ''u2'') = Inr ''1''"
  "ser_lookup demo_codec (demo_lookup ''u1'' [''1'']) = Inr ''0''"
  "ser_lookup demo_codec (demo_lookup ''u2'' [''2'']) = Inr ''1''"
  "uuid_to_string demo_codec 1 = ''1''" "uuid_to_string demo_codec 2 = ''2''"
  by (simp_all add: demo_codec_def tab_codec_def tab_ser_def demo_lookup_def demo_tunnel_def Tunnel_new_def dec.simps digit_char_def upt_rec)

lemma demo_fields:
  "t_id (demo_tunnel i u) = i" "t_github_user_id (demo_tunnel i u) = u" "t_subdomain (demo_tunnel i u) = ''app''"
  "t_fqdn (demo_tunnel i u) = ''app.x.dev''" "t_github_username (demo_tunnel i u) = ''alice''"
  "t_expires_at (demo_tunnel i u) = 600000000000"
  by (simp_all add: demo_tunnel_def Tunnel_new_def chrono_seconds_def)

lemma demo_ttl: "store_ttl 0 (demo_tunnel i u) = 600" "store_ttl 5000000000 (demo_tunnel i u) = 595"
  by (simp_all add: store_ttl_def demo_fields num_seconds_def as_u64_def)

lemma demo_merge:
  "merge_lookup demo_codec (demo_tunnel 1 ''u1'') None = demo_lookup ''u1'' [''1'']"
  "merge_lookup demo_codec (demo_tunnel 2 ''u2'') None = demo_lookup ''u2'' [''2'']"
  by (simp_all add: merge_lookup_def new_lookup_def demo_fields demo_ser demo_lookup_def)

lemmas demo_eval = store_tunnel_def get_connection_def store_lookup_def claim_subdomain_def recheck_holder_def
  demo_fields demo_ser demo_ttl demo_merge Let_def mem_eval hput_def after_secs_def

lemma demo_stored: "store_tunnel mem_redis demo_codec ''10.0.0.1'' 0 (demo_tunnel 1 ''u1'') [] = (Inr (), demo_store)"
  by (simp add: demo_eval demo_store_def)

lemma demo_conflict:
  "store_tunnel mem_redis demo_codec ''10.0.0.1'' 5000000000 (demo_tunnel 2 ''u2'') demo_store =
     (Inl (BadRequest (''Subdomain '' @ [CHR 0x27] @ ''app'' @ [CHR 0x27] @ '' is already in use by an active tunnel'')),
      demo_store @ [(tunnel_key ''2'', (''1'', Some 600000000000)), (lookup_key ''u2'', (''1'', None))])"
  by (simp add: demo_eval demo_store_def)

section \<open>Properties\<close>

text \<open>
  C13: after \<open>store_tunnel\<close> succeeds, every later reader finds exactly the stored tunnel, by id and by
  subdomain, and its DNS slot holds the edge address, until the whole seconds left before the tunnel
  expires have passed, and none of them from then on; those records never outlive the tunnel; the id is
  in the owner's list; and every other key is as it was.  A reader may only see a storage failure
  instead.
\<close>

theorem store_tunnel_lifetime:
  assumes env: "storage_env R view C" and st: "store_tunnel R C edge_ip now t s = (Inr u, s')"
    and later: "now \<le> t'"
    and i64: "- (2 ^ 63) \<le> num_seconds (t_expires_at t - now)" "num_seconds (t_expires_at t - now) < 2 ^ 63"
  shows "let live = (t' < store_until now t);
             by_id = fst (get_tunnel R C t' (t_id t) s');
             by_name = fst (get_tunnel_by_subdomain R C t' (t_subdomain t) s')
         in (failed by_id \<or> by_id = Inr (if live then Some t else None))
          \<and> (failed by_name \<or> by_name = Inr (if live then Some t else None))
          \<and> view s' t' (slot_key (t_fqdn t)) = (if live then Some edge_ip else None)
          \<and> now < store_until now t \<and> store_until now t \<le> t_expires_at t
          \<and> (\<exists>d l. view s' t' (lookup_key (t_github_user_id t)) = Some d \<and> de_lookup C d = Inr l
                 \<and> uuid_to_string C (t_id t) \<in> set (lk_tunnels l))
          \<and> (\<forall>k. k \<notin> {tunnel_key (uuid_to_string C (t_id t)), lookup_key (t_github_user_id t),
                      subdomain_key (t_subdomain t), slot_key (t_fqdn t)} \<longrightarrow> view s' t' k = view s t' k)"
proof -
  obtain j d where j: "ser_tunnel C t = Inr j"
    and d: "ser_lookup C (merge_lookup C t (view s now (lookup_key (t_github_user_id t)))) = Inr d"
    and ttl: "0 < store_ttl now t" "store_ttl now t \<le> max_expire"
    and v: "\<And>t'. now \<le> t' \<Longrightarrow> view s' t' = (view s t')
           (tunnel_key (uuid_to_string C (t_id t)) := live_until (store_until now t) j t',
            lookup_key (t_github_user_id t) := Some d,
            subdomain_key (t_subdomain t) := live_until (store_until now t) (uuid_to_string C (t_id t)) t',
            slot_key (t_fqdn t) := live_until (store_until now t) edge_ip t')"
    by (rule storage_env.store_tunnel_ok [OF env st]) (rule that, assumption+)
  have laws: "codec_laws C" using env by (simp add: storage_env_def)
  have de: "de_tunnel C j = Inr t" by (rule codec_laws.tunnel_round [OF laws j])
  note reads = storage_env.get_tunnel_reads [OF env _ de] storage_env.get_tunnel_by_subdomain_reads [OF env _ _ de, where i = "t_id t"]
  have "uuid_to_string C (t_id t) \<in> set (lk_tunnels (merge_lookup C t (view s now (lookup_key (t_github_user_id t)))))"
    by (simp add: merge_lookup_def Let_def)
  then have "\<exists>d l. view s' t' (lookup_key (t_github_user_id t)) = Some d \<and> de_lookup C d = Inr l
                 \<and> uuid_to_string C (t_id t) \<in> set (lk_tunnels l)"
    using codec_laws.lookup_round [OF laws d] v [OF later] by auto
  then show ?thesis
    unfolding Let_def using store_until_le_expiry [OF ttl i64] v [OF later]
    by (intro conjI reads(1) reads(2)) (simp_all add: live_until_def)
qed

theorem store_tunnel_lifetime_witness:
  "fst (get_tunnel_by_subdomain mem_redis demo_codec 7 ''app'' demo_store) = Inr (Some (demo_tunnel 1 ''u1''))"
proof -
  have "store_until 0 (demo_tunnel 1 ''u1'') = 600000000000"
    by (simp add: store_until_def demo_ttl after_secs_def)
  moreover have "\<not> failed (fst (get_tunnel_by_subdomain mem_redis demo_codec 7 ''app'' demo_store))"
    by (simp add: get_tunnel_by_subdomain_def get_tunnel_def get_connection_def mem_eval demo_store_def demo_codec_def
        tab_codec_def parse_nat_def is_ascii_digit_def undec_def digit_val_def tab_de_def dec.simps digit_char_def)
  moreover note store_tunnel_lifetime [OF demo_env demo_stored, of 7]
  ultimately show ?thesis
    by (simp add: demo_fields num_seconds_def Let_def)
qed



text \<open>
  A refused claim is not undone: when \<open>store_tunnel\<close> reports a conflict, the loser's record is already
  stored under its id and its id is already in its owner's list, so scans over the lists find it.
\<close>

lemma conflict_leaves_record:
  assumes env: "storage_env R view C" and st: "store_tunnel R C ip now t s = (Inl (BadRequest m), s')"
    and live: "now \<le> t'" "t' < store_until now t"
  shows "(let by_id = fst (get_tunnel R C t' (t_id t) s') in failed by_id \<or> by_id = Inr (Some t))
    \<and> (\<exists>d l. view s' t' (lookup_key (t_github_user_id t)) = Some d \<and> de_lookup C d = Inr l
           \<and> uuid_to_string C (t_id t) \<in> set (lk_tunnels l))"
proof -
  have laws: "codec_laws C" using env by (simp add: storage_env_def)
  obtain j d where j: "ser_tunnel C t = Inr j"
    and v: "view s' t' = (view s t')(tunnel_key (uuid_to_string C (t_id t)) := live_until (store_until now t) j t',
            lookup_key (t_github_user_id t) := Some d)"
    and d: "ser_lookup C (merge_lookup C t (view s now (lookup_key (t_github_user_id t)))) = Inr d"
    using storage_env.store_tunnel_conflict [OF env st] live(1) by metis
  have "uuid_to_string C (t_id t) \<in> set (lk_tunnels (merge_lookup C t (view s now (lookup_key (t_github_user_id t)))))"
    by (simp add: merge_lookup_def Let_def)
  moreover have "failed (fst (get_tunnel R C t' (t_id t) s')) \<or> fst (get_tunnel R C t' (t_id t) s') = Inr (Some t)"
    using storage_env.get_tunnel_reads [OF env _ codec_laws.tunnel_round [OF laws j],
        where s = s' and now = t' and i = "t_id t" and e = "store_until now t"] v live(2) by simp
  ultimately show ?thesis
    using codec_laws.lookup_round [OF laws d] v by (auto simp: Let_def)
qed

lemma conflict_leaves_record_witness:
  "\<exists>d. mem_view (snd (store_tunnel mem_redis demo_codec ''10.0.0.1'' 5000000000 (demo_tunnel 2 ''u2'') demo_store))
       6000000000 (lookup_key ''u2'') = Some d"
proof -
  have "store_until 5000000000 (demo_tunnel 2 ''u2'') = 600000000000"
    by (simp add: store_until_def demo_ttl after_secs_def)
  with conflict_leaves_record [OF demo_env demo_conflict, of 6000000000]
  show ?thesis by (auto simp: demo_fields demo_conflict)
qed



end
