(* ===== verification/Port_Allocation.thy ===== *)
theory Port_Allocation
  imports Tunnel_Storage
begin

text \<open>
  The slot allocator \<open>allocate_port\<close> of \<open>crates/backendapi/src/storage.rs\<close>, alone and under concurrency.

  Alone: the port it returns was free, is now claimed for its time to live, and nothing else changed;
  it gives up exactly when every port it may try is taken; and with a server that answers it returns a
  port whenever one of those is free.

  Under concurrency: allocators of several API requests (and of several API processes) run their loops
  interleaved, one claim attempt at a time, beside other traffic that leaves the port keys alone.  Over
  every interleaving two grants of one port never overlap in time.
\<close>

section \<open>Interleaved allocators\<close>

text \<open>
  A running allocator is its remaining attempts and the port it tries next; a grant is the port, the
  instant of the claim and the instant the claim runs out, newest first.
\<close>

record 's race =
  r_state :: 's
  r_clock :: instant
  r_running :: "nat \<Rightarrow> (nat \<times> u16) option"
  r_grants :: "(u16 \<times> instant \<times> instant) list"

definition keeps_ports :: "('s \<Rightarrow> view) \<Rightarrow> instant \<Rightarrow> 's \<Rightarrow> 's \<Rightarrow> bool" where
  "keeps_ports view now s s' \<longleftrightarrow>
     (\<forall>p t'. now \<le> t' \<longrightarrow> view s t' (port_key p) \<noteq> None \<longrightarrow> view s' t' (port_key p) = view s t' (port_key p))"

inductive race_step :: "'s redis \<Rightarrow> ('s \<Rightarrow> view) \<Rightarrow> 's race \<Rightarrow> 's race \<Rightarrow> bool" for R view where
  start: "PORT_RANGE_START \<le> p \<Longrightarrow> r_running \<sigma> c = None \<Longrightarrow>
    race_step R view \<sigma> (\<sigma>\<lparr>r_running := (r_running \<sigma>)(c := Some (MAX_ATTEMPTS, p))\<rparr>)"
| claim: "r_running \<sigma> c = Some (Suc n, p) \<Longrightarrow> r_clock \<sigma> \<le> now \<Longrightarrow>
    r_set_nx_ex R now (port_key p) i ttl (r_state \<sigma>) = (Inr (Some ok), s') \<Longrightarrow>
    race_step R view \<sigma> (\<sigma>\<lparr>r_state := s', r_clock := now, r_running := (r_running \<sigma>)(c := None),
       r_grants := (p, now, after_secs now (unat ttl)) # r_grants \<sigma>\<rparr>)"
| taken: "r_running \<sigma> c = Some (Suc n, p) \<Longrightarrow> r_clock \<sigma> \<le> now \<Longrightarrow>
    r_set_nx_ex R now (port_key p) i ttl (r_state \<sigma>) = (Inr None, s') \<Longrightarrow>
    race_step R view \<sigma> (\<sigma>\<lparr>r_state := s', r_clock := now, r_running := (r_running \<sigma>)(c := Some (n, next_port p))\<rparr>)"
| give_up: "r_running \<sigma> c = Some (n, p) \<Longrightarrow> race_step R view \<sigma> (\<sigma>\<lparr>r_running := (r_running \<sigma>)(c := None)\<rparr>)"
| other: "r_clock \<sigma> \<le> now \<Longrightarrow> keeps_ports view now (r_state \<sigma>) s' \<Longrightarrow>
    race_step R view \<sigma> (\<sigma>\<lparr>r_state := s', r_clock := now\<rparr>)"

inductive_cases race_step_cases: "race_step R view \<sigma> \<sigma>'"

definition idle :: "'s race \<Rightarrow> bool" where
  "idle \<sigma> \<longleftrightarrow> r_grants \<sigma> = [] \<and> (\<forall>c. r_running \<sigma> c = None)"

definition grants_disjoint :: "(u16 \<times> instant \<times> instant) list \<Rightarrow> bool" where
  "grants_disjoint gs = sorted_wrt (\<lambda>(p, beg, _) (p', _, fin). p = p' \<longrightarrow> fin \<le> beg) gs"

section \<open>The ports an allocator tries\<close>

definition tried :: "u16 \<Rightarrow> nat \<Rightarrow> u16" where
  "tried start n = (next_port ^^ n) start"

lemma tried_0 [simp]: "tried p 0 = p"
  by (simp add: tried_def)

lemma tried_Suc: "tried p (Suc n) = tried (next_port p) n"
  by (simp add: tried_def funpow_swap1)

lemma next_port_range: "PORT_RANGE_START \<le> p \<Longrightarrow> PORT_RANGE_START \<le> next_port p"
proof -
  assume le: "PORT_RANGE_START \<le> p"
  have "p < p + 1" if "p \<noteq> PORT_RANGE_END"
  proof -
    have "unat p < 2 ^ LENGTH(16)" by (rule unsigned_less)
    moreover have "unat p \<noteq> 65535" using that by (simp add: PORT_RANGE_END_def word_unat_eq_iff)
    ultimately have "unat p + 1 < 2 ^ LENGTH(16)" by simp
    then have "unat (p + 1) = unat p + 1" using unat_add_lem [of p 1] by simp
    then show ?thesis by (simp add: word_less_nat_alt)
  qed
  with le show ?thesis by (auto simp: next_port_def dest: less_imp_le)
qed

lemma tried_range: "PORT_RANGE_START \<le> p \<Longrightarrow> PORT_RANGE_START \<le> tried p n"
  by (induction n arbitrary: p) (simp_all add: tried_Suc next_port_range)

lemma Ex_less_Suc2: "(\<exists>i < Suc n. P i) \<longleftrightarrow> P 0 \<or> (\<exists>i < n. P (Suc i))"
  by (metis less_Suc_eq_0_disj)

lemma All_less_Suc2': "(\<forall>i < Suc n. P i) \<longleftrightarrow> P 0 \<and> (\<forall>i < n. P (Suc i))"
  by (metis less_Suc_eq_0_disj)

section \<open>One allocator\<close>

definition no_ports :: ApiError where
  "no_ports = StorageError ''No available ports found after 1000 attempts''"

lemma reserve_err_not_no_ports: "storage_err ''Failed to reserve port'' e \<noteq> no_ports"
  by (simp add: storage_err_def no_ports_def)

lemma claim_from_errors:
  assumes up: "\<And>k v s. \<exists>c s'. r_set_nx_ex R now k v ttl s = (Inr c, s')"
  shows "claim_from R now i ttl n p s = (Inl e, s') \<Longrightarrow> e = no_ports"
proof (induction n arbitrary: p s)
  case (Suc n)
  obtain c s1 where "r_set_nx_ex R now (port_key p) i ttl s = (Inr c, s1)" using up by blast
  with Suc show ?case by (auto simp: bind_act_def map_err_def split: if_splits)
qed (simp add: no_ports_def)

context storage_env
begin

lemma claim_from_ok:
  "claim_from R now i ttl n p s = (Inr q, s') \<Longrightarrow>
   \<exists>k < n. q = tried p k \<and> (\<forall>m < k. view s now (port_key (tried p m)) \<noteq> None)
     \<and> view s now (port_key q) = None
     \<and> (\<forall>t' \<ge> now. view s' t' = (view s t')(port_key q := live_until (after_secs now (unat ttl)) i t'))"
proof (induction n arbitrary: p s)
  case (Suc n)
  obtain c s1 where nx: "r_set_nx_ex R now (port_key p) i ttl s = (Inr c, s1)"
    and rest: "(if c \<noteq> None then ret p else claim_from R now i ttl n (next_port p)) s1 = (Inr q, s')"
    using Suc.prems unfolding claim_from.simps act_ok by blast
  from nx show ?case
  proof (cases rule: set_nx_cases)
    case free
    with rest show ?thesis by (intro exI [of _ 0]) auto
  next
    case (taken w)
    then have "claim_from R now i ttl n (next_port p) s1 = (Inr q, s')" using rest by simp
    from Suc.IH [OF this] obtain k where k: "k < n" "q = tried (next_port p) k"
      "\<forall>m < k. view s1 now (port_key (tried (next_port p) m)) \<noteq> None" "view s1 now (port_key q) = None"
      "\<forall>t' \<ge> now. view s' t' = (view s1 t')(port_key q := live_until (after_secs now (unat ttl)) i t')"
      by blast
    show ?thesis
    proof (intro exI [of _ "Suc k"] conjI)
      show "\<forall>m < Suc k. view s now (port_key (tried p m)) \<noteq> None"
        unfolding All_less_Suc2' using k(3) taken by (simp add: tried_Suc same_from_now)
    qed (use k taken in \<open>simp_all add: tried_Suc same_from_def\<close>)
  qed
qed simp

lemma claim_from_exhausted:
  "claim_from R now i ttl n p s = (Inl no_ports, s') \<Longrightarrow>
   same_from now (view s) (view s') \<and> (\<forall>m < n. view s now (port_key (tried p m)) \<noteq> None)"
proof (induction n arbitrary: p s)
  case (Suc n)
  obtain c s1 where nx: "r_set_nx_ex R now (port_key p) i ttl s = (Inr c, s1)" and "c = None"
    and rest: "claim_from R now i ttl n (next_port p) s1 = (Inl no_ports, s')"
    using Suc.prems by (auto simp: act_err reserve_err_not_no_ports [symmetric] split: if_splits)
  from nx show ?case
  proof (cases rule: set_nx_cases)
    case free
    with \<open>c = None\<close> show ?thesis by simp
  next
    case (taken w)
    with Suc.IH [OF rest] show ?thesis
      unfolding All_less_Suc2' by (auto simp: tried_Suc same_from_now intro: same_from_trans)
  qed
qed (simp add: no_ports_def)

lemma claim_from_succeeds:
  assumes up: "\<And>k v s. \<exists>c s'. r_set_nx_ex R now k v ttl s = (Inr c, s')"
  shows "\<exists>k < n. view s now (port_key (tried p k)) = None \<Longrightarrow> \<exists>q s'. claim_from R now i ttl n p s = (Inr q, s')"
proof (induction n arbitrary: p s)
  case (Suc n)
  obtain c s1 where nx: "r_set_nx_ex R now (port_key p) i ttl s = (Inr c, s1)" using up by blast
  from nx show ?case
  proof (cases rule: set_nx_cases)
    case free
    with nx show ?thesis by (auto simp: bind_act_def map_err_def)
  next
    case (taken w)
    then have "\<exists>k < n. view s1 now (port_key (tried (next_port p) k)) = None"
      using Suc.prems unfolding Ex_less_Suc2 by (auto simp: tried_Suc same_from_now)
    from Suc.IH [OF this] nx taken show ?thesis by (auto simp: bind_act_def map_err_def)
  qed
qed simp

end

section \<open>Interleavings\<close>

definition race_inv :: "('s \<Rightarrow> view) \<Rightarrow> 's race \<Rightarrow> bool" where
  "race_inv view \<sigma> \<longleftrightarrow>
     grants_disjoint (r_grants \<sigma>)
   \<and> (\<forall>(p, beg, fin) \<in> set (r_grants \<sigma>). PORT_RANGE_START \<le> p
        \<and> (\<forall>t'. r_clock \<sigma> \<le> t' \<longrightarrow> t' < fin \<longrightarrow> view (r_state \<sigma>) t' (port_key p) \<noteq> None))
   \<and> (\<forall>c n p. r_running \<sigma> c = Some (n, p) \<longrightarrow> PORT_RANGE_START \<le> p)"

lemma race_inv_grant:
  "race_inv view \<sigma> \<Longrightarrow> (p, beg, fin) \<in> set (r_grants \<sigma>) \<Longrightarrow> r_clock \<sigma> \<le> t' \<Longrightarrow> t' < fin \<Longrightarrow>
   view (r_state \<sigma>) t' (port_key p) \<noteq> None"
  unfolding race_inv_def by blast

lemma race_inv_advance:
  assumes inv: "race_inv view \<sigma>" and le: "r_clock \<sigma> \<le> now" and keep: "keeps_ports view now (r_state \<sigma>) s'"
    and run: "\<And>c n p. f c = Some (n, p) \<Longrightarrow> PORT_RANGE_START \<le> p"
  shows "race_inv view (\<sigma>\<lparr>r_state := s', r_clock := now, r_running := f\<rparr>)"
proof -
  have "view s' t' (port_key p) \<noteq> None"
    if "(p, beg, fin) \<in> set (r_grants \<sigma>)" "now \<le> t'" "t' < fin" for p beg fin t'
    using race_inv_grant [OF inv that(1) _ that(3)] le keep that(2) by (simp add: keeps_ports_def)
  with inv run show ?thesis unfolding race_inv_def by auto
qed

context storage_env
begin

lemma set_nx_keeps_ports:
  "r_set_nx_ex R now k v ttl s = (Inr c, s') \<Longrightarrow> keeps_ports view now s s'"
  by (elim set_nx_cases) (auto simp: keeps_ports_def same_from_def dest: decay)

lemma race_inv_claim:
  assumes inv: "race_inv view \<sigma>" and run: "r_running \<sigma> c = Some (Suc n, p)" and le: "r_clock \<sigma> \<le> now"
    and nx: "r_set_nx_ex R now (port_key p) i ttl (r_state \<sigma>) = (Inr (Some ok), s')"
  shows "race_inv view (\<sigma>\<lparr>r_state := s', r_clock := now, r_running := (r_running \<sigma>)(c := None),
       r_grants := (p, now, after_secs now (unat ttl)) # r_grants \<sigma>\<rparr>)"
proof -
  have free: "view (r_state \<sigma>) now (port_key p) = None"
    and own: "\<And>t'. now \<le> t' \<Longrightarrow> view s' t' (port_key p) = live_until (after_secs now (unat ttl)) i t'"
    using nx by (auto elim!: set_nx_cases)
  have old: "race_inv view (\<sigma>\<lparr>r_state := s', r_clock := now, r_running := (r_running \<sigma>)(c := None)\<rparr>)"
    using inv le set_nx_keeps_ports [OF nx] by (rule race_inv_advance) (use inv in \<open>auto simp: race_inv_def split: if_splits\<close>)
  have "fin \<le> now" if "(p, beg, fin) \<in> set (r_grants \<sigma>)" for beg fin
    using race_inv_grant [OF inv that le] free by force
  with inv have "grants_disjoint ((p, now, after_secs now (unat ttl)) # r_grants \<sigma>)"
    unfolding grants_disjoint_def race_inv_def by auto
  moreover have "PORT_RANGE_START \<le> p" using inv run unfolding race_inv_def by blast
  ultimately show ?thesis using old own unfolding race_inv_def by auto
qed

lemma race_inv_step:
  assumes "race_step R view \<sigma> \<sigma>'" and "race_inv view \<sigma>"
  shows "race_inv view \<sigma>'"
  using assms
proof (induction rule: race_step.induct)
  case (start p \<sigma> c)
  then show ?case unfolding race_inv_def by auto
next
  case (claim \<sigma> c n p now i ttl ok s')
  then show ?case by (intro race_inv_claim)
next
  case (taken \<sigma> c n p now i ttl s')
  have "PORT_RANGE_START \<le> next_port p"
    using taken(1,4) unfolding race_inv_def by (blast intro: next_port_range)
  then show ?case
    using taken by (intro race_inv_advance set_nx_keeps_ports) (auto simp: race_inv_def split: if_splits)
next
  case (give_up \<sigma> c n p)
  then show ?case unfolding race_inv_def by auto
next
  case (other \<sigma> now s')
  have "race_inv view (\<sigma>\<lparr>r_state := s', r_clock := now, r_running := r_running \<sigma>\<rparr>)"
    using other by (intro race_inv_advance) (auto simp: race_inv_def)
  then show ?case by simp
qed

lemma race_inv_reachable: "(race_step R view)\<^sup>*\<^sup>* \<sigma> \<sigma>' \<Longrightarrow> idle \<sigma> \<Longrightarrow> race_inv view \<sigma>'"
proof (induction rule: rtranclp_induct)
  case base
  then show ?case by (auto simp: race_inv_def idle_def grants_disjoint_def)
next
  case (step \<sigma>1 \<sigma>2)
  then show ?case using race_inv_step by blast
qed

text \<open>The loop of one allocator, run without interruption, is one of the interleavings.\<close>

lemma claim_from_simulated:
  "\<lbrakk>claim_from R now i ttl n p (r_state \<sigma>) = (Inr q, s'); r_running \<sigma> c = Some (n, p); r_clock \<sigma> \<le> now\<rbrakk> \<Longrightarrow>
   \<exists>\<sigma>'. (race_step R view)\<^sup>*\<^sup>* \<sigma> \<sigma>' \<and> r_state \<sigma>' = s'
        \<and> r_grants \<sigma>' = (q, now, after_secs now (unat ttl)) # r_grants \<sigma>"
proof (induction n arbitrary: p \<sigma>)
  case (Suc n)
  obtain r s1 where nx: "r_set_nx_ex R now (port_key p) i ttl (r_state \<sigma>) = (Inr r, s1)"
    and rest: "(if r \<noteq> None then ret p else claim_from R now i ttl n (next_port p)) s1 = (Inr q, s')"
    using Suc.prems(1) unfolding claim_from.simps act_ok by blast
  show ?case
  proof (cases r)
    case (Some ok)
    with rest have "q = p" "s' = s1" by simp_all
    moreover have "race_step R view \<sigma> (\<sigma>\<lparr>r_state := s1, r_clock := now, r_running := (r_running \<sigma>)(c := None),
       r_grants := (p, now, after_secs now (unat ttl)) # r_grants \<sigma>\<rparr>)"
      using nx Some by (intro race_step.claim [OF Suc.prems(2,3)]) simp
    ultimately show ?thesis
      by (intro exI [of _ "\<sigma>\<lparr>r_state := s1, r_clock := now, r_running := (r_running \<sigma>)(c := None),
       r_grants := (p, now, after_secs now (unat ttl)) # r_grants \<sigma>\<rparr>"] conjI r_into_rtranclp) simp_all
  next
    case None
    let ?\<sigma> = "\<sigma>\<lparr>r_state := s1, r_clock := now, r_running := (r_running \<sigma>)(c := Some (n, next_port p))\<rparr>"
    have st: "race_step R view \<sigma> ?\<sigma>"
      using race_step.taken [OF Suc.prems(2,3)] nx None by simp
    obtain \<sigma>' where "(race_step R view)\<^sup>*\<^sup>* ?\<sigma> \<sigma>'" "r_state \<sigma>' = s'"
      "r_grants \<sigma>' = (q, now, after_secs now (unat ttl)) # r_grants ?\<sigma>"
      using Suc.IH [of "next_port p" ?\<sigma>] rest None by auto
    with st show ?thesis by (intro exI [of _ \<sigma>']) auto
  qed
qed simp

end

section \<open>Properties\<close>

text \<open>
  A port that \<open>allocate_port\<close> returns lies in the slot range, was free, and is from then on claimed for
  the caller until the time to live runs out; every port tried before it was taken; and nothing else in
  the store changes, in particular no claim of another caller.
\<close>

lemma allocate_port_grants_free_port:
  assumes env: "storage_env R view C"
    and alloc: "allocate_port R now start_port i ttl s = (Inr q, s')"
    and range: "10000 \<le> start_port"
  shows "10000 \<le> q \<and> q \<le> 65535
    \<and> view s now (port_key q) = None
    \<and> (\<exists>k < 1000. q = tried start_port k \<and> (\<forall>m < k. view s now (port_key (tried start_port m)) \<noteq> None))
    \<and> (\<forall>t' \<ge> now. view s' t' = (view s t')(port_key q := live_until (after_secs now (unat ttl)) i t'))"
proof -
  obtain u s1 where con: "get_connection R s = (Inr u, s1)"
    and cl: "claim_from R now i ttl MAX_ATTEMPTS start_port s1 = (Inr q, s')"
    using alloc unfolding allocate_port_def act_ok by blast
  have "view s1 = view s" by (rule storage_env.get_connection_view [OF env con])
  with storage_env.claim_from_ok [OF env cl] obtain k where "k < 1000" and q: "q = tried start_port k"
    and rest: "\<forall>m < k. view s now (port_key (tried start_port m)) \<noteq> None" "view s now (port_key q) = None"
      "\<forall>t' \<ge> now. view s' t' = (view s t')(port_key q := live_until (after_secs now (unat ttl)) i t')"
    unfolding MAX_ATTEMPTS_def by auto
  moreover have "10000 \<le> q" using tried_range [of start_port k] range q by (simp add: PORT_RANGE_START_def)
  moreover have "q \<le> 65535"
  proof -
    have "unat q < 2 ^ LENGTH(16)" by (rule unsigned_less)
    then show ?thesis by (simp add: word_le_nat_alt)
  qed
  ultimately show ?thesis by blast
qed

lemma allocate_port_grants_free_port_witness:
  "fst (allocate_port mem_redis 0 65535 ''u1'' 60 [(port_key 65535, (''u0'', None))]) = Inr 10000
   \<and> mem_view (snd (allocate_port mem_redis 0 65535 ''u1'' 60 [(port_key 65535, (''u0'', None))])) 5 (port_key 10000)
       = Some ''u1''"
proof -
  have two: "claim_from mem_redis 0 ''u1'' 60 (Suc (Suc n)) 65535 [(port_key 65535, (''u0'', None))]
      = (Inr 10000, [(port_key 65535, (''u0'', None)), (port_key 10000, (''u1'', Some (after_secs 0 60)))])" for n
    by (simp add: mem_eval next_port_def PORT_RANGE_END_def PORT_RANGE_START_def hput_def)
  have "MAX_ATTEMPTS = Suc (Suc 998)" by (simp add: MAX_ATTEMPTS_def)
  then have "claim_from mem_redis 0 ''u1'' 60 MAX_ATTEMPTS 65535 [(port_key 65535, (''u0'', None))]
      = (Inr 10000, [(port_key 65535, (''u0'', None)), (port_key 10000, (''u1'', Some (after_secs 0 60)))])"
    by (metis two)
  then have al: "allocate_port mem_redis 0 65535 ''u1'' 60 [(port_key 65535, (''u0'', None))]
      = (Inr 10000, [(port_key 65535, (''u0'', None)), (port_key 10000, (''u1'', Some (after_secs 0 60)))])"
    by (simp add: allocate_port_def get_connection_def mem_eval)
  show ?thesis
    using allocate_port_grants_free_port [OF mem_env.storage_env_axioms al] by (simp add: al after_secs_def)
qed

text \<open>
  C15: with a server that answers, \<open>allocate_port\<close> returns a port exactly when one of the 1000 ports it may
  try is free, and otherwise reports that no port is available.
\<close>

theorem allocate_port_complete:
  assumes env: "storage_env R view C"
    and conn: "\<And>s. \<exists>u s'. r_conn R s = (Inr u, s')"
    and up: "\<And>k v s. \<exists>c s'. r_set_nx_ex R now k v ttl s = (Inr c, s')"
  shows "if \<exists>m < 1000. view s now (port_key (tried start_port m)) = None
         then \<exists>q. fst (allocate_port R now start_port i ttl s) = Inr q
         else fst (allocate_port R now start_port i ttl s) = Inl no_ports"
proof -
  obtain u s1 where con: "get_connection R s = (Inr u, s1)"
    using conn [of s] by (auto simp: get_connection_def)
  have v: "view s1 = view s" by (rule storage_env.get_connection_view [OF env con])
  have al: "allocate_port R now start_port i ttl s = claim_from R now i ttl MAX_ATTEMPTS start_port s1"
    using con by (simp add: allocate_port_def seq_act_def bind_act_def)
  show ?thesis
  proof (cases "\<exists>m < 1000. view s now (port_key (tried start_port m)) = None")
    case True
    then have "\<exists>k < MAX_ATTEMPTS. view s1 now (port_key (tried start_port k)) = None"
      by (simp add: v MAX_ATTEMPTS_def)
    from storage_env.claim_from_succeeds [OF env up this, where i = i] True show ?thesis by (auto simp: al)
  next
    case False
    have "\<nexists>q s'. claim_from R now i ttl MAX_ATTEMPTS start_port s1 = (Inr q, s')"
      using storage_env.claim_from_ok [OF env, of now i ttl MAX_ATTEMPTS start_port s1] False
      unfolding v MAX_ATTEMPTS_def by blast
    with claim_from_errors [OF up, of i MAX_ATTEMPTS start_port s1] False show ?thesis
      by (cases "claim_from R now i ttl MAX_ATTEMPTS start_port s1"; cases "fst (claim_from R now i ttl MAX_ATTEMPTS start_port s1)")
        (auto simp: al)
  qed
qed

theorem allocate_port_complete_witness:
  "\<exists>q. fst (allocate_port mem_redis 0 10000 ''u1'' 60 []) = Inr q"
proof -
  have "if \<exists>m < 1000. mem_view [] 0 (port_key (tried 10000 m)) = None
         then \<exists>q. fst (allocate_port mem_redis 0 10000 ''u1'' 60 []) = Inr q
         else fst (allocate_port mem_redis 0 10000 ''u1'' 60 []) = Inl no_ports"
    by (rule allocate_port_complete [OF mem_env.storage_env_axioms]) (simp_all add: mem_eval)
  moreover have "\<exists>m < 1000. mem_view [] 0 (port_key (tried 10000 m)) = None"
    by (intro exI [of _ 0]) simp
  ultimately show ?thesis by presburger
qed

text \<open>
  C4: over every interleaving of allocators and of other traffic that leaves live port keys alone, two
  grants of the same port never overlap: the earlier one has run out before the later one is made.
  Every granted port is in the slot range.
\<close>

theorem grants_never_overlap:
  assumes env: "storage_env R view C" and idle: "idle \<sigma>" and reach: "(race_step R view)\<^sup>*\<^sup>* \<sigma> \<sigma>'"
  shows "grants_disjoint (r_grants \<sigma>') \<and> (\<forall>g \<in> set (r_grants \<sigma>'). 10000 \<le> fst g)"
  using storage_env.race_inv_reachable [OF env reach idle]
  by (auto simp: race_inv_def PORT_RANGE_START_def)

definition race_idle :: "mem_state race" where
  "race_idle = \<lparr>r_state = [], r_clock = 0, r_running = (\<lambda>_. None), r_grants = []\<rparr>"

theorem grants_never_overlap_witness:
  "\<exists>\<sigma>'. (race_step mem_redis mem_view)\<^sup>*\<^sup>* race_idle \<sigma>' \<and> length (r_grants \<sigma>') = 1 \<and> grants_disjoint (r_grants \<sigma>')"
proof -
  let ?s1 = "race_idle\<lparr>r_running := (r_running race_idle)(0 := Some (MAX_ATTEMPTS, 20000))\<rparr>"
  have run: "r_running ?s1 0 = Some (Suc 999, 20000)" by (simp add: MAX_ATTEMPTS_def)
  have 1: "race_step mem_redis mem_view race_idle ?s1"
    by (rule race_step.start) (simp_all add: race_idle_def PORT_RANGE_START_def)
  have nx: "r_set_nx_ex mem_redis 5 (port_key 20000) ''u'' 60 (r_state ?s1)
      = (Inr (Some ''OK''), [(port_key 20000, (''u'', Some (after_secs 5 60)))])"
    by (simp add: race_idle_def mem_eval hput_def)
  let ?s2 = "?s1\<lparr>r_state := [(port_key 20000, (''u'', Some (after_secs 5 60)))], r_clock := 5,
      r_running := (r_running ?s1)(0 := None), r_grants := (20000, 5, after_secs 5 (unat (60 :: u64))) # r_grants ?s1\<rparr>"
  have 2: "race_step mem_redis mem_view ?s1 ?s2"
    by (rule race_step.claim [OF run _ nx]) (simp add: race_idle_def)
  have "(race_step mem_redis mem_view)\<^sup>*\<^sup>* race_idle ?s2"
    by (rule converse_rtranclp_into_rtranclp [OF 1 r_into_rtranclp [where r = "race_step mem_redis mem_view", OF 2]])
  moreover have "length (r_grants ?s2) = 1" by (simp add: race_idle_def)
  moreover have "idle race_idle" by (simp add: idle_def race_idle_def)
  ultimately show ?thesis using grants_never_overlap [OF mem_env.storage_env_axioms] by blast
qed

end
