(* ===== verification/Tunnel_Directory.thy ===== *)
theory Tunnel_Directory
  imports Tunnel_Storage
begin

text \<open>
  The view of the tunnel records that the edge and the hub share,
  \<open>crates/common/src/redis/tunnel.rs\<close> (and its copy \<open>crates/edgehub/src/redis.rs\<close>): liveness markers,
  session grants, and the scans that find a tunnel by subdomain or by slot.  A scan reads the key of
  every user lookup, then every tunnel id in it, and returns the first record that matches.

  The lemmas characterise the scans by the set of listed records, whatever order the server returns the
  keys in.
\<close>

section \<open>Markers and grants\<close>

definition mark_tunnel_live :: "'s redis \<Rightarrow> instant \<Rightarrow> string \<Rightarrow> u64 \<Rightarrow> ('s, FleetingDnsError, unit) act" where
  "mark_tunnel_live R now tunnel_id ttl = set_string_ex R now (tunnel_live_key tunnel_id) ''1'' ttl"

definition clear_tunnel_live :: "'s redis \<Rightarrow> instant \<Rightarrow> string \<Rightarrow> ('s, FleetingDnsError, unit) act" where
  "clear_tunnel_live R now tunnel_id = del_key R now (tunnel_live_key tunnel_id)"

definition dir_is_tunnel_live :: "'s redis \<Rightarrow> instant \<Rightarrow> string \<Rightarrow> ('s, FleetingDnsError, bool) act" where
  "dir_is_tunnel_live R now tunnel_id =
     bind_act (get_string R now (tunnel_live_key tunnel_id)) (\<lambda>v. ret (v \<noteq> None))"

definition check_session_grant :: "'s redis \<Rightarrow> instant \<Rightarrow> string \<Rightarrow> string \<Rightarrow> ('s, FleetingDnsError, bool) act" where
  "check_session_grant R now subdomain token =
     seq_act (connect R) (map_err Fd_RedisError (r_exists R now (session_grant_key subdomain token)))"

section \<open>Writers\<close>

definition store_tunnel_data :: "'s redis \<Rightarrow> codec \<Rightarrow> instant \<Rightarrow> TunnelInfo \<Rightarrow> ('s, FleetingDnsError, unit) act" where
  "store_tunnel_data R C now info =
     seq_act (connect R)
    (bind_act (lift_res (map_err_res (\<lambda>e. Fd_SerializationError (''Failed to serialize tunnel info: '' @ e)) (ser_info C info)))
       (\<lambda>data.
     let ttl = (case parse_rfc3339 C (ti_expires_at info) of
                  Some e \<Rightarrow> as_u64 (num_seconds (e - now))
                | None \<Rightarrow> 3600)
     in map_err Fd_RedisError (r_set_ex R now (tunnel_key (ti_id info)) data ttl)))"

definition merge_user_lookup :: "codec \<Rightarrow> string \<Rightarrow> string \<Rightarrow> string \<Rightarrow> string option \<Rightarrow> UserTunnelLookup" where
  "merge_user_lookup C github_user_id github_username tunnel_id existing =
     (let fresh = \<lparr> lk_github_user_id = github_user_id, lk_github_username = github_username, lk_tunnels = [] \<rparr>;
          lookup = (case existing of
              Some data \<Rightarrow> (case de_lookup C data of Inl e \<Rightarrow> fresh | Inr l \<Rightarrow> l)
            | None \<Rightarrow> fresh)
      in if tunnel_id \<in> set (lk_tunnels lookup) then lookup
         else lookup \<lparr> lk_tunnels := lk_tunnels lookup @ [tunnel_id] \<rparr>)"

definition store_user_tunnel_lookup ::
  "'s redis \<Rightarrow> codec \<Rightarrow> instant \<Rightarrow> string \<Rightarrow> string \<Rightarrow> string \<Rightarrow> ('s, FleetingDnsError, unit) act" where
  "store_user_tunnel_lookup R C now github_user_id github_username tunnel_id =
     seq_act (connect R)
    (bind_act (map_err Fd_RedisError (r_get R now (lookup_key github_user_id)))
       (\<lambda>existing.
     bind_act (lift_res (map_err_res (\<lambda>e. Fd_SerializationError (''Failed to serialize user lookup: '' @ e))
         (ser_lookup C (merge_user_lookup C github_user_id github_username tunnel_id existing))))
       (\<lambda>data.
     map_err Fd_RedisError (r_set R now (lookup_key github_user_id) data))))"

section \<open>Scans\<close>

fun scan_ids ::
  "'s redis \<Rightarrow> codec \<Rightarrow> instant \<Rightarrow> (TunnelInfo \<Rightarrow> bool) \<Rightarrow> string list \<Rightarrow> ('s, FleetingDnsError, TunnelInfo option) act" where
  "scan_ids R C now match [] = ret None"
| "scan_ids R C now match (i # is) =
     bind_act (map_err Fd_RedisError (r_get R now (tunnel_key i)))
       (\<lambda>tunnel_data.
     case tunnel_data of
       None \<Rightarrow> scan_ids R C now match is
     | Some data \<Rightarrow>
         (case de_info C data of
            Inl e \<Rightarrow> scan_ids R C now match is
          | Inr info \<Rightarrow> if match info then ret (Some info) else scan_ids R C now match is))"

fun scan_users ::
  "'s redis \<Rightarrow> codec \<Rightarrow> instant \<Rightarrow> (TunnelInfo \<Rightarrow> bool) \<Rightarrow> string list \<Rightarrow> ('s, FleetingDnsError, TunnelInfo option) act" where
  "scan_users R C now match [] = ret None"
| "scan_users R C now match (k # ks) =
     bind_act (map_err Fd_RedisError (r_get R now k))
       (\<lambda>user_data.
     case user_data of
       None \<Rightarrow> scan_users R C now match ks
     | Some data \<Rightarrow>
         (case de_lookup C data of
            Inl e \<Rightarrow> scan_users R C now match ks
          | Inr lookup \<Rightarrow>
              bind_act (scan_ids R C now match (lk_tunnels lookup))
                (\<lambda>found. case found of Some info \<Rightarrow> ret (Some info) | None \<Rightarrow> scan_users R C now match ks)))"

definition scan_tunnels ::
  "'s redis \<Rightarrow> codec \<Rightarrow> instant \<Rightarrow> (TunnelInfo \<Rightarrow> bool) \<Rightarrow> ('s, FleetingDnsError, TunnelInfo option) act" where
  "scan_tunnels R C now match =
     seq_act (connect R)
    (bind_act (map_err Fd_RedisError (r_keys R now (''tunnel_lookup:'' @ ''*'')))
       (\<lambda>ks. scan_users R C now match ks))"

definition dir_get_tunnel_by_subdomain ::
  "'s redis \<Rightarrow> codec \<Rightarrow> instant \<Rightarrow> string \<Rightarrow> ('s, FleetingDnsError, TunnelInfo option) act" where
  "dir_get_tunnel_by_subdomain R C now subdomain = scan_tunnels R C now (\<lambda>info. ti_subdomain info = subdomain)"

definition get_tunnel_by_slot ::
  "'s redis \<Rightarrow> codec \<Rightarrow> instant \<Rightarrow> u16 \<Rightarrow> ('s, FleetingDnsError, TunnelInfo option) act" where
  "get_tunnel_by_slot R C now slot = scan_tunnels R C now (\<lambda>info. ti_slot info = slot)"

section \<open>Listed records\<close>

text \<open>The records a scan can reach at an instant: those whose id is in some user lookup.\<close>

definition listed :: "codec \<Rightarrow> (string \<Rightarrow> string option) \<Rightarrow> TunnelInfo \<Rightarrow> bool" where
  "listed C m info \<longleftrightarrow>
     (\<exists>k data l i j. prefix ''tunnel_lookup:'' k \<and> m k = Some data \<and> de_lookup C data = Inr l
        \<and> i \<in> set (lk_tunnels l) \<and> m (tunnel_key i) = Some j \<and> de_info C j = Inr info)"

definition ids_hit :: "codec \<Rightarrow> (string \<Rightarrow> string option) \<Rightarrow> (TunnelInfo \<Rightarrow> bool) \<Rightarrow> string list \<Rightarrow> TunnelInfo \<Rightarrow> bool" where
  "ids_hit C m match is info \<longleftrightarrow>
     match info \<and> (\<exists>i \<in> set is. \<exists>j. m (tunnel_key i) = Some j \<and> de_info C j = Inr info)"

definition users_hit :: "codec \<Rightarrow> (string \<Rightarrow> string option) \<Rightarrow> (TunnelInfo \<Rightarrow> bool) \<Rightarrow> string list \<Rightarrow> TunnelInfo \<Rightarrow> bool" where
  "users_hit C m match ks info \<longleftrightarrow>
     (\<exists>k \<in> set ks. \<exists>data l. m k = Some data \<and> de_lookup C data = Inr l \<and> ids_hit C m match (lk_tunnels l) info)"

lemma ids_hit_simps [simp]:
  "\<not> ids_hit C m match [] info"
  "ids_hit C m match (i # is) info \<longleftrightarrow>
     (match info \<and> (\<exists>j. m (tunnel_key i) = Some j \<and> de_info C j = Inr info)) \<or> ids_hit C m match is info"
  by (auto simp: ids_hit_def)

lemma users_hit_simps [simp]:
  "\<not> users_hit C m match [] info"
  "users_hit C m match (k # ks) info \<longleftrightarrow>
     (\<exists>data l. m k = Some data \<and> de_lookup C data = Inr l \<and> ids_hit C m match (lk_tunnels l) info)
     \<or> users_hit C m match ks info"
  by (auto simp: users_hit_def)

context storage_env
begin

lemma scan_ids_ok:
  "scan_ids R C now match is s = (Inr r, s') \<Longrightarrow>
   same_from now (view s) (view s')
   \<and> (case r of None \<Rightarrow> (\<forall>info. \<not> ids_hit C (view s now) match is info) | Some info \<Rightarrow> ids_hit C (view s now) match is info)"
proof (induction "is" arbitrary: s)
  case (Cons i "is")
  obtain v s1 where g: "r_get R now (tunnel_key i) s = (Inr v, s1)"
    and rest: "(case v of None \<Rightarrow> scan_ids R C now match is
      | Some data \<Rightarrow> (case de_info C data of Inl e \<Rightarrow> scan_ids R C now match is
          | Inr info \<Rightarrow> if match info then ret (Some info) else scan_ids R C now match is)) s1 = (Inr r, s')"
    using Cons.prems unfolding scan_ids.simps act_ok by blast
  have v: "v = view s now (tunnel_key i)" and same: "same_from now (view s) (view s1)"
    using get_ok [OF g] get_same [OF g] by simp_all
  have now: "view s1 now = view s now" using same by (simp add: same_from_def)
  have IH: "scan_ids R C now match is s1 = (Inr r, s') \<Longrightarrow> ?case"
    if "\<And>j info. view s now (tunnel_key i) = Some j \<Longrightarrow> de_info C j = Inr info \<Longrightarrow> \<not> match info"
    using Cons.IH [of s1] same_from_trans [OF same] now that by (auto split: option.splits)
  show ?case
  proof (cases v)
    case None
    with rest v show ?thesis by (intro IH) simp_all
  next
    case (Some data)
    show ?thesis
    proof (cases "de_info C data")
      case (Inl e)
      with Some rest v show ?thesis by (intro IH) auto
    next
      case (Inr info)
      show ?thesis
      proof (cases "match info")
        case True
        with Some Inr rest v same show ?thesis by auto
      next
        case False
        with Some Inr rest v show ?thesis by (intro IH) auto
      qed
    qed
  qed
qed simp

lemma scan_users_ok:
  "scan_users R C now match ks s = (Inr r, s') \<Longrightarrow>
   same_from now (view s) (view s')
   \<and> (case r of None \<Rightarrow> (\<forall>info. \<not> users_hit C (view s now) match ks info) | Some info \<Rightarrow> users_hit C (view s now) match ks info)"
proof (induction ks arbitrary: s)
  case (Cons k ks)
  obtain v s1 where g: "r_get R now k s = (Inr v, s1)"
    and rest: "(case v of None \<Rightarrow> scan_users R C now match ks
      | Some data \<Rightarrow> (case de_lookup C data of Inl e \<Rightarrow> scan_users R C now match ks
          | Inr lookup \<Rightarrow> bind_act (scan_ids R C now match (lk_tunnels lookup))
                (\<lambda>found. case found of Some info \<Rightarrow> ret (Some info) | None \<Rightarrow> scan_users R C now match ks))) s1 = (Inr r, s')"
    using Cons.prems unfolding scan_users.simps act_ok by blast
  have v: "v = view s now k" and same: "same_from now (view s) (view s1)"
    using get_ok [OF g] get_same [OF g] by simp_all
  have IH: "scan_users R C now match ks s2 = (Inr r, s') \<Longrightarrow> ?case"
    if "same_from now (view s) (view s2)"
      and "\<And>data l info. view s now k = Some data \<Longrightarrow> de_lookup C data = Inr l \<Longrightarrow>
             \<not> ids_hit C (view s now) match (lk_tunnels l) info" for s2
  proof -
    have "view s2 now = view s now" using that(1) by (simp add: same_from_def)
    then show "scan_users R C now match ks s2 = (Inr r, s') \<Longrightarrow> ?case"
      using Cons.IH [of s2] same_from_trans [OF that(1)] that(2) by (auto split: option.splits)
  qed
  show ?case
  proof (cases v)
    case None
    with rest v same show ?thesis by (intro IH [of s1]) simp_all
  next
    case (Some data)
    show ?thesis
    proof (cases "de_lookup C data")
      case (Inl e)
      with Some rest v same show ?thesis by (intro IH [of s1]) auto
    next
      case (Inr l)
      obtain f s2 where si: "scan_ids R C now match (lk_tunnels l) s1 = (Inr f, s2)"
        and tail: "(case f of Some info \<Rightarrow> ret (Some info) | None \<Rightarrow> scan_users R C now match ks) s2 = (Inr r, s')"
        using rest Some Inr by (auto simp: bind_act_ok)
      have now1: "view s1 now = view s now" using same by (simp add: same_from_def)
      have sid: "same_from now (view s) (view s2)"
        "case f of None \<Rightarrow> (\<forall>info. \<not> ids_hit C (view s now) match (lk_tunnels l) info)
           | Some info \<Rightarrow> ids_hit C (view s now) match (lk_tunnels l) info"
        using scan_ids_ok [OF si, unfolded now1] same_from_trans [OF same] by blast+
      show ?thesis
      proof (cases f)
        case None
        with sid tail Some Inr v show ?thesis by (intro IH [of s2]) auto
      next
        case (Some info)
        with sid tail \<open>v = Some data\<close> Inr v show ?thesis by auto
      qed
    qed
  qed
qed simp

lemma scan_tunnels_ok:
  assumes "scan_tunnels R C now match s = (Inr r, s')"
  shows "same_from now (view s) (view s')"
    and "case r of None \<Rightarrow> (\<forall>info. listed C (view s now) info \<longrightarrow> \<not> match info)
         | Some info \<Rightarrow> listed C (view s now) info \<and> match info"
proof -
  obtain u s1 ks s2 where con: "connect R s = (Inr u, s1)"
    and kq: "r_keys R now (''tunnel_lookup:'' @ ''*'') s1 = (Inr ks, s2)"
    and sc: "scan_users R C now match ks s2 = (Inr r, s')"
    using assms unfolding scan_tunnels_def act_ok by blast
  have v1: "view s1 = view s" by (rule connect_view [OF con])
  have plain: "glob_plain ''tunnel_lookup:''" by (simp add: glob_plain_def)
  from keys_law [OF kq plain]
  have ks: "set ks = {k. prefix ''tunnel_lookup:'' k \<and> view s now k \<noteq> None}" and same: "same_from now (view s) (view s2)"
    by (simp_all only: v1)
  have now2: "view s2 now = view s now" using same by (simp add: same_from_def)
  have hit: "users_hit C (view s now) match ks info \<longleftrightarrow> listed C (view s now) info \<and> match info" for info
    unfolding users_hit_def ids_hit_def listed_def ks by blast
  from scan_users_ok [OF sc, unfolded now2 hit] same_from_trans [OF same]
  show "same_from now (view s) (view s')"
    and "case r of None \<Rightarrow> (\<forall>info. listed C (view s now) info \<longrightarrow> \<not> match info)
         | Some info \<Rightarrow> listed C (view s now) info \<and> match info"
    by (auto split: option.splits)
qed

end

lemma scan_ids_error: "scan_ids R C now match is s = (Inl e, s') \<Longrightarrow> \<exists>m. e = Fd_RedisError m"
  by (induction "is" arbitrary: s)
    (auto simp: bind_act_def map_err_def split: prod.splits option.splits sum.splits if_splits)

lemma scan_users_error: "scan_users R C now match ks s = (Inl e, s') \<Longrightarrow> \<exists>m. e = Fd_RedisError m"
  by (induction ks arbitrary: s)
    (auto simp: bind_act_def map_err_def split: prod.splits option.splits sum.splits dest: scan_ids_error)

definition lookup_failed :: "FleetingDnsError + 'a \<Rightarrow> bool" where
  "lookup_failed r \<longleftrightarrow> (\<exists>m. r = Inl (Fd_ConnectionError m) \<or> r = Inl (Fd_RedisError m))"

lemma scan_tunnels_error: "scan_tunnels R C now match s = (Inl e, s') \<Longrightarrow> lookup_failed (Inl e :: FleetingDnsError + 'b)"
  by (auto simp: scan_tunnels_def connect_def lookup_failed_def seq_act_def bind_act_def map_err_def
      split: prod.splits sum.splits dest: scan_users_error)

text \<open>What a scan for the records with a property may answer.\<close>

definition scan_answer ::
  "codec \<Rightarrow> (string \<Rightarrow> string option) \<Rightarrow> (TunnelInfo \<Rightarrow> bool) \<Rightarrow> FleetingDnsError + TunnelInfo option \<Rightarrow> bool" where
  "scan_answer C m P r \<longleftrightarrow>
     (case r of
        Inl e \<Rightarrow> lookup_failed r
      | Inr None \<Rightarrow> (\<forall>info. listed C m info \<longrightarrow> \<not> P info)
      | Inr (Some info) \<Rightarrow> listed C m info \<and> P info)"

context storage_env
begin

lemma scan_tunnels_answer:
  "case scan_tunnels R C now P s of (r, s') \<Rightarrow>
     scan_answer C (view s now) P r \<and> (lookup_failed r \<or> same_from now (view s) (view s'))"
proof (cases "scan_tunnels R C now P s")
  case (Pair r s')
  show ?thesis
  proof (cases r)
    case (Inl e)
    then show ?thesis
      using Pair scan_tunnels_error [of R C now P s e s'] by (simp add: scan_answer_def lookup_failed_def)
  next
    case (Inr x)
    then show ?thesis using Pair scan_tunnels_ok [of now P s x s'] by (simp add: scan_answer_def)
  qed
qed

end

lemma connect_failed: "connect R s = (Inl e, s') \<Longrightarrow> lookup_failed (Inl e)"
  by (auto simp: connect_def map_err_err lookup_failed_def)

lemma check_session_grant_reads:
  assumes env: "storage_env R view C"
  shows "lookup_failed (fst (check_session_grant R t sub tok s))
       \<or> fst (check_session_grant R t sub tok s) = Inr (view s t (session_grant_key sub tok) \<noteq> None)"
proof -
  have srv: "redis_server R view" using env by (simp add: storage_env_def)
  obtain c s1 where c: "connect R s = (c, s1)" by (cases "connect R s")
  obtain x s2 where x: "r_exists R t (session_grant_key sub tok) s1 = (x, s2)"
    by (cases "r_exists R t (session_grant_key sub tok) s1")
  have v1: "view s1 = view s" by (rule redis_server.connect_view [OF srv c])
  show ?thesis
  proof (cases c)
    case (Inl e)
    with c connect_failed [of R s e s1] show ?thesis
      by (simp add: check_session_grant_def seq_act_def bind_act_def lookup_failed_def)
  next
    case (Inr u)
    with c x redis_server.exists_law [OF srv, of t "session_grant_key sub tok" s1] v1 show ?thesis
      by (cases x) (simp_all add: check_session_grant_def seq_act_def bind_act_def map_err_def lookup_failed_def)
  qed
qed

section \<open>Properties\<close>

text \<open>
  The scans are sound and complete for the listed records, whatever order the server enumerates the
  user lookups in: a tunnel they return is listed and has the asked subdomain or slot, they return none
  only when no listed record has it, and they leave the store as it is.  A scan may only fail because
  the connection or a command fails.
\<close>

lemma scans_find_listed_tunnels:
  assumes env: "storage_env R view C"
  shows "(case dir_get_tunnel_by_subdomain R C now sub s of (r, s') \<Rightarrow>
            scan_answer C (view s now) (\<lambda>info. ti_subdomain info = sub) r
            \<and> (lookup_failed r \<or> same_from now (view s) (view s')))
       \<and> (case get_tunnel_by_slot R C now slot s of (r, s') \<Rightarrow>
            scan_answer C (view s now) (\<lambda>info. ti_slot info = slot) r
            \<and> (lookup_failed r \<or> same_from now (view s) (view s')))"
  unfolding dir_get_tunnel_by_subdomain_def get_tunnel_by_slot_def
  by (intro conjI storage_env.scan_tunnels_answer [OF env])

lemma scans_find_listed_tunnels_witness:
  "fst (dir_get_tunnel_by_subdomain mem_redis demo_codec 7 ''nothing'' []) = Inr None"
proof -
  have "\<not> listed demo_codec (mem_view [] 7) info" for info by (simp add: listed_def)
  moreover have "\<not> lookup_failed (fst (dir_get_tunnel_by_subdomain mem_redis demo_codec 7 ''nothing'' []))"
    by (simp add: dir_get_tunnel_by_subdomain_def scan_tunnels_def connect_def mem_eval lookup_failed_def)
  ultimately show ?thesis
    using scans_find_listed_tunnels [OF demo_env, where now = 7 and sub = "''nothing''" and s = "[]" and slot = 0]
    by (cases "dir_get_tunnel_by_subdomain mem_redis demo_codec 7 ''nothing'' []")
      (auto simp: scan_answer_def split: sum.splits option.splits)
qed

text \<open>
  A session grant opens exactly the tunnel it was minted for: after the API stores a grant, the edge's
  check succeeds for that subdomain and token until the grant's time to live runs out and fails from
  then on, and the answer for every other subdomain or token is what it was before.
\<close>

lemma session_grants_isolated:
  assumes env: "storage_env R view C"
    and put: "store_session_grant R t sub tok g ttl s = (Inr u, s')" and le: "t \<le> t'"
    and plain: "CHR '':'' \<notin> set sub" "CHR '':'' \<notin> set sub'"
  shows "let r = fst (check_session_grant R t' sub' tok' s') in
         lookup_failed r \<or>
         r = Inr (if sub' = sub \<and> tok' = tok then t' < after_secs t (unat ttl)
                  else view s t' (session_grant_key sub' tok') \<noteq> None)"
proof -
  obtain w s1 where con: "get_connection R s = (Inr w, s1)"
    and set: "r_set_ex R t (session_grant_key sub tok) g ttl s1 = (Inr u, s')"
    using put unfolding store_session_grant_def act_ok by blast
  have srv: "redis_server R view" using env by (simp add: storage_env_def)
  have v: "view s' t' = (view s t')(session_grant_key sub tok := live_until (after_secs t (unat ttl)) g t')"
    using redis_server.set_ex_law [OF srv set le] storage_env.get_connection_view [OF env con] by simp
  have "session_grant_key sub' tok' = session_grant_key sub tok \<longleftrightarrow> sub' = sub \<and> tok' = tok"
    using session_grant_key_inj plain by blast
  then show ?thesis
    using check_session_grant_reads [OF env, of t' sub' tok' s'] v by (auto simp: Let_def live_until_def)
qed

lemma session_grants_isolated_witness:
  "fst (check_session_grant mem_redis 5 ''app'' ''tok'' (snd (store_session_grant mem_redis 0 ''app'' ''tok'' ''g'' 900 []))) = Inr True"
proof -
  obtain u s' where put: "store_session_grant mem_redis 0 ''app'' ''tok'' ''g'' 900 [] = (Inr u, s')"
    by (simp add: store_session_grant_def get_connection_def mem_eval)
  have "\<not> lookup_failed (fst (check_session_grant mem_redis 5 ''app'' ''tok'' s'))"
    by (simp add: check_session_grant_def connect_def mem_ops seq_act_def bind_act_def map_err_def lookup_failed_def)
  with session_grants_isolated [OF demo_env put, where t' = 5 and sub' = "''app''" and tok' = "''tok''"] put show ?thesis
    by (simp add: Let_def after_secs_def)
qed

text \<open>
  The liveness marker is truthful within its time to live: after \<open>mark_tunnel_live\<close> a tunnel reads as
  live until the marker's time to live runs out and as not live from then on, after
  \<open>clear_tunnel_live\<close> it reads as not live at once, and markers of other tunnels are not affected.
\<close>

lemma liveness_marker_truthful:
  assumes srv: "redis_server R view" and le: "t \<le> t'"
    and rd: "dir_is_tunnel_live R t' j s1 = (Inr b, s2)"
  shows "(mark_tunnel_live R t i ttl s = (Inr u, s1) \<longrightarrow>
           b = (if j = i then t' < after_secs t (unat ttl) else view s t' (tunnel_live_key j) \<noteq> None))
       \<and> (clear_tunnel_live R t i s = (Inr u, s1) \<longrightarrow>
           b = (j \<noteq> i \<and> view s t' (tunnel_live_key j) \<noteq> None))"
proof -
  obtain v where g: "get_string R t' (tunnel_live_key j) s1 = (Inr v, s2)" and b: "b = (v \<noteq> None)"
    using rd by (auto simp: dir_is_tunnel_live_def act_ok)
  note store = redis_server.helpers_string_store [OF srv]
  note law = string_store.fetch_law [OF store g]
  have v: "v = view s1 t' (tunnel_live_key j)" using law by simp
  show ?thesis
  proof (intro conjI impI)
    assume "mark_tunnel_live R t i ttl s = (Inr u, s1)"
    then show "b = (if j = i then t' < after_secs t (unat ttl) else view s t' (tunnel_live_key j) \<noteq> None)"
      using string_store.put_law [OF store _ le] b v
      by (auto simp: mark_tunnel_live_def live_until_def split: if_splits)
  next
    assume "clear_tunnel_live R t i s = (Inr u, s1)"
    then show "b = (j \<noteq> i \<and> view s t' (tunnel_live_key j) \<noteq> None)"
      using string_store.remove_law [OF store _ le] b v by (auto simp: clear_tunnel_live_def)
  qed
qed

lemma liveness_marker_truthful_witness:
  "dir_is_tunnel_live mem_redis 9 ''t'' [(tunnel_live_key ''t'', (''1'', Some 45000000000))]
     = (Inr True, [(tunnel_live_key ''t'', (''1'', Some 45000000000))])"
proof -
  have put: "mark_tunnel_live mem_redis 0 ''t'' 45 [] = (Inr (), [(tunnel_live_key ''t'', (''1'', Some 45000000000))])"
    by (simp add: mark_tunnel_live_def set_string_ex_def connect_def mem_eval after_secs_def hput_def)
  obtain b where "dir_is_tunnel_live mem_redis 9 ''t'' [(tunnel_live_key ''t'', (''1'', Some 45000000000))]
      = (Inr b, [(tunnel_live_key ''t'', (''1'', Some 45000000000))])"
    by (simp add: dir_is_tunnel_live_def get_string_def connect_def mem_eval)
  with liveness_marker_truthful [OF mem.redis_server_axioms _ this, where t = 0 and i = "''t''" and ttl = 45 and s = "[]" and u = "()"] put
  show ?thesis by (simp add: after_secs_def)
qed

end
