(* ===== verification/Ssh_Hub.thy ===== *)
theory Ssh_Hub
  imports Tunnel_Directory
begin

text \<open>
  The SSH hub, \<open>crates/edgehub/src/ssh_server.rs\<close>, with the key validation of
  \<open>crates/common/src/redis/auth.rs\<close>: public-key authentication behind the brute-force lockout, the slot
  gate and the slot listeners of \<open>tcpip_forward\<close> and \<open>cancel_tcpip_forward\<close>, the viewer-idle reaper, and
  the teardown when a session is dropped.

  Not part of the repository and therefore arguments: the key fingerprint (russh), the operating
  system's bind (which port it hands out), Redis and the codec.  A handler that reads the clock several
  times takes the readings as \<open>clk 0\<close>, \<open>clk 1\<close>, ...  \<open>checked_sub(lockout).unwrap()\<close> is subtraction: an
  instant less than the lockout duration after the clock's origin, where it would panic, is not
  modelled.  The spawned tasks of a listener are the flags of its entry: the accept loop runs, the
  heartbeat publishes under an id, the reaper applies the policy.

  The lemmas show what an accepted key and a bound slot mean, that repeated failures lock a peer out,
  and, over every interleaving of the sessions' requests, that a slot is served by at most one session
  and only by the one that authenticated as the tunnel owning it.
\<close>

section \<open>Slot activity\<close>

definition VIEWER_IDLE_TEARDOWN :: duration where "VIEWER_IDLE_TEARDOWN = from_secs 60"
definition VIEWER_IDLE_POLL :: duration where "VIEWER_IDLE_POLL = from_secs 10"
definition TUNNEL_LIVE_TTL :: duration where "TUNNEL_LIVE_TTL = from_secs 45"
definition TUNNEL_LIVE_REFRESH :: duration where "TUNNEL_LIVE_REFRESH = from_secs 15"

record SlotActivity =
  sa_active :: u64
  sa_last_event :: instant

definition slot_activity_new :: "instant \<Rightarrow> SlotActivity" where
  "slot_activity_new now = \<lparr> sa_active = 0, sa_last_event = now \<rparr>"

definition connection_opened :: "instant \<Rightarrow> SlotActivity \<Rightarrow> SlotActivity" where
  "connection_opened now a = a \<lparr> sa_active := sa_active a + 1, sa_last_event := now \<rparr>"

definition slot_connection_closed :: "instant \<Rightarrow> SlotActivity \<Rightarrow> SlotActivity" where
  "slot_connection_closed now a = a \<lparr> sa_active := sa_active a - 1, sa_last_event := now \<rparr>"

definition idle_for :: "instant \<Rightarrow> SlotActivity \<Rightarrow> duration" where
  "idle_for now a = duration_since now (sa_last_event a)"

definition should_teardown_idle :: "TeardownPolicy \<Rightarrow> u64 \<Rightarrow> duration \<Rightarrow> duration \<Rightarrow> bool" where
  "should_teardown_idle policy active idle threshold = (policy = ViewerIdle \<and> active = 0 \<and> idle \<ge> threshold)"

section \<open>Session ids and lockouts\<close>

definition is_valid_session_id :: "string \<Rightarrow> bool" where
  "is_valid_session_id session_id =
     (session_id \<noteq> [] \<and> length session_id \<le> 64
      \<and> list_all (\<lambda>b. is_ascii_alphanumeric b \<or> b = CHR ''-'' \<or> b = CHR ''_'') session_id)"

record AuthAttempt =
  aa_timestamp :: instant
  aa_client_addr :: socketaddr
  aa_success :: bool
  aa_certificate_serial :: "string option"
  aa_failure_reason :: "string option"

record BruteForceProtection =
  bf_attempts :: "(socketaddr, AuthAttempt list) hmap"
  bf_lockouts :: "(socketaddr, instant) hmap"

definition is_locked_out :: "instant \<Rightarrow> socketaddr \<Rightarrow> duration \<Rightarrow> BruteForceProtection \<Rightarrow> bool" where
  "is_locked_out now addr lockout_duration b =
     (case hget (bf_lockouts b) addr of
        Some lockout_time \<Rightarrow> duration_since now lockout_time < lockout_duration
      | None \<Rightarrow> False)"

text \<open>\<open>now\<close> is the reading for the cutoff and \<open>now'\<close> the reading stored as the lockout time.\<close>

definition record_attempt ::
  "instant \<Rightarrow> instant \<Rightarrow> AuthAttempt \<Rightarrow> u32 \<Rightarrow> duration \<Rightarrow> BruteForceProtection \<Rightarrow> BruteForceProtection" where
  "record_attempt now now' attempt max_attempts lockout_duration b =
     (let addr = aa_client_addr attempt;
          cutoff = now - int lockout_duration;
          kept = filter (\<lambda>a. aa_timestamp a > cutoff) (hget_or [] (bf_attempts b) addr);
          attempts = kept @ [attempt]
      in if aa_success attempt
         then b \<lparr> bf_attempts := hput addr (filter aa_success attempts) (bf_attempts b),
                  bf_lockouts := hdel addr (bf_lockouts b) \<rparr>
         else let recent_failures = length (filter (\<lambda>a. \<not> aa_success a) attempts)
              in b \<lparr> bf_attempts := hput addr attempts (bf_attempts b),
                     bf_lockouts := (if recent_failures \<ge> unat max_attempts
                                     then hput addr now' (bf_lockouts b) else bf_lockouts b) \<rparr>)"

section \<open>Key validation\<close>

definition validate_public_key ::
  "'s redis \<Rightarrow> codec \<Rightarrow> ('key \<Rightarrow> string) \<Rightarrow> instant \<Rightarrow> string \<Rightarrow> 'key \<Rightarrow> string \<Rightarrow> ('s, string, bool) act" where
  "validate_public_key R C fingerprint now key_prefix public_key session_id =
     seq_act (map_err (\<lambda>e. ''Failed to get Redis connection'') (r_conn R))
    (bind_act (map_err (\<lambda>e. ''Failed to get session data from Redis'') (r_get R now (key_prefix @ '':'' @ session_id)))
       (\<lambda>session_data.
     case session_data of
       None \<Rightarrow> ret False
     | Some data \<Rightarrow>
         bind_act (lift_res (map_err_res (\<lambda>e. ''Failed to deserialize session data'') (de_session C data)))
           (\<lambda>session.
         if sd_expires_at session < now then ret False
         else ret (fingerprint public_key = sd_fingerprint session))))"

definition is_session_valid ::
  "'s redis \<Rightarrow> codec \<Rightarrow> instant \<Rightarrow> string \<Rightarrow> string \<Rightarrow> ('s, string, bool) act" where
  "is_session_valid R C now key_prefix session_id =
     seq_act (map_err (\<lambda>e. ''Failed to get Redis connection'') (r_conn R))
    (bind_act (map_err (\<lambda>e. ''Failed to get session data from Redis'') (r_get R now (key_prefix @ '':'' @ session_id)))
       (\<lambda>session_data.
     case session_data of
       None \<Rightarrow> ret False
     | Some data \<Rightarrow>
         bind_act (lift_res (map_err_res (\<lambda>e. ''Failed to deserialize session data'') (de_session C data)))
           (\<lambda>session. ret (sd_expires_at session \<ge> now))))"

section \<open>Server and session state\<close>

record listener =
  l_accepting :: bool
  l_heartbeat :: "string option"
  l_policy :: TeardownPolicy
  l_activity :: SlotActivity

record SshServerState =
  brute_force_protection :: BruteForceProtection
  redis_auth_handler :: "string option"
  has_redis_pool :: bool
  insecure_accept_all_keys :: bool
  max_auth_attempts :: u32
  auth_lockout_duration :: duration

record SshSession =
  client_certificate_serial :: "string option"
  peer_addr :: socketaddr
  forward_listeners :: "(u16, listener) hmap"

definition session_new :: "socketaddr \<Rightarrow> SshSession" where
  "session_new addr = \<lparr> client_certificate_serial = None, peer_addr = addr, forward_listeners = [] \<rparr>"

definition session_id_of :: "string \<Rightarrow> string" where
  "session_id_of user = (case strip_prefix_str user ''tunnel-'' of Some i \<Rightarrow> i | None \<Rightarrow> user)"

section \<open>Handlers\<close>

text \<open>The key decision: the stored session decides, the insecure flag only without Redis, otherwise reject.\<close>

definition key_accepted ::
  "'s redis \<Rightarrow> codec \<Rightarrow> ('key \<Rightarrow> string) \<Rightarrow> instant \<Rightarrow> SshServerState \<Rightarrow> 'key \<Rightarrow> string \<Rightarrow> 's \<Rightarrow> bool \<times> 's" where
  "key_accepted R C fingerprint now st public_key session_id s =
     (case redis_auth_handler st of
        Some key_prefix \<Rightarrow>
          (case validate_public_key R C fingerprint now key_prefix public_key session_id s of
             (Inr valid, s') \<Rightarrow> (valid, s')
           | (Inl e, s') \<Rightarrow> (False, s'))
      | None \<Rightarrow> (insecure_accept_all_keys st, s))"

definition auth_publickey ::
  "'s redis \<Rightarrow> codec \<Rightarrow> ('key \<Rightarrow> string) \<Rightarrow> (nat \<Rightarrow> instant) \<Rightarrow> string \<Rightarrow> 'key
     \<Rightarrow> SshServerState \<Rightarrow> SshSession \<Rightarrow> 's \<Rightarrow> bool \<times> SshServerState \<times> SshSession \<times> 's" where
  "auth_publickey R C fingerprint clk user public_key st sess s =
     (let peer = peer_addr sess; lockout = auth_lockout_duration st in
      if is_locked_out (clk 0) peer lockout (brute_force_protection st) then (False, st, sess, s)
      else
        let session_id = session_id_of user in
        if \<not> is_valid_session_id session_id then (False, st, sess, s)
        else
          (case key_accepted R C fingerprint (clk 1) st public_key session_id s of
             (accepted, s') \<Rightarrow>
               let attempt = \<lparr> aa_timestamp = clk 2, aa_client_addr = peer, aa_success = accepted,
                               aa_certificate_serial = Some session_id,
                               aa_failure_reason = (if accepted then None else Some ''key validation failed'') \<rparr>;
                   st' = st \<lparr> brute_force_protection :=
                            record_attempt (clk 3) (clk 4) attempt (max_auth_attempts st) lockout
                              (brute_force_protection st) \<rparr>
               in if accepted
                  then (True, st', sess \<lparr> client_certificate_serial := Some session_id \<rparr>, s')
                  else (False, st', sess, s')))"

text \<open>The slot gate: the policy and the id to publish under, or a refusal.\<close>

definition slot_gate ::
  "'s redis \<Rightarrow> codec \<Rightarrow> instant \<Rightarrow> SshServerState \<Rightarrow> SshSession \<Rightarrow> u16 \<Rightarrow> 's
     \<Rightarrow> (TeardownPolicy \<times> string option) option \<times> 's" where
  "slot_gate R C now st sess requested_port s =
     (if has_redis_pool st then
        (case get_tunnel_by_slot R C now requested_port s of
           (Inr (Some tunnel), s') \<Rightarrow>
             (case client_certificate_serial sess of
                Some session_id \<Rightarrow>
                  if session_id = ti_id tunnel then (Some (ti_teardown_policy tunnel, Some (ti_id tunnel)), s')
                  else (None, s')
              | None \<Rightarrow> (None, s'))
         | (_, s') \<Rightarrow> (None, s'))
      else (Some (TtlOnly, None), s))"

definition tcpip_forward ::
  "'s redis \<Rightarrow> codec \<Rightarrow> (u16 \<Rightarrow> string + u16) \<Rightarrow> instant \<Rightarrow> instant \<Rightarrow> SshServerState \<Rightarrow> u32 \<Rightarrow> SshSession \<Rightarrow> 's
     \<Rightarrow> bool \<times> u32 \<times> SshSession \<times> 's" where
  "tcpip_forward R C bind_port now now' st port sess s =
     (case slot_gate R C now st sess (ucast port) s of
        (None, s') \<Rightarrow> (False, port, sess, s')
      | (Some (policy, live_tunnel_id), s') \<Rightarrow>
          (case bind_port (ucast port) of
             Inl e \<Rightarrow> (False, port, sess, s')
           | Inr bound_port \<Rightarrow>
               (True, ucast bound_port,
                sess \<lparr> forward_listeners := hput bound_port
                   \<lparr> l_accepting = True, l_heartbeat = live_tunnel_id, l_policy = policy,
                     l_activity = slot_activity_new now' \<rparr> (forward_listeners sess) \<rparr>, s')))"

definition cancel_tcpip_forward :: "u32 \<Rightarrow> SshSession \<Rightarrow> bool \<times> SshSession" where
  "cancel_tcpip_forward port sess =
     (case hget (forward_listeners sess) (ucast port) of
        Some handles \<Rightarrow> (True, sess \<lparr> forward_listeners := hdel (ucast port) (forward_listeners sess) \<rparr>)
      | None \<Rightarrow> (False, sess))"

definition drop_session :: "SshSession \<Rightarrow> SshSession" where
  "drop_session sess = sess \<lparr> forward_listeners := [] \<rparr>"

text \<open>One wake-up of the viewer-idle reaper of a listener: it aborts the accept loop only.\<close>

definition reap_idle :: "instant \<Rightarrow> listener \<Rightarrow> listener" where
  "reap_idle now l =
     (if l_policy l = ViewerIdle
         \<and> should_teardown_idle (l_policy l) (sa_active (l_activity l)) (idle_for now (l_activity l)) VIEWER_IDLE_TEARDOWN
      then l \<lparr> l_accepting := False \<rparr> else l)"

text \<open>One turn of the heartbeat task.\<close>

definition publish_liveness :: "'s redis \<Rightarrow> instant \<Rightarrow> listener \<Rightarrow> 's \<Rightarrow> 's" where
  "publish_liveness R now l s =
     (case l_heartbeat l of
        Some tunnel_id \<Rightarrow> snd (mark_tunnel_live R now tunnel_id (of_nat (as_secs TUNNEL_LIVE_TTL)) s)
      | None \<Rightarrow> s)"

section \<open>The hub as a step relation\<close>

text \<open>
  The sessions of one hub over a shared Redis.  SSH answers authentication requests only until one is
  accepted, and the operating system binds a port only when no listener holds it and hands out the
  requested port unless that is 0; both are conditions of the steps.  Other services change Redis at any
  time.  \<open>h_detached\<close> collects the heartbeats whose handles were overwritten: dropping a tokio handle
  detaches its task.
\<close>

record 's hub =
  h_redis :: 's
  h_state :: SshServerState
  h_sessions :: "nat \<Rightarrow> SshSession option"
  h_detached :: "string list"

definition serves :: "SshSession \<Rightarrow> u16 \<Rightarrow> bool" where
  "serves sess p = (case hget (forward_listeners sess) p of Some l \<Rightarrow> l_accepting l | None \<Rightarrow> False)"

definition slot_taken :: "'s hub \<Rightarrow> u16 \<Rightarrow> bool" where
  "slot_taken h p \<longleftrightarrow> (\<exists>i sess. h_sessions h i = Some sess \<and> serves sess p)"

definition detached_by :: "SshSession \<Rightarrow> u16 \<Rightarrow> string list" where
  "detached_by sess p =
     (case hget (forward_listeners sess) p of
        Some l \<Rightarrow> (case l_heartbeat l of Some i \<Rightarrow> [i] | None \<Rightarrow> [])
      | None \<Rightarrow> [])"

inductive hub_step :: "'s redis \<Rightarrow> codec \<Rightarrow> ('key \<Rightarrow> string) \<Rightarrow> 's hub \<Rightarrow> 's hub \<Rightarrow> bool" for R C fingerprint where
  connect: "h_sessions h i = None \<Longrightarrow>
    hub_step R C fingerprint h (h\<lparr>h_sessions := (h_sessions h)(i := Some (session_new addr))\<rparr>)"
| auth: "h_sessions h i = Some sess \<Longrightarrow> client_certificate_serial sess = None \<Longrightarrow>
    auth_publickey R C fingerprint clk user key (h_state h) sess (h_redis h) = (ok, st', sess', s') \<Longrightarrow>
    hub_step R C fingerprint h (h\<lparr>h_redis := s', h_state := st', h_sessions := (h_sessions h)(i := Some sess')\<rparr>)"
| forward: "h_sessions h i = Some sess \<Longrightarrow>
    (\<And>p q. bind_port p = Inr q \<Longrightarrow> \<not> slot_taken h q \<and> (p \<noteq> 0 \<longrightarrow> q = p)) \<Longrightarrow>
    tcpip_forward R C bind_port now now' (h_state h) port sess (h_redis h) = (ok, port', sess', s') \<Longrightarrow>
    hub_step R C fingerprint h (h\<lparr>h_redis := s', h_sessions := (h_sessions h)(i := Some sess'),
      h_detached := (if ok then detached_by sess (ucast port') else []) @ h_detached h\<rparr>)"
| cancel: "h_sessions h i = Some sess \<Longrightarrow> cancel_tcpip_forward port sess = (ok, sess') \<Longrightarrow>
    hub_step R C fingerprint h (h\<lparr>h_sessions := (h_sessions h)(i := Some sess')\<rparr>)"
| viewer: "h_sessions h i = Some sess \<Longrightarrow> hget (forward_listeners sess) p = Some l \<Longrightarrow>
    a \<in> {connection_opened now (l_activity l), slot_connection_closed now (l_activity l)} \<Longrightarrow>
    hub_step R C fingerprint h (h\<lparr>h_sessions := (h_sessions h)(i := Some
      (sess\<lparr>forward_listeners := hput p (l\<lparr>l_activity := a\<rparr>) (forward_listeners sess)\<rparr>))\<rparr>)"
| reap: "h_sessions h i = Some sess \<Longrightarrow> hget (forward_listeners sess) p = Some l \<Longrightarrow>
    hub_step R C fingerprint h (h\<lparr>h_sessions := (h_sessions h)(i := Some
      (sess\<lparr>forward_listeners := hput p (reap_idle now l) (forward_listeners sess)\<rparr>))\<rparr>)"
| heartbeat: "h_sessions h i = Some sess \<Longrightarrow> hget (forward_listeners sess) p = Some l \<Longrightarrow>
    hub_step R C fingerprint h (h\<lparr>h_redis := publish_liveness R now l (h_redis h)\<rparr>)"
| disconnect: "h_sessions h i = Some sess \<Longrightarrow>
    hub_step R C fingerprint h (h\<lparr>h_sessions := (h_sessions h)(i := None)\<rparr>)"
| world: "hub_step R C fingerprint h (h\<lparr>h_redis := s'\<rparr>)"

definition hub_initial :: "'s hub \<Rightarrow> bool" where
  "hub_initial h \<longleftrightarrow> (\<forall>i. h_sessions h i = None) \<and> h_detached h = []"

section \<open>Runs of the lockout\<close>

definition record_all ::
  "u32 \<Rightarrow> duration \<Rightarrow> (instant \<times> instant \<times> AuthAttempt) list \<Rightarrow> BruteForceProtection \<Rightarrow> BruteForceProtection" where
  "record_all max_attempts lockout evs b =
     fold (\<lambda>(now, now', a). record_attempt now now' a max_attempts lockout) evs b"

definition attempts_of :: "BruteForceProtection \<Rightarrow> socketaddr \<Rightarrow> AuthAttempt list" where
  "attempts_of b addr = hget_or [] (bf_attempts b) addr"

definition failures_since :: "instant \<Rightarrow> socketaddr \<Rightarrow> BruteForceProtection \<Rightarrow> nat" where
  "failures_since since addr b = length (filter (\<lambda>a. \<not> aa_success a \<and> since \<le> aa_timestamp a) (attempts_of b addr))"

text \<open>What the lockout state says about one peer, and one attempt of a peer.\<close>

definition peer_record :: "BruteForceProtection \<Rightarrow> socketaddr \<Rightarrow> (AuthAttempt list \<times> instant option) option" where
  "peer_record b addr = Some (attempts_of b addr, hget (bf_lockouts b) addr)"

definition peer_attempt ::
  "u32 \<Rightarrow> duration \<Rightarrow> socketaddr \<Rightarrow> instant \<times> instant \<times> AuthAttempt \<Rightarrow> BruteForceProtection \<Rightarrow> BruteForceProtection" where
  "peer_attempt max_attempts lockout addr x b =
     (case x of (now, now', a) \<Rightarrow> record_attempt now now' (a\<lparr>aa_client_addr := addr\<rparr>) max_attempts lockout b)"

interpretation bf: keyed_state "peer_attempt max_attempts lockout" peer_record for max_attempts lockout
  by unfold_locales
    (auto simp: peer_attempt_def peer_record_def record_attempt_def attempts_of_def hget_or_def Let_def split: prod.split)

lemma failure_recorded:
  assumes "\<not> aa_success a" and "aa_client_addr a = addr" and "since \<le> aa_timestamp a" and "now - int lockout < since"
  shows "failures_since since addr (record_attempt now now' a m lockout b) = failures_since since addr b + 1"
    and "unat m \<le> failures_since since addr b + 1 \<Longrightarrow>
         hget (bf_lockouts (record_attempt now now' a m lockout b)) addr = Some now'"
proof -
  let ?old = "attempts_of b addr"
  let ?kept = "filter (\<lambda>x. aa_timestamp x > now - int lockout) ?old"
  have rec: "attempts_of (record_attempt now now' a m lockout b) addr = ?kept @ [a]"
    using assms(1,2) by (auto simp: record_attempt_def attempts_of_def hget_or_def Let_def)
  have "filter (\<lambda>x. \<not> aa_success x \<and> since \<le> aa_timestamp x) ?kept = filter (\<lambda>x. \<not> aa_success x \<and> since \<le> aa_timestamp x) ?old"
    unfolding filter_filter using assms(4) by (intro filter_cong) auto
  then have "filter (\<lambda>x. \<not> aa_success x \<and> since \<le> aa_timestamp x) (?kept @ [a])
      = filter (\<lambda>x. \<not> aa_success x \<and> since \<le> aa_timestamp x) ?old @ [a]"
    using assms(1,3) by (simp only: filter_append) simp
  then show cnt: "failures_since since addr (record_attempt now now' a m lockout b) = failures_since since addr b + 1"
    by (simp only: failures_since_def rec length_append) simp
  have "length (filter (\<lambda>x. \<not> aa_success x \<and> since \<le> aa_timestamp x) xs) \<le> length (filter (\<lambda>x. \<not> aa_success x) xs)"
    for xs :: "AuthAttempt list" by (induction xs) auto
  from this [of "?kept @ [a]"] have "failures_since since addr b + 1 \<le> length (filter (\<lambda>x. \<not> aa_success x) (?kept @ [a]))"
    using cnt unfolding failures_since_def rec by linarith
  then show "hget (bf_lockouts (record_attempt now now' a m lockout b)) addr = Some now'"
    if "unat m \<le> failures_since since addr b + 1"
    using assms(1,2) that by (auto simp: record_attempt_def attempts_of_def hget_or_def Let_def)
qed

lemma failures_accumulate:
  assumes "\<forall>(now, now', a) \<in> set evs. \<not> aa_success a \<and> aa_client_addr a = addr \<and> since \<le> aa_timestamp a \<and> now - int lockout < since"
  shows "failures_since since addr (record_all m lockout evs b) = failures_since since addr b + length evs"
  using assms
proof (induction evs arbitrary: b)
  case (Cons e evs)
  obtain now now' a where e: "e = (now, now', a)" by (cases e)
  with Cons.prems have "failures_since since addr (record_attempt now now' a m lockout b) = failures_since since addr b + 1"
    by (intro failure_recorded) auto
  then show ?case
    using Cons.IH [of "record_attempt now now' a m lockout b"] Cons.prems by (simp add: record_all_def e)
qed (simp add: record_all_def)

lemma failures_lock:
  assumes fails: "\<forall>(now, now', a) \<in> set (evs @ [(n, n', x)]). \<not> aa_success a \<and> aa_client_addr a = addr \<and> since \<le> aa_timestamp a \<and> now - int lockout < since"
    and many: "unat m \<le> length evs + 1"
  shows "hget (bf_lockouts (record_all m lockout (evs @ [(n, n', x)]) b)) addr = Some n'"
proof -
  have "failures_since since addr (record_all m lockout evs b) = failures_since since addr b + length evs"
    using fails by (intro failures_accumulate) auto
  moreover have "record_all m lockout (evs @ [(n, n', x)]) b = record_attempt n n' x m lockout (record_all m lockout evs b)"
    by (simp add: record_all_def)
  ultimately show ?thesis using fails many by (auto intro!: failure_recorded(2) [where since = since])
qed

section \<open>What the handlers establish\<close>

lemma auth_state_frame:
  "auth_publickey R C fp clk user key st sess s = (ok, st', sess', s') \<Longrightarrow>
   has_redis_pool st' = has_redis_pool st \<and> forward_listeners sess' = forward_listeners sess
   \<and> (ok \<or> sess' = sess) \<and> (client_certificate_serial sess' \<noteq> client_certificate_serial sess \<longrightarrow> ok)"
  by (auto simp: auth_publickey_def Let_def split: if_splits prod.splits)

context storage_env
begin

lemma validate_public_key_true:
  assumes "validate_public_key R C fp now pre key i s = (Inr True, s')"
  shows "\<exists>data session. view s now (pre @ '':'' @ i) = Some data \<and> de_session C data = Inr session
           \<and> now \<le> sd_expires_at session \<and> fp key = sd_fingerprint session"
proof -
  obtain u s1 v s2 where con: "r_conn R s = (Inr u, s1)" and g: "r_get R now (pre @ '':'' @ i) s1 = (Inr v, s2)"
    and rest: "(case v of None \<Rightarrow> ret False | Some data \<Rightarrow>
         bind_act (lift_res (map_err_res (\<lambda>e. ''Failed to deserialize session data'') (de_session C data)))
           (\<lambda>session. if sd_expires_at session < now then ret False else ret (fp key = sd_fingerprint session))) s2 = (Inr True, s')"
    using assms unfolding validate_public_key_def act_ok by blast
  have v: "v = view s now (pre @ '':'' @ i)" using get_ok [OF g] conn_law [OF con] by simp
  show ?thesis
  proof (cases v)
    case None
    with rest show ?thesis by simp
  next
    case (Some data)
    with rest obtain session where "de_session C data = Inr session" "\<not> sd_expires_at session < now"
      "fp key = sd_fingerprint session"
      by (auto simp: bind_act_def split: sum.splits if_splits)
    with Some v show ?thesis by (metis not_less)
  qed
qed

lemma auth_publickey_accepts:
  assumes "auth_publickey R C fp clk user key st sess s = (True, st', sess', s')"
  shows "\<not> is_locked_out (clk 0) (peer_addr sess) (auth_lockout_duration st) (brute_force_protection st)"
    and "is_valid_session_id (session_id_of user)"
    and "client_certificate_serial sess' = Some (session_id_of user)"
    and "case redis_auth_handler st of
           Some pre \<Rightarrow> (\<exists>data session. view s (clk 1) (pre @ '':'' @ session_id_of user) = Some data
              \<and> de_session C data = Inr session \<and> clk 1 \<le> sd_expires_at session \<and> fp key = sd_fingerprint session)
         | None \<Rightarrow> insecure_accept_all_keys st"
proof -
  obtain s1 where ka: "key_accepted R C fp (clk 1) st key (session_id_of user) s = (True, s1)"
    and "\<not> is_locked_out (clk 0) (peer_addr sess) (auth_lockout_duration st) (brute_force_protection st)"
    and "is_valid_session_id (session_id_of user)" and "client_certificate_serial sess' = Some (session_id_of user)"
    using assms by (auto simp: auth_publickey_def Let_def split: if_splits prod.splits)
  then show "\<not> is_locked_out (clk 0) (peer_addr sess) (auth_lockout_duration st) (brute_force_protection st)"
    and "is_valid_session_id (session_id_of user)" and "client_certificate_serial sess' = Some (session_id_of user)"
    by simp_all
  show "case redis_auth_handler st of
           Some pre \<Rightarrow> (\<exists>data session. view s (clk 1) (pre @ '':'' @ session_id_of user) = Some data
              \<and> de_session C data = Inr session \<and> clk 1 \<le> sd_expires_at session \<and> fp key = sd_fingerprint session)
         | None \<Rightarrow> insecure_accept_all_keys st"
  proof (cases "redis_auth_handler st")
    case (Some pre)
    then have "validate_public_key R C fp (clk 1) pre key (session_id_of user) s = (Inr True, s1)"
      using ka by (auto simp: key_accepted_def split: prod.splits sum.splits)
    from validate_public_key_true [OF this] Some show ?thesis by simp
  next
    case None
    with ka show ?thesis by (simp add: key_accepted_def)
  qed
qed

lemma slot_gate_open:
  assumes "slot_gate R C now st sess p s = (Some (policy, live), s')" and "has_redis_pool st"
  obtains info where "listed C (view s now) info" and "ti_slot info = p"
    and "client_certificate_serial sess = Some (ti_id info)" and "live = Some (ti_id info)"
    and "policy = ti_teardown_policy info"
proof -
  obtain info where g: "get_tunnel_by_slot R C now p s = (Inr (Some info), s')"
    and rest: "client_certificate_serial sess = Some (ti_id info)" "live = Some (ti_id info)" "policy = ti_teardown_policy info"
    using assms by (auto simp: slot_gate_def split: prod.splits sum.splits option.splits if_splits)
  have "listed C (view s now) info \<and> ti_slot info = p"
    using scan_tunnels_ok(2) [OF g [unfolded get_tunnel_by_slot_def]] by simp
  with rest show thesis using that by blast
qed

end

lemma tcpip_forward_bound:
  assumes "tcpip_forward R C bind_port now now' st port sess s = (True, port', sess', s')"
  obtains policy live q where "slot_gate R C now st sess (ucast port) s = (Some (policy, live), s')"
    and "bind_port (ucast port) = Inr q" and "port' = ucast q"
    and "sess' = sess\<lparr>forward_listeners := hput q \<lparr>l_accepting = True, l_heartbeat = live, l_policy = policy,
           l_activity = slot_activity_new now'\<rparr> (forward_listeners sess)\<rparr>"
  using assms by (auto simp: tcpip_forward_def split: prod.splits option.splits sum.splits)

lemma tcpip_forward_refused:
  "tcpip_forward R C bind_port now now' st port sess s = (False, port', sess', s') \<Longrightarrow> sess' = sess \<and> port' = port"
  by (auto simp: tcpip_forward_def split: prod.splits option.splits sum.splits)

section \<open>The invariant of the hub\<close>

definition slots_exclusive :: "'s hub \<Rightarrow> bool" where
  "slots_exclusive h \<longleftrightarrow>
     (\<forall>p i j sess sess'. h_sessions h i = Some sess \<longrightarrow> serves sess p \<longrightarrow>
        h_sessions h j = Some sess' \<longrightarrow> serves sess' p \<longrightarrow> i = j)"

definition owns_all :: "SshSession \<Rightarrow> bool" where
  "owns_all sess \<longleftrightarrow>
     (\<forall>p l. hget (forward_listeners sess) p = Some l \<longrightarrow>
        (\<exists>i. l_heartbeat l = Some i \<and> client_certificate_serial sess = Some i))"

definition slots_owned :: "'s hub \<Rightarrow> bool" where
  "slots_owned h \<longleftrightarrow> (\<forall>i sess. h_sessions h i = Some sess \<longrightarrow> owns_all sess)"

lemma slots_exclusive_update:
  assumes "slots_exclusive h" and "\<And>p. serves sess' p \<Longrightarrow> (\<exists>sess. h_sessions h i = Some sess \<and> serves sess p) \<or> \<not> slot_taken h p"
  shows "slots_exclusive (h\<lparr>h_sessions := (h_sessions h)(i := Some sess')\<rparr>)"
  using assms unfolding slots_exclusive_def slot_taken_def by (auto split: if_splits) (metis+)

lemma slots_exclusive_frame [simp]:
  "slots_exclusive (h\<lparr>h_redis := s\<rparr>) = slots_exclusive h"
  "slots_exclusive (h\<lparr>h_redis := s, h_state := st, h_sessions := f\<rparr>) = slots_exclusive (h\<lparr>h_sessions := f\<rparr>)"
  "slots_exclusive (h\<lparr>h_redis := s, h_sessions := f\<rparr>) = slots_exclusive (h\<lparr>h_sessions := f\<rparr>)"
  "slots_exclusive (h\<lparr>h_redis := s, h_sessions := f, h_detached := d\<rparr>) = slots_exclusive (h\<lparr>h_sessions := f\<rparr>)"
  by (simp_all add: slots_exclusive_def)

lemma serves_hput:
  "serves (sess\<lparr>forward_listeners := hput q l (forward_listeners sess)\<rparr>) p =
     (if p = q then l_accepting l else serves sess p)"
  by (simp add: serves_def)

lemma reap_idle_less: "l_accepting (reap_idle now l) \<Longrightarrow> l_accepting l"
  and reap_idle_heartbeat [simp]: "l_heartbeat (reap_idle now l) = l_heartbeat l"
  by (simp_all add: reap_idle_def split: if_splits)

lemma slots_exclusive_step:
  assumes "hub_step R C fp h h'" and "slots_exclusive h"
  shows "slots_exclusive h'"
  using assms
proof (induction rule: hub_step.induct)
  case (connect h i addr)
  then show ?case by (intro slots_exclusive_update) (auto simp: serves_def session_new_def)
next
  case (auth h i sess clk user key ok st' sess' s')
  have "serves sess' p = serves sess p" for p
    using auth_state_frame [OF auth(3)] by (simp add: serves_def)
  then show ?case using auth(1,4) by simp (intro slots_exclusive_update, auto)
next
  case (forward h i sess bind_port now now' port ok port' sess' s')
  show ?case
  proof (cases ok)
    case True
    then obtain policy live q where q: "bind_port (ucast port) = Inr q"
      and sess': "sess' = sess\<lparr>forward_listeners := hput q \<lparr>l_accepting = True, l_heartbeat = live, l_policy = policy,
           l_activity = slot_activity_new now'\<rparr> (forward_listeners sess)\<rparr>"
      using tcpip_forward_bound forward(3) by metis
    from forward(2) [OF q] have "\<not> slot_taken h q" by simp
    then show ?thesis using forward(1,4) by simp (intro slots_exclusive_update, auto simp: sess' serves_hput split: if_splits)
  next
    case False
    then have "sess' = sess" using forward(3) by (auto dest: tcpip_forward_refused)
    with False show ?thesis using forward(1,4) by simp (intro slots_exclusive_update, auto)
  qed
next
  case (cancel h i sess port ok sess')
  have "serves sess' p \<Longrightarrow> serves sess p" for p
    using cancel(2) by (auto simp: cancel_tcpip_forward_def serves_def split: option.splits if_splits)
  then show ?case using cancel by (intro slots_exclusive_update) auto
next
  case (viewer h i sess p l a now)
  then show ?case
    by (intro slots_exclusive_update) (auto simp: serves_hput serves_def split: if_splits)
next
  case (reap h i sess p l now)
  then show ?case
    by (intro slots_exclusive_update) (auto simp: serves_hput dest!: reap_idle_less split: if_splits, auto simp: serves_def)
next
  case (heartbeat h i sess p l now)
  then show ?case by simp
next
  case (disconnect h i sess)
  then show ?case unfolding slots_exclusive_def by (auto split: if_splits)
next
  case (world h s')
  then show ?case by simp
qed

lemma slots_owned_update:
  "slots_owned h \<Longrightarrow> h_sessions h' = (h_sessions h)(i := Some sess) \<Longrightarrow> owns_all sess \<Longrightarrow> slots_owned h'"
  by (simp add: slots_owned_def)

lemma slots_ownedD: "slots_owned h \<Longrightarrow> h_sessions h i = Some sess \<Longrightarrow> owns_all sess"
  by (simp add: slots_owned_def)

context storage_env
begin

lemma owns_all_hput:
  assumes "owns_all sess" and "\<exists>i. l_heartbeat l = Some i \<and> client_certificate_serial sess = Some i"
  shows "owns_all (sess\<lparr>forward_listeners := hput p l (forward_listeners sess)\<rparr>)"
  using assms by (auto simp: owns_all_def)

lemma owns_all_cancel: "cancel_tcpip_forward port sess = (ok, sess') \<Longrightarrow> owns_all sess \<Longrightarrow> owns_all sess'"
  by (auto simp: cancel_tcpip_forward_def owns_all_def split: option.splits if_splits)

lemma owns_all_forward:
  assumes fw: "tcpip_forward R C bind_port now now' st port sess s = (ok, port', sess', s')"
    and pool: "has_redis_pool st" and own: "owns_all sess"
  shows "owns_all sess'"
proof (cases ok)
  case True
  with fw obtain policy live q where gate: "slot_gate R C now st sess (ucast port) s = (Some (policy, live), s')"
    and sess': "sess' = sess\<lparr>forward_listeners := hput q \<lparr>l_accepting = True, l_heartbeat = live, l_policy = policy,
         l_activity = slot_activity_new now'\<rparr> (forward_listeners sess)\<rparr>"
    using tcpip_forward_bound by metis
  have "\<exists>i. live = Some i \<and> client_certificate_serial sess = Some i"
    by (rule slot_gate_open [OF gate pool]) simp
  then show ?thesis unfolding sess' by (intro owns_all_hput own) simp_all
next
  case False
  with fw own show ?thesis by (auto dest: tcpip_forward_refused)
qed

lemma slots_owned_step:
  assumes "hub_step R C fp h h'" and "has_redis_pool (h_state h) \<and> slots_owned h"
  shows "has_redis_pool (h_state h') \<and> slots_owned h'"
  using assms
proof (induction rule: hub_step.induct)
  case (connect h i addr)
  then show ?case by (auto simp: slots_owned_def owns_all_def session_new_def)
next
  case (auth h i sess clk user key ok st' sess' s')
  have "owns_all sess" using auth(1,4) by (blast dest: slots_ownedD)
  then have "owns_all sess'"
    using auth(2) auth_state_frame [OF auth(3)] by (auto simp: owns_all_def)
  then show ?case
    using auth(4) auth_state_frame [OF auth(3)] by (auto intro: slots_owned_update [where h = h])
next
  case (forward h i sess bind_port now now' port ok port' sess' s')
  have "owns_all sess'" using owns_all_forward [OF forward(3)] forward(1,4) slots_ownedD by blast
  then show ?case using forward(4) by (auto intro: slots_owned_update [where h = h])
next
  case (cancel h i sess port ok sess')
  have "owns_all sess'" using owns_all_cancel [OF cancel(2)] cancel(1,3) slots_ownedD by blast
  then show ?case using cancel(3) by (auto intro: slots_owned_update [where h = h])
next
  case (viewer h i sess p l a now)
  have own: "owns_all sess" using viewer(1,4) slots_ownedD by blast
  then have "owns_all (sess\<lparr>forward_listeners := hput p (l\<lparr>l_activity := a\<rparr>) (forward_listeners sess)\<rparr>)"
    using viewer(2) by (intro owns_all_hput) (auto simp: owns_all_def)
  then show ?case using viewer(4) by (auto intro: slots_owned_update [where h = h])
next
  case (reap h i sess p l now)
  have own: "owns_all sess" using reap(1,3) slots_ownedD by blast
  then have "owns_all (sess\<lparr>forward_listeners := hput p (reap_idle now l) (forward_listeners sess)\<rparr>)"
    using reap(2) by (intro owns_all_hput) (auto simp: owns_all_def)
  then show ?case using reap(3) by (auto intro: slots_owned_update [where h = h])
next
  case (heartbeat h i sess p l now)
  then show ?case by (simp add: slots_owned_def)
next
  case (disconnect h i sess)
  then show ?case by (auto simp: slots_owned_def)
next
  case (world h s')
  then show ?case by (simp add: slots_owned_def)
qed

end

lemma slots_exclusive_reachable:
  "(hub_step R C fp)\<^sup>*\<^sup>* h h' \<Longrightarrow> hub_initial h \<Longrightarrow> slots_exclusive h'"
  by (induction rule: rtranclp_induct)
    (auto simp: hub_initial_def slots_exclusive_def [of h] intro: slots_exclusive_step)

lemma slots_owned_reachable:
  assumes env: "storage_env R view C"
  shows "(hub_step R C fp)\<^sup>*\<^sup>* h h' \<Longrightarrow> hub_initial h \<Longrightarrow> has_redis_pool (h_state h) \<Longrightarrow> slots_owned h'"
proof -
  assume "(hub_step R C fp)\<^sup>*\<^sup>* h h'" and "hub_initial h" and "has_redis_pool (h_state h)"
  then have "has_redis_pool (h_state h') \<and> slots_owned h'"
  proof (induction rule: rtranclp_induct)
    case base
    then show ?case by (simp add: hub_initial_def slots_owned_def)
  next
    case (step y z)
    then show ?case using storage_env.slots_owned_step [OF env step(2)] by blast
  qed
  then show ?thesis ..
qed

section \<open>A worked example\<close>

definition hub_demo_session :: SessionData where
  "hub_demo_session = \<lparr> sd_github_user_id = ''u1'', sd_public_key = ''pk'', sd_fingerprint = ''SHA256:k'',
     sd_expires_at = 600000000000, sd_session_id = ''1'' \<rparr>"

definition hub_demo_codec :: codec where
  "hub_demo_codec = tab_codec [demo_tunnel 1 ''u1''] [demo_lookup ''u1'' [''1'']] [hub_demo_session]"

definition hub_demo_store :: mem_state where
  "hub_demo_store = [(tunnel_key ''1'', (''0'', Some 600000000000)), (lookup_key ''u1'', (''0'', None)),
     (''session:1'', (''0'', Some 660000000000))]"

definition hub_demo_state :: SshServerState where
  "hub_demo_state = \<lparr> brute_force_protection = \<lparr> bf_attempts = [], bf_lockouts = [] \<rparr>,
     redis_auth_handler = Some ''session'', has_redis_pool = True, insecure_accept_all_keys = False,
     max_auth_attempts = 3, auth_lockout_duration = from_secs 300 \<rparr>"

definition hub_demo_peer :: socketaddr where
  "hub_demo_peer = \<lparr> sa_ip = V4 1, sa_port = 40000 \<rparr>"

lemma hub_demo_env: "storage_env mem_redis mem_view hub_demo_codec"
  unfolding hub_demo_codec_def by (rule mem_env.storage_env_axioms)

lemma hub_demo_de:
  "de_lookup hub_demo_codec ''0'' = Inr (demo_lookup ''u1'' [''1''])"
  "de_session hub_demo_codec ''0'' = Inr hub_demo_session"
  by (simp_all add: hub_demo_codec_def tab_codec_def tab_de_def parse_nat_def is_ascii_digit_def undec_def digit_val_def)

lemma hub_demo_info:
  "\<exists>info. de_info hub_demo_codec ''0'' = Inr info \<and> ti_id info = ''1'' \<and> ti_slot info = 20000 \<and> ti_teardown_policy info = TtlOnly"
  by (simp add: hub_demo_codec_def tab_codec_def tab_de_def parse_nat_def is_ascii_digit_def undec_def digit_val_def
      demo_tunnel_def Tunnel_new_def dec.simps digit_char_def)

lemma hub_demo_scan:
  "\<exists>info. get_tunnel_by_slot mem_redis hub_demo_codec 7 20000 hub_demo_store = (Inr (Some info), hub_demo_store)
     \<and> ti_id info = ''1'' \<and> ti_teardown_policy info = TtlOnly"
proof -
  obtain info where info: "de_info hub_demo_codec ''0'' = Inr info" "ti_id info = ''1''" "ti_slot info = 20000"
    "ti_teardown_policy info = TtlOnly" using hub_demo_info by blast
  have keys: "r_keys mem_redis 7 (''tunnel_lookup:'' @ ''*'') hub_demo_store = (Inr [lookup_key ''u1''], hub_demo_store)"
    by (simp add: mem_ops hub_demo_store_def mem_view_def key_defs)
  have get: "mem_view hub_demo_store 7 (lookup_key ''u1'') = Some ''0''" "mem_view hub_demo_store 7 (tunnel_key ''1'') = Some ''0''"
    by (simp_all add: hub_demo_store_def mem_view_def)
  have "lk_tunnels (demo_lookup ''u1'' [''1'']) = [''1'']" by (simp add: demo_lookup_def)
  with info keys get show ?thesis
    by (simp add: get_tunnel_by_slot_def scan_tunnels_def connect_def seq_act_def bind_act_def map_err_def
        hub_demo_de mem_ops(1,2))
qed

lemma hub_demo_auth:
  "auth_publickey mem_redis hub_demo_codec (\<lambda>k. k) int ''tunnel-1'' ''SHA256:k'' hub_demo_state (session_new hub_demo_peer) hub_demo_store
     = (True,
        hub_demo_state\<lparr>brute_force_protection := record_attempt 3 4
           \<lparr> aa_timestamp = 2, aa_client_addr = hub_demo_peer, aa_success = True, aa_certificate_serial = Some ''1'',
             aa_failure_reason = None \<rparr> 3 (from_secs 300) (brute_force_protection hub_demo_state)\<rparr>,
        (session_new hub_demo_peer)\<lparr>client_certificate_serial := Some ''1''\<rparr>, hub_demo_store)"
proof -
  have sid: "session_id_of ''tunnel-1'' = ''1''" by (simp add: session_id_of_def strip_prefix_str_def)
  have ok: "is_valid_session_id ''1''"
    by (simp add: is_valid_session_id_def is_ascii_alphanumeric_def is_ascii_digit_def is_ascii_lowercase_def)
  have get: "mem_view hub_demo_store 1 ''session:1'' = Some ''0''"
    by (simp add: hub_demo_store_def mem_view_def key_defs)
  have "key_accepted mem_redis hub_demo_codec (\<lambda>k. k) 1 hub_demo_state ''SHA256:k'' ''1'' hub_demo_store = (True, hub_demo_store)"
    by (simp add: key_accepted_def hub_demo_state_def validate_public_key_def seq_act_def bind_act_def map_err_def mem_ops(1,2)
        get hub_demo_de hub_demo_session_def)
  then show ?thesis
    by (simp add: auth_publickey_def sid ok is_locked_out_def hub_demo_state_def session_new_def Let_def)
qed

section \<open>Properties\<close>

text \<open>
  C5: over every interleaving of connections, authentications, forward and cancel requests, viewers, reaper
  wake-ups, heartbeats, disconnects and changes other services make in Redis, a slot is served by at most
  one session, and on a hub with Redis every slot listener belongs to the session that authenticated as
  the tunnel whose liveness the listener publishes.
\<close>

theorem slots_served_by_owner:
  assumes env: "storage_env R view C" and init: "hub_initial h" and pool: "has_redis_pool (h_state h)"
    and reach: "(hub_step R C fp)\<^sup>*\<^sup>* h h'"
  shows "slots_exclusive h' \<and> slots_owned h'"
  using slots_exclusive_reachable [OF reach init] slots_owned_reachable [OF env reach init pool] by blast

definition hub_demo :: "mem_state hub" where
  "hub_demo = \<lparr> h_redis = hub_demo_store, h_state = hub_demo_state, h_sessions = (\<lambda>_. None), h_detached = [] \<rparr>"

theorem slots_served_by_owner_witness:
  "\<exists>h' sess. (hub_step mem_redis hub_demo_codec (\<lambda>k. k :: string))\<^sup>*\<^sup>* hub_demo h'
      \<and> h_sessions h' 0 = Some sess \<and> serves sess 20000 \<and> slots_exclusive h' \<and> slots_owned h'"
proof -
  let ?step = "hub_step mem_redis hub_demo_codec (\<lambda>k. k :: string)"
  let ?h1 = "hub_demo\<lparr>h_sessions := (h_sessions hub_demo)(0 := Some (session_new hub_demo_peer))\<rparr>"
  let ?sess = "(session_new hub_demo_peer)\<lparr>client_certificate_serial := Some ''1''\<rparr>"
  obtain st2 where au: "auth_publickey mem_redis hub_demo_codec (\<lambda>k. k) int ''tunnel-1'' ''SHA256:k'' hub_demo_state
      (session_new hub_demo_peer) hub_demo_store = (True, st2, ?sess, hub_demo_store)" and pool: "has_redis_pool st2"
    using hub_demo_auth by (simp add: hub_demo_state_def)
  let ?h2 = "?h1\<lparr>h_redis := hub_demo_store, h_state := st2, h_sessions := (h_sessions ?h1)(0 := Some ?sess)\<rparr>"
  obtain sess3 where fw: "tcpip_forward mem_redis hub_demo_codec Inr 7 8 st2 20000 ?sess hub_demo_store = (True, 20000, sess3, hub_demo_store)"
    and srv: "serves sess3 20000"
    using hub_demo_scan pool by (auto simp: tcpip_forward_def slot_gate_def session_new_def serves_def)
  let ?h3 = "?h2\<lparr>h_redis := hub_demo_store, h_sessions := (h_sessions ?h2)(0 := Some sess3),
      h_detached := (if True then detached_by ?sess (ucast (20000 :: u32)) else []) @ h_detached ?h2\<rparr>"
  have s1: "?step hub_demo ?h1" by (rule hub_step.connect) (simp add: hub_demo_def)
  have s2: "?step ?h1 ?h2"
    by (rule hub_step.auth [where i = 0 and clk = int and user = "''tunnel-1''" and key = "''SHA256:k''"])
      (use au in \<open>simp_all add: hub_demo_def session_new_def\<close>)
  have free: "\<not> slot_taken ?h2 q" for q
    by (auto simp: slot_taken_def serves_def session_new_def hub_demo_def split: if_splits)
  have s3: "?step ?h2 ?h3"
    by (rule hub_step.forward [where i = 0 and bind_port = Inr and now = 7 and now' = 8 and port = 20000])
      (use free fw in simp_all)
  have reach: "?step\<^sup>*\<^sup>* hub_demo ?h3" using s1 s2 s3 by (meson rtranclp.rtrancl_into_rtrancl rtranclp.rtrancl_refl)
  have "hub_initial hub_demo" "has_redis_pool (h_state hub_demo)"
    by (simp_all add: hub_initial_def hub_demo_def hub_demo_state_def)
  from slots_served_by_owner [OF hub_demo_env this reach] reach srv show ?thesis
    by (intro exI [of _ ?h3] exI [of _ sess3]) simp
qed

text \<open>
  C7: on a hub with Redis, a forward request succeeds only when the session has authenticated as the very
  tunnel whose listed record holds the requested slot; the session then gains exactly the listener for
  the port the system bound, with the record's policy and publishing under the record's id.  A refused
  request leaves the session as it was.
\<close>

theorem forward_requires_ownership:
  assumes env: "storage_env R view C" and pool: "has_redis_pool st"
    and fw: "tcpip_forward R C bind_port now now' st port sess s = (ok, port', sess', s')"
  shows "if ok
         then \<exists>info q. listed C (view s now) info \<and> ti_slot info = ucast port
                \<and> client_certificate_serial sess = Some (ti_id info)
                \<and> bind_port (ucast port) = Inr q \<and> port' = ucast q
                \<and> sess' = sess\<lparr>forward_listeners := hput q \<lparr>l_accepting = True, l_heartbeat = Some (ti_id info),
                     l_policy = ti_teardown_policy info, l_activity = slot_activity_new now'\<rparr> (forward_listeners sess)\<rparr>
         else sess' = sess \<and> port' = port"
proof (cases ok)
  case True
  with fw obtain policy live q where gate: "slot_gate R C now st sess (ucast port) s = (Some (policy, live), s')"
    and bound: "bind_port (ucast port) = Inr q" "port' = ucast q"
    and sess': "sess' = sess\<lparr>forward_listeners := hput q \<lparr>l_accepting = True, l_heartbeat = live, l_policy = policy,
         l_activity = slot_activity_new now'\<rparr> (forward_listeners sess)\<rparr>"
    using tcpip_forward_bound by metis
  show ?thesis
    by (rule storage_env.slot_gate_open [OF env gate pool]) (use True bound sess' in auto)
next
  case False
  with fw show ?thesis by (auto dest: tcpip_forward_refused)
qed

theorem forward_requires_ownership_witness:
  "\<exists>info. listed hub_demo_codec (mem_view hub_demo_store 7) info \<and> ti_slot info = 20000 \<and> ti_id info = ''1''"
proof -
  let ?sess = "(session_new hub_demo_peer)\<lparr>client_certificate_serial := Some ''1''\<rparr>"
  obtain port' sess' s' where
    fw: "tcpip_forward mem_redis hub_demo_codec Inr 7 8 hub_demo_state 20000 ?sess hub_demo_store = (True, port', sess', s')"
    using hub_demo_scan
    by (auto simp: tcpip_forward_def slot_gate_def hub_demo_state_def session_new_def)
  have "has_redis_pool hub_demo_state" by (simp add: hub_demo_state_def)
  from forward_requires_ownership [OF hub_demo_env this fw] show ?thesis by (auto simp: session_new_def)
qed

text \<open>
  C11: a key is accepted only when the peer is not locked out, the session id of the user name is well
  formed, and either the session stored under that id is unexpired and names the fingerprint of the
  presented key, or the hub has no Redis authentication and runs with the explicit insecure flag; the
  connection is then bound to that session id.  A rejected attempt binds nothing.
\<close>

theorem accepted_key_matches_session:
  assumes env: "storage_env R view C"
    and au: "auth_publickey R C fp clk user key st sess s = (ok, st', sess', s')"
  shows "if ok
         then \<not> is_locked_out (clk 0) (peer_addr sess) (auth_lockout_duration st) (brute_force_protection st)
            \<and> is_valid_session_id (session_id_of user)
            \<and> client_certificate_serial sess' = Some (session_id_of user)
            \<and> (case redis_auth_handler st of
                 Some pre \<Rightarrow> (\<exists>data session. view s (clk 1) (pre @ '':'' @ session_id_of user) = Some data
                   \<and> de_session C data = Inr session \<and> clk 1 \<le> sd_expires_at session \<and> fp key = sd_fingerprint session)
               | None \<Rightarrow> insecure_accept_all_keys st)
         else sess' = sess"
proof (cases ok)
  case True
  with au have "auth_publickey R C fp clk user key st sess s = (True, st', sess', s')" by simp
  from storage_env.auth_publickey_accepts [OF env this] True show ?thesis by simp
next
  case False
  with auth_state_frame [OF au] show ?thesis by simp
qed

theorem accepted_key_matches_session_witness:
  "is_valid_session_id (session_id_of ''tunnel-1'')
   \<and> (\<exists>data. mem_view hub_demo_store 1 ''session:1'' = Some data)"
  using accepted_key_matches_session [OF hub_demo_env hub_demo_auth]
  by (simp add: hub_demo_state_def session_id_of_def strip_prefix_str_def) blast


definition hub_failed_attempt :: "instant \<Rightarrow> AuthAttempt" where
  "hub_failed_attempt t = \<lparr> aa_timestamp = t, aa_client_addr = hub_demo_peer, aa_success = False,
     aa_certificate_serial = Some ''1'', aa_failure_reason = Some ''key validation failed'' \<rparr>"

definition hub_locked_state :: SshServerState where
  "hub_locked_state = hub_demo_state\<lparr>brute_force_protection := record_all 3 (from_secs 300)
     ([(10, 11, hub_failed_attempt 10), (20, 21, hub_failed_attempt 20)] @ [(30, 31, hub_failed_attempt 30)])
     \<lparr> bf_attempts = [], bf_lockouts = [] \<rparr>\<rparr>"


text \<open>
  The lockout is kept per socket address: attempts of any other socket address, including those from the
  same host on another source port, never change whether a peer is locked out.
\<close>

lemma lockout_is_per_socket_address:
  assumes "addr \<notin> fst ` set ops"
  shows "is_locked_out now addr lockout (fold (\<lambda>(addr, x). peer_attempt m lockout addr x) ops b)
       = is_locked_out now addr lockout b"
proof -
  have "peer_record (fold (\<lambda>(addr, x). peer_attempt m lockout addr x) ops b) addr = peer_record b addr"
    by (rule bf.run_other [OF assms])
  then show ?thesis by (simp add: peer_record_def is_locked_out_def)
qed

lemma lockout_is_per_socket_address_witness:
  "\<not> is_locked_out 40 (hub_demo_peer\<lparr>sa_port := 40001\<rparr>) (from_secs 300)
     (fold (\<lambda>(addr, x). peer_attempt 1 (from_secs 300) addr x) [(hub_demo_peer, (10, 11, hub_failed_attempt 10))]
        \<lparr> bf_attempts = [], bf_lockouts = [] \<rparr>)"
  by (subst lockout_is_per_socket_address) (simp_all add: hub_demo_peer_def is_locked_out_def)

text \<open>
  The viewer-idle reaper stops the accept loop of a listener but not its heartbeat: a listener that was
  reaped goes on publishing, so its tunnel keeps being reported as live although no slot is served.
\<close>

lemma reaped_listener_still_reported_live:
  assumes srv: "redis_server R view"
    and idle: "l_policy l = ViewerIdle" "sa_active (l_activity l) = 0"
      "idle_for now (l_activity l) \<ge> VIEWER_IDLE_TEARDOWN"
    and beat: "l_heartbeat l = Some i"
    and pub: "mark_tunnel_live R t i (of_nat (as_secs TUNNEL_LIVE_TTL)) s = (Inr u, s1)"
    and rd: "dir_is_tunnel_live R t' i (publish_liveness R t (reap_idle now l) s) = (Inr b, s2)"
    and soon: "t \<le> t'" "t' < after_secs t 45"
  shows "\<not> l_accepting (reap_idle now l) \<and> b"
proof -
  have "publish_liveness R t (reap_idle now l) s = s1"
    using pub beat by (simp add: publish_liveness_def)
  with rd have rd1: "dir_is_tunnel_live R t' i s1 = (Inr b, s2)" by simp
  then obtain v where g: "get_string R t' (tunnel_live_key i) s1 = (Inr v, s2)" and b: "b = (v \<noteq> None)"
    by (auto simp: dir_is_tunnel_live_def act_ok)
  have ttl: "unat (of_nat (as_secs TUNNEL_LIVE_TTL) :: u64) = 45"
    by (simp add: as_secs_def TUNNEL_LIVE_TTL_def from_secs_def nanos_per_sec_def)
  have "v = live_until (after_secs t 45) ''1'' t'"
    using string_store.fetch_after_put [OF redis_server.helpers_string_store [OF srv] pub [unfolded mark_tunnel_live_def] g soon(1)]
    by (simp only: ttl)
  with b soon idle show ?thesis by (simp add: reap_idle_def should_teardown_idle_def)
qed

lemma reaped_listener_still_reported_live_witness:
  "\<exists>l. l_accepting l \<and> \<not> l_accepting (reap_idle 60000000000 l)
     \<and> fst (dir_is_tunnel_live mem_redis 60000000002 ''1'' (publish_liveness mem_redis 60000000001 (reap_idle 60000000000 l) [])) = Inr True"
proof -
  let ?l = "\<lparr>l_accepting = True, l_heartbeat = Some ''1'', l_policy = ViewerIdle, l_activity = slot_activity_new 0\<rparr>"
  let ?s1 = "[(tunnel_live_key ''1'', (''1'', Some (after_secs 60000000001 45)))]"
  have idle: "idle_for 60000000000 (l_activity ?l) \<ge> VIEWER_IDLE_TEARDOWN"
    by (simp add: idle_for_def slot_activity_new_def duration_since_def VIEWER_IDLE_TEARDOWN_def from_secs_def nanos_per_sec_def)
  have pub: "mark_tunnel_live mem_redis 60000000001 ''1'' (of_nat (as_secs TUNNEL_LIVE_TTL)) [] = (Inr (), ?s1)"
    by (simp add: mark_tunnel_live_def set_string_ex_def connect_def mem_eval hput_def as_secs_def TUNNEL_LIVE_TTL_def
        from_secs_def nanos_per_sec_def)
  obtain b s2 where rd: "dir_is_tunnel_live mem_redis 60000000002 ''1'' (publish_liveness mem_redis 60000000001 (reap_idle 60000000000 ?l) []) = (Inr b, s2)"
    by (simp add: dir_is_tunnel_live_def get_string_def connect_def mem_ops(1,2) seq_act_def bind_act_def map_err_def)
  have "\<not> l_accepting (reap_idle 60000000000 ?l) \<and> b"
    by (rule reaped_listener_still_reported_live [OF mem.redis_server_axioms _ _ idle _ pub rd])
      (simp_all add: slot_activity_new_def after_secs_def)
  with rd show ?thesis by (intro exI [of _ ?l]) simp
qed

end
