(* ===== verification/Edge_Router.thy ===== *)
theory Edge_Router
  imports Tunnel_Directory
begin

text \<open>
  The public HTTPS router of the edge, \<open>cmd/edgehub-bin/src/main.rs\<close>: the subdomain of an SNI name, the
  bounded read of the first request head, the cookie search, the minimal HTTP error answer, and
  \<open>handle_router_connection\<close>, which routes one TLS connection to the slot listener of its tunnel and, for
  a protected tunnel, only behind a live session grant.

  The network is an argument: what rustls reports for the ClientHello and the handshake, what the reads
  on the decrypted stream return, and how dialling the slot and replaying the head end.  The reads are
  the list of what arrives while the header timeout of ten seconds runs; when the list is used up the
  next read does not return and the timeout fires.  The lookup and the grant check run at the instants
  \<open>clk 0\<close> and \<open>clk 1\<close>.

  The lemmas show that the head reader loses no byte and keeps its buffer bounded, that the cookie search
  is a lookup in the list of the request's cookies, and when bytes reach a slot.
\<close>

section \<open>Names, heads and cookies\<close>

definition subdomain_from_sni :: "string \<Rightarrow> string" where
  "subdomain_from_sni sni = hd (split_on CHR ''.'' sni)"

definition MAX_HEADER_BYTES :: nat where "MAX_HEADER_BYTES = 16 * 1024"

definition HEADER_READ_TIMEOUT :: duration where "HEADER_READ_TIMEOUT = from_secs 10"

definition SESSION_COOKIE_NAME :: string where "SESSION_COOKIE_NAME = ''fdns_session''"

definition crlf :: string where "crlf = [CHR 0x0D, CHR 0x0A]"

datatype io_error = InvalidData | UnexpectedEof | TimedOut | ReadFailed string

text \<open>
  What a read on the stream returns: an error, or the bytes at hand, of which one call takes as many as
  fit in its 2048-byte chunk; no bytes is the end of the stream.
\<close>

type_synonym reads = "(string + string) list"

definition chunk_size :: nat where "chunk_size = 2048"

definition reads_size :: "reads \<Rightarrow> nat" where
  "reads_size rs = sum_list (map (\<lambda>r. case r of Inl e \<Rightarrow> 1 | Inr b \<Rightarrow> Suc (length b)) rs)"

function read_request_head :: "reads \<Rightarrow> string \<Rightarrow> (io_error + unit) \<times> string \<times> reads" where
  "read_request_head rs buf =
     (if contains_seq (crlf @ crlf) buf then (Inr (), buf, rs)
      else if length buf > MAX_HEADER_BYTES then (Inl InvalidData, buf, rs)
      else
        (case rs of
           [] \<Rightarrow> (Inl TimedOut, buf, [])
         | Inl e # rs' \<Rightarrow> (Inl (ReadFailed e), buf, rs')
         | Inr b # rs' \<Rightarrow>
             if b = [] then (Inl UnexpectedEof, buf, rs')
             else read_request_head
                    (if length b > chunk_size then Inr (drop chunk_size b) # rs' else rs')
                    (buf @ take chunk_size b)))"
  by pat_completeness auto

termination read_request_head
  by (relation "measure (\<lambda>(rs, buf). reads_size rs)") (auto simp: reads_size_def chunk_size_def)

declare read_request_head.simps [simp del]

fun cookie_in_pairs :: "string list \<Rightarrow> string \<Rightarrow> string option" where
  "cookie_in_pairs [] name = None"
| "cookie_in_pairs (pair # pairs) name =
     (case split_once CHR ''='' (trim pair) of
        Some (ck, cv) \<Rightarrow> if trim ck = name then Some (trim cv) else cookie_in_pairs pairs name
      | None \<Rightarrow> cookie_in_pairs pairs name)"

fun cookie_in_lines :: "string list \<Rightarrow> string \<Rightarrow> string option" where
  "cookie_in_lines [] name = None"
| "cookie_in_lines (line # ls) name =
     (case split_once CHR '':'' line of
        None \<Rightarrow> cookie_in_lines ls name
      | Some (key, value) \<Rightarrow>
          if \<not> eq_ignore_ascii_case (trim key) ''cookie'' then cookie_in_lines ls name
          else (case cookie_in_pairs (split_on CHR '';'' value) name of
                  Some v \<Rightarrow> Some v
                | None \<Rightarrow> cookie_in_lines ls name))"

definition cookie_from_request_head :: "string \<Rightarrow> string \<Rightarrow> string option" where
  "cookie_from_request_head head name = cookie_in_lines (lines head) name"

section \<open>Lossy decoding\<close>

text \<open>
  \<open>String::from_utf8_lossy\<close>: each maximal part of an ill-formed sequence becomes one replacement
  character.  \<open>utf8_step\<close> gives the bytes taken at the head of a text and whether they are a character.
\<close>

definition utf8_width :: "nat \<Rightarrow> nat" where
  "utf8_width b =
     (if b < 128 then 1 else if 0xC2 \<le> b \<and> b \<le> 0xDF then 2 else if 0xE0 \<le> b \<and> b \<le> 0xEF then 3
      else if 0xF0 \<le> b \<and> b \<le> 0xF4 then 4 else 0)"

definition utf8_second :: "nat \<Rightarrow> nat \<Rightarrow> bool" where
  "utf8_second b c =
     (if b = 0xE0 then 0xA0 \<le> c \<and> c \<le> 0xBF else if b = 0xED then 0x80 \<le> c \<and> c \<le> 0x9F
      else if b = 0xF0 then 0x90 \<le> c \<and> c \<le> 0xBF else if b = 0xF4 then 0x80 \<le> c \<and> c \<le> 0x8F
      else 0x80 \<le> c \<and> c \<le> 0xBF)"

definition utf8_cont :: "nat \<Rightarrow> bool" where
  "utf8_cont c = (0x80 \<le> c \<and> c \<le> 0xBF)"

definition utf8_step :: "string \<Rightarrow> nat \<times> bool" where
  "utf8_step s =
     (let w = utf8_width (byte_of (hd s)) in
      if w \<le> 1 then (1, w = 1)
      else if length s < 2 \<or> \<not> utf8_second (byte_of (hd s)) (byte_of (s ! 1)) then (1, False)
      else if w = 2 then (2, True)
      else if length s < 3 \<or> \<not> utf8_cont (byte_of (s ! 2)) then (2, False)
      else if w = 3 then (3, True)
      else if length s < 4 \<or> \<not> utf8_cont (byte_of (s ! 3)) then (3, False)
      else (4, True))"

function from_utf8_lossy :: "string \<Rightarrow> string" where
  "from_utf8_lossy s =
     (if s = [] then []
      else (case utf8_step s of (n, ok) \<Rightarrow>
              (if ok then take n s else [CHR 0xEF, CHR 0xBF, CHR 0xBD]) @ from_utf8_lossy (drop n s)))"
  by pat_completeness auto

termination from_utf8_lossy
  by (relation "measure length") (auto simp: utf8_step_def Let_def split: if_splits)

declare from_utf8_lossy.simps [simp del]

section \<open>One connection\<close>

text \<open>The bytes of the error answer.\<close>

definition http_status :: "string \<Rightarrow> string \<Rightarrow> string" where
  "http_status status_line body =
     ''HTTP/1.1 '' @ status_line @ crlf @ ''Content-Type: text/plain'' @ crlf
     @ ''Content-Length: '' @ dec (length body) @ crlf @ ''Connection: close'' @ crlf @ crlf @ body"

datatype status = Bad_Request | Missing_Sni | Not_Found | Internal_Error | Forbidden | Bad_Gateway | Gateway_Timeout

definition newline :: string where "newline = [CHR 0x0A]"

fun status_answer :: "status \<Rightarrow> string" where
  "status_answer Bad_Request = http_status ''400 Bad Request'' (''400 Bad Request'' @ newline)"
| "status_answer Missing_Sni = http_status ''400 Bad Request'' (''400 Bad Request: missing SNI'' @ newline)"
| "status_answer Not_Found = http_status ''404 Not Found'' (''404 Not Found'' @ newline)"
| "status_answer Internal_Error = http_status ''500 Internal Server Error'' (''500 Internal Server Error'' @ newline)"
| "status_answer Forbidden = http_status ''403 Forbidden'' (''403 Forbidden'' @ newline)"
| "status_answer Bad_Gateway = http_status ''502 Bad Gateway'' (''502 Bad Gateway'' @ newline)"
| "status_answer Gateway_Timeout = http_status ''504 Gateway Timeout'' (''504 Gateway Timeout'' @ newline)"

datatype dial = Connected | Dial_failed string | Dial_timeout

record connection =
  c_hello :: "string + string option"
  c_handshake :: "string + unit"
  c_reads :: reads

record network =
  n_dial :: "u16 \<Rightarrow> dial"
  n_replay :: "u16 \<Rightarrow> string \<Rightarrow> string + unit"

text \<open>
  How a connection ends: closed without an answer, answered with a status, or spliced to a slot, where
  the slot receives the replayed bytes and then what the remaining reads deliver.
\<close>

datatype outcome = Closed | Answered status | Spliced u16 string reads

text \<open>The grant check of a protected tunnel: a refusal, or the bytes to replay and the remaining reads.\<close>

definition authorize_viewer ::
  "'s redis \<Rightarrow> instant \<Rightarrow> string \<Rightarrow> bool \<Rightarrow> reads \<Rightarrow> ('s, status, string \<times> reads) act" where
  "authorize_viewer R now subdomain protected rs s =
     (if protected then
        (case read_request_head rs [] of
           (Inl e, buf, rs') \<Rightarrow> (Inl Bad_Request, s)
         | (Inr u, replay_buf, rs') \<Rightarrow>
             (case cookie_from_request_head (from_utf8_lossy replay_buf) SESSION_COOKIE_NAME of
                None \<Rightarrow> (Inl Forbidden, s)
              | Some token \<Rightarrow>
                  (case check_session_grant R now subdomain token s of
                     (Inl e, s') \<Rightarrow> (Inl Internal_Error, s')
                   | (Inr authorized, s') \<Rightarrow>
                       if \<not> authorized then (Inl Forbidden, s') else (Inr (replay_buf, rs'), s'))))
      else (Inr ([], rs), s))"

definition splice :: "network \<Rightarrow> u16 \<Rightarrow> string \<Rightarrow> reads \<Rightarrow> outcome" where
  "splice net slot replay_buf rs =
     (case n_dial net slot of
        Dial_failed e \<Rightarrow> Answered Bad_Gateway
      | Dial_timeout \<Rightarrow> Answered Gateway_Timeout
      | Connected \<Rightarrow>
          if replay_buf \<noteq> [] \<and> \<not> is_ok (n_replay net slot replay_buf) then Answered Bad_Gateway
          else Spliced slot replay_buf rs)"

definition handle_router_connection ::
  "'s redis \<Rightarrow> codec \<Rightarrow> (nat \<Rightarrow> instant) \<Rightarrow> network \<Rightarrow> connection \<Rightarrow> 's \<Rightarrow> outcome \<times> 's" where
  "handle_router_connection R C clk net conn s =
     (case c_hello conn of
        Inl e \<Rightarrow> (Closed, s)
      | Inr sni \<Rightarrow>
        (case c_handshake conn of
           Inl e \<Rightarrow> (Closed, s)
         | Inr u \<Rightarrow>
           (case sni of
              None \<Rightarrow> (Answered Missing_Sni, s)
            | Some sni \<Rightarrow>
                let subdomain = subdomain_from_sni sni in
                (case dir_get_tunnel_by_subdomain R C (clk 0) subdomain s of
                   (Inl e, s1) \<Rightarrow> (Answered Internal_Error, s1)
                 | (Inr None, s1) \<Rightarrow> (Answered Not_Found, s1)
                 | (Inr (Some info), s1) \<Rightarrow>
                     (case authorize_viewer R (clk 1) subdomain (ti_protected info) (c_reads conn) s1 of
                        (Inl st, s2) \<Rightarrow> (Answered st, s2)
                      | (Inr (replay_buf, rs), s2) \<Rightarrow> (splice net (ti_slot info) replay_buf rs, s2))))))"

section \<open>The request head\<close>

text \<open>All bytes a list of reads delivers before an error or the end of the stream.\<close>

fun delivered :: "reads \<Rightarrow> string" where
  "delivered [] = []"
| "delivered (Inl e # rs) = []"
| "delivered (Inr b # rs) = (if b = [] then [] else b @ delivered rs)"

lemma delivered_chunk:
  "b \<noteq> [] \<Longrightarrow> take chunk_size b @ delivered (if length b > chunk_size then Inr (drop chunk_size b) # rs else rs)
    = delivered (Inr b # rs)"
  by (simp add: chunk_size_def flip: append_assoc)

lemma read_request_head_ok:
  "read_request_head rs buf = (Inr u, buf', rs') \<Longrightarrow>
     contains_seq (crlf @ crlf) buf' \<and> buf' @ delivered rs' = buf @ delivered rs"
proof (induction rs buf rule: read_request_head.induct)
  case (1 rs buf)
  show ?case
  proof (cases "contains_seq (crlf @ crlf) buf \<or> length buf > MAX_HEADER_BYTES")
    case True
    with "1.prems" show ?thesis by (subst (asm) read_request_head.simps) (auto split: if_splits)
  next
    case False
    then obtain b rs1 where rs: "rs = Inr b # rs1" "b \<noteq> []"
      and rec: "read_request_head (if length b > chunk_size then Inr (drop chunk_size b) # rs1 else rs1)
                  (buf @ take chunk_size b) = (Inr u, buf', rs')"
      using "1.prems" by (subst (asm) read_request_head.simps) (auto split: if_splits list.splits sum.splits)
    then show ?thesis
      using False "1.IH" [OF _ _ rs(1) refl rs(2) rec] delivered_chunk [OF rs(2), of rs1] by simp
  qed
qed

lemma read_request_head_bound:
  "length buf \<le> MAX_HEADER_BYTES + chunk_size \<Longrightarrow>
   read_request_head rs buf = (r, buf', rs') \<Longrightarrow> length buf' \<le> MAX_HEADER_BYTES + chunk_size"
proof (induction rs buf rule: read_request_head.induct)
  case (1 rs buf)
  show ?case
  proof (cases "contains_seq (crlf @ crlf) buf \<or> length buf > MAX_HEADER_BYTES \<or> (\<forall>b rs1. rs = Inr b # rs1 \<longrightarrow> b = [])")
    case True
    with "1.prems" show ?thesis
      by (subst (asm) read_request_head.simps) (auto split: if_splits list.splits sum.splits)
  next
    case False
    then obtain b rs1 where rs: "rs = Inr b # rs1" "b \<noteq> []" by auto
    with False "1.prems"(2) have rec: "read_request_head (if length b > chunk_size then Inr (drop chunk_size b) # rs1 else rs1)
                  (buf @ take chunk_size b) = (r, buf', rs')"
      by (subst (asm) read_request_head.simps) simp
    have "length (buf @ take chunk_size b) \<le> MAX_HEADER_BYTES + chunk_size"
      using False by (simp add: min_def)
    with False show ?thesis using "1.IH" [OF _ _ rs(1) refl rs(2) _ rec] by blast
  qed
qed

lemma contains_seq_prefix: "contains_seq pat s \<Longrightarrow> prefix s t \<Longrightarrow> contains_seq pat t"
  unfolding contains_seq_sublist using sublist_order.order.trans prefix_imp_sublist by blast

lemma read_request_head_complete:
  "contains_seq (crlf @ crlf) (take MAX_HEADER_BYTES (buf @ delivered rs)) \<Longrightarrow>
   \<exists>buf' rs'. read_request_head rs buf = (Inr (), buf', rs')"
proof (induction rs buf rule: read_request_head.induct)
  case (1 rs buf)
  show ?case
  proof (cases "contains_seq (crlf @ crlf) buf")
    case True
    then show ?thesis by (subst read_request_head.simps) simp
  next
    case False
    have short: "\<not> length buf > MAX_HEADER_BYTES"
    proof
      assume "length buf > MAX_HEADER_BYTES"
      then have "prefix (take MAX_HEADER_BYTES (buf @ delivered rs)) buf" by (simp add: take_is_prefix)
      with "1.prems" False show False using contains_seq_prefix by blast
    qed
    have "delivered rs \<noteq> []"
    proof
      assume "delivered rs = []"
      then have "prefix (take MAX_HEADER_BYTES (buf @ delivered rs)) buf" by (simp add: take_is_prefix)
      with "1.prems" False show False using contains_seq_prefix by blast
    qed
    then obtain b rs1 where rs: "rs = Inr b # rs1" "b \<noteq> []"
      by (cases rs rule: delivered.cases) (auto split: if_splits)
    let ?rest = "if length b > chunk_size then Inr (drop chunk_size b) # rs1 else rs1"
    have "contains_seq (crlf @ crlf) (take MAX_HEADER_BYTES ((buf @ take chunk_size b) @ delivered ?rest))"
      using "1.prems" delivered_chunk [OF rs(2), of rs1] rs(1) by simp
    from "1.IH" [OF False short rs(1) refl rs(2) this]
    show ?thesis using False short rs by (subst read_request_head.simps) simp
  qed
qed

lemma read_request_head_err:
  "read_request_head rs buf = (Inl e, buf', rs') \<Longrightarrow> \<not> contains_seq (crlf @ crlf) buf'"
proof (induction rs buf rule: read_request_head.induct)
  case (1 rs buf)
  show ?case
  proof (cases "contains_seq (crlf @ crlf) buf \<or> length buf > MAX_HEADER_BYTES \<or> (\<forall>b rs1. rs = Inr b # rs1 \<longrightarrow> b = [])")
    case True
    with "1.prems" show ?thesis
      by (subst (asm) read_request_head.simps) (auto split: if_splits list.splits sum.splits)
  next
    case False
    then obtain b rs1 where rs: "rs = Inr b # rs1" "b \<noteq> []" by auto
    with False "1.prems" have rec: "read_request_head (if length b > chunk_size then Inr (drop chunk_size b) # rs1 else rs1)
                  (buf @ take chunk_size b) = (Inl e, buf', rs')"
      by (subst (asm) read_request_head.simps) simp
    show ?thesis using False "1.IH" [OF _ _ rs(1) refl rs(2) rec] by blast
  qed
qed

section \<open>Cookies of a request\<close>

text \<open>The cookies of a request as a list, in the order of the search.\<close>

definition cookie_pair :: "string \<Rightarrow> (string \<times> string) option" where
  "cookie_pair p = map_option (\<lambda>(a, b). (trim a, trim b)) (split_once CHR ''='' (trim p))"

definition line_cookies :: "string \<Rightarrow> (string \<times> string) list" where
  "line_cookies l =
     (case split_once CHR '':'' l of
        Some (k, v) \<Rightarrow> if eq_ignore_ascii_case (trim k) ''cookie'' then List.map_filter cookie_pair (split_on CHR '';'' v) else []
      | None \<Rightarrow> [])"

definition request_cookies :: "string \<Rightarrow> (string \<times> string) list" where
  "request_cookies head = concat (map line_cookies (lines head))"

lemma cookie_in_pairs_map_of: "cookie_in_pairs ps name = map_of (List.map_filter cookie_pair ps) name"
  by (induction ps) (auto simp: cookie_pair_def List.map_filter_def split: option.splits)

lemma cookie_in_lines_map_of: "cookie_in_lines ls name = map_of (concat (map line_cookies ls)) name"
  by (induction ls) (auto simp: line_cookies_def cookie_in_pairs_map_of map_add_def split: option.splits)

lemma cookie_search_map_of: "cookie_from_request_head head name = map_of (request_cookies head) name"
  by (simp add: cookie_from_request_head_def request_cookies_def cookie_in_lines_map_of)

text \<open>A client's rendering of a request head.\<close>

definition header_line :: "string \<times> string \<Rightarrow> string" where
  "header_line h = fst h @ '': '' @ snd h"

definition render_head :: "string \<Rightarrow> (string \<times> string) list \<Rightarrow> string" where
  "render_head request_line hs = concat (map (\<lambda>l. l @ crlf) (request_line # map header_line hs)) @ crlf"

fun cookie_header :: "(string \<times> string) list \<Rightarrow> string" where
  "cookie_header [] = []"
| "cookie_header [(n, v)] = n @ ''='' @ v"
| "cookie_header ((n, v) # cs) = n @ ''='' @ v @ ''; '' @ cookie_header cs"

definition token_char :: "char \<Rightarrow> bool" where
  "token_char c = (is_graphic c \<and> c \<notin> {CHR ''='', CHR '';'', CHR '':''})"

definition cookie_value_char :: "char \<Rightarrow> bool" where
  "cookie_value_char c = (is_graphic c \<and> c \<noteq> CHR '';'')"

definition good_header :: "string \<times> string \<Rightarrow> bool" where
  "good_header h = (fst h \<noteq> [] \<and> list_all token_char (fst h) \<and> CHR 0x0A \<notin> set (snd h))"

definition good_cookie :: "string \<times> string \<Rightarrow> bool" where
  "good_cookie c = (fst c \<noteq> [] \<and> list_all token_char (fst c) \<and> list_all cookie_value_char (snd c))"

definition is_cookie_header :: "string \<times> string \<Rightarrow> bool" where
  "is_cookie_header h = eq_ignore_ascii_case (fst h) ''cookie''"

lemma graphic_trim: "list_all is_graphic s \<Longrightarrow> trim s = s"
  by (cases "s = []") (auto intro!: trim_graphic simp: list_all_iff)

lemma token_graphic: "list_all token_char s \<Longrightarrow> list_all is_graphic s"
  by (auto simp: list_all_iff token_char_def)

lemma value_graphic: "list_all cookie_value_char s \<Longrightarrow> list_all is_graphic s"
  by (auto simp: list_all_iff cookie_value_char_def)

lemma token_notin: "list_all token_char s \<Longrightarrow> \<not> token_char c \<Longrightarrow> c \<notin> set s"
  by (auto simp: list_all_iff)

lemma value_notin: "list_all cookie_value_char s \<Longrightarrow> \<not> cookie_value_char c \<Longrightarrow> c \<notin> set s"
  by (auto simp: list_all_iff)

lemma special_not_token [simp]:
  "\<not> token_char CHR ''=''" "\<not> token_char CHR '';''" "\<not> token_char CHR '':''" "\<not> token_char CHR 0x0A"
  "\<not> cookie_value_char CHR '';''"
  by (simp_all add: token_char_def cookie_value_char_def is_graphic_def)

lemma cookie_pair_good: "good_cookie (n, v) \<Longrightarrow> cookie_pair (CHR '' '' # n @ CHR ''='' # v) = Some (n, v)"
proof -
  assume g: "good_cookie (n, v)"
  then have n: "list_all is_graphic n" and v: "list_all is_graphic v" and ne: "n \<noteq> []"
    by (auto simp: good_cookie_def token_graphic value_graphic)
  have "list_all is_graphic (n @ CHR ''='' # v)" using n v by (simp add: is_graphic_def)
  then have "trim (CHR '' '' # n @ CHR ''='' # v) = n @ CHR ''='' # v" by (simp add: trim_space graphic_trim)
  moreover have "CHR ''='' \<notin> set n" using g by (simp add: good_cookie_def token_notin)
  ultimately show ?thesis using n v by (simp add: cookie_pair_def split_once_append graphic_trim)
qed

lemma cookie_header_pairs:
  "list_all good_cookie cs \<Longrightarrow>
   List.map_filter cookie_pair (split_on CHR '';'' (CHR '' '' # cookie_header cs)) = cs"
proof (induction cs rule: cookie_header.induct)
  case 1
  show ?case by (simp add: List.map_filter_def cookie_pair_def trim_space)
next
  case (2 n v)
  then have g: "good_cookie (n, v)" by simp
  then have "CHR '';'' \<notin> set (CHR '' '' # n @ ''='' @ v)" by (simp add: good_cookie_def token_notin value_notin)
  then show ?case by (simp add: split_on_single List.map_filter_def cookie_pair_good [OF g] del: split_on.simps)
next
  case (3 n v c cs)
  then have g: "good_cookie (n, v)" by simp
  then have sep: "CHR '';'' \<notin> set (CHR '' '' # n @ ''='' @ v)" by (simp add: good_cookie_def token_notin value_notin)
  have "split_on CHR '';'' ((CHR '' '' # n @ ''='' @ v) @ CHR '';'' # (CHR '' '' # cookie_header (c # cs)))
      = (CHR '' '' # n @ ''='' @ v) # split_on CHR '';'' (CHR '' '' # cookie_header (c # cs))"
    by (rule split_on_append [OF sep])
  with 3 show ?case by (simp add: List.map_filter_def cookie_pair_good [OF g] del: split_on.simps)
qed

lemma lines_rendered:
  "list_all (\<lambda>l. CHR 0x0A \<notin> set l) ls \<Longrightarrow> lines (concat (map (\<lambda>l. l @ crlf) ls) @ s) = ls @ lines s"
proof (induction ls)
  case (Cons l ls)
  then have "lines ((l @ [CHR 0x0D]) @ CHR 0x0A # (concat (map (\<lambda>l. l @ crlf) ls) @ s))
      = l # lines (concat (map (\<lambda>l. l @ crlf) ls) @ s)"
    by (subst lines_Cons) auto
  with Cons show ?case by (simp add: crlf_def)
qed simp

lemma header_cookies:
  assumes "good_header h"
  shows "line_cookies (header_line h)
    = (if is_cookie_header h then List.map_filter cookie_pair (split_on CHR '';'' (CHR '' '' # snd h)) else [])"
proof -
  have "CHR '':'' \<notin> set (fst h)" using assms by (simp add: good_header_def token_notin)
  moreover have "trim (fst h) = fst h" using assms by (simp add: good_header_def graphic_trim token_graphic)
  ultimately show ?thesis
    by (simp add: line_cookies_def header_line_def split_once_append is_cookie_header_def del: split_on.simps)
qed

section \<open>When bytes reach a slot\<close>

lemma authorize_viewer_ok:
  assumes env: "storage_env R view C"
    and run: "authorize_viewer R now sub prot rs s = (Inr (replay, rs'), s')"
  shows "replay @ delivered rs' = delivered rs
       \<and> (if prot then \<exists>token. cookie_from_request_head (from_utf8_lossy replay) SESSION_COOKIE_NAME = Some token
                               \<and> view s now (session_grant_key sub token) \<noteq> None
          else replay = [])"
proof (cases prot)
  case True
  with run obtain token where hd: "read_request_head rs [] = (Inr (), replay, rs')"
    and ck: "cookie_from_request_head (from_utf8_lossy replay) SESSION_COOKIE_NAME = Some token"
    and gr: "check_session_grant R now sub token s = (Inr True, s')"
    by (auto simp: authorize_viewer_def split: prod.splits sum.splits option.splits if_splits)
  have "view s now (session_grant_key sub token) \<noteq> None"
    using check_session_grant_reads [OF env, of now sub token s] gr by (auto simp: lookup_failed_def)
  with True ck read_request_head_ok [OF hd] show ?thesis by auto
next
  case False
  with run show ?thesis by (auto simp: authorize_viewer_def)
qed

lemma router_spliced:
  assumes "handle_router_connection R C clk net conn s = (Spliced slot replay rs, s')"
  obtains sni info s1 where "c_hello conn = Inr (Some sni)" "is_ok (c_handshake conn)"
    "dir_get_tunnel_by_subdomain R C (clk 0) (subdomain_from_sni sni) s = (Inr (Some info), s1)"
    "authorize_viewer R (clk 1) (subdomain_from_sni sni) (ti_protected info) (c_reads conn) s1 = (Inr (replay, rs), s')"
    "slot = ti_slot info" "n_dial net slot = Connected"
  using assms
  by (auto simp: handle_router_connection_def splice_def Let_def
      split: sum.splits option.splits prod.splits dial.splits if_splits)

section \<open>A worked example\<close>

text \<open>A protected tunnel, a live grant for it, and a viewer who presents the grant.\<close>

definition edge_codec :: codec where
  "edge_codec = tab_codec [(demo_tunnel 1 ''u1'')\<lparr>t_protected := True\<rparr>] [demo_lookup ''u1'' [''1'']] []"

definition edge_store :: mem_state where
  "edge_store = [(tunnel_key ''1'', (''0'', Some 600000000000)), (lookup_key ''u1'', (''0'', None)),
     (session_grant_key ''app'' ''tok'', (''{}'', Some 900000000000))]"

definition edge_request :: string where
  "edge_request = render_head ''GET / HTTP/1.1'' [(''Host'', ''app.x.dev''), (''Cookie'', ''a=b; fdns_session=tok'')]"

definition edge_conn :: connection where
  "edge_conn = \<lparr> c_hello = Inr (Some ''app.x.dev''), c_handshake = Inr (), c_reads = [Inr edge_request] \<rparr>"

definition edge_net :: network where
  "edge_net = \<lparr> n_dial = (\<lambda>_. Connected), n_replay = (\<lambda>_ _. Inr ()) \<rparr>"

lemma edge_env: "storage_env mem_redis mem_view edge_codec"
  unfolding edge_codec_def by (rule mem_env.storage_env_axioms)

lemma edge_head: "read_request_head [Inr edge_request] [] = (Inr (), edge_request, [])"
  by code_simp

lemma edge_complete: "contains_seq (crlf @ crlf) (take MAX_HEADER_BYTES (delivered [Inr edge_request]))"
proof -
  have "contains_seq (crlf @ crlf) edge_request" by code_simp
  moreover have "length edge_request = 66" by (simp add: edge_request_def render_head_def header_line_def crlf_def)
  ultimately show ?thesis by (auto simp: MAX_HEADER_BYTES_def)
qed

lemma edge_cookie: "cookie_from_request_head (from_utf8_lossy edge_request) SESSION_COOKIE_NAME = Some ''tok''"
  by code_simp

lemma edge_sub: "subdomain_from_sni ''app.x.dev'' = ''app''"
  by code_simp

lemma edge_info:
  "\<exists>info. de_info edge_codec ''0'' = Inr info \<and> ti_id info = ''1'' \<and> ti_subdomain info = ''app'' \<and> ti_slot info = 20000
     \<and> ti_protected info"
  by (simp add: edge_codec_def tab_codec_def tab_de_def parse_nat_def is_ascii_digit_def undec_def digit_val_def
      demo_tunnel_def Tunnel_new_def dec.simps digit_char_def)

lemma edge_lookup: "de_lookup edge_codec ''0'' = Inr (demo_lookup ''u1'' [''1''])"
  by (simp add: edge_codec_def tab_codec_def tab_de_def parse_nat_def is_ascii_digit_def undec_def digit_val_def)

lemma edge_decoded: "de_info edge_codec j = Inr a \<Longrightarrow> de_info edge_codec ''0'' = Inr a"
  using edge_info
  by (simp add: edge_codec_def tab_codec_def tab_de_def parse_nat_def is_ascii_digit_def undec_def digit_val_def split: option.splits if_splits)

lemma edge_single: "listed edge_codec m a \<Longrightarrow> listed edge_codec m b \<Longrightarrow> a = b"
  unfolding listed_def by (metis edge_decoded sum.inject(2))

lemma edge_protected: "listed edge_codec m a \<Longrightarrow> ti_protected a"
  unfolding listed_def by (metis edge_decoded edge_info sum.inject(2))

lemma edge_scan:
  assumes "t < 600000000000"
  shows "\<exists>info. dir_get_tunnel_by_subdomain mem_redis edge_codec t ''app'' edge_store = (Inr (Some info), edge_store)
     \<and> ti_slot info = 20000 \<and> ti_protected info"
proof -
  obtain info where info: "de_info edge_codec ''0'' = Inr info" "ti_subdomain info = ''app''" "ti_slot info = 20000" "ti_protected info"
    using edge_info by blast
  have keys: "r_keys mem_redis t (''tunnel_lookup:'' @ ''*'') edge_store = (Inr [lookup_key ''u1''], edge_store)"
    using assms by (simp add: mem_ops edge_store_def mem_view_def key_defs)
  have get: "mem_view edge_store t (lookup_key ''u1'') = Some ''0''" "mem_view edge_store t (tunnel_key ''1'') = Some ''0''"
    using assms by (simp_all add: edge_store_def mem_view_def)
  have "lk_tunnels (demo_lookup ''u1'' [''1'']) = [''1'']" by (simp add: demo_lookup_def)
  with info keys get show ?thesis
    by (simp add: dir_get_tunnel_by_subdomain_def scan_tunnels_def connect_def seq_act_def bind_act_def map_err_def
        edge_lookup mem_ops(1,2))
qed

lemma edge_grant: "check_session_grant mem_redis 1 ''app'' ''tok'' edge_store = (Inr True, edge_store)"
  by (simp add: check_session_grant_def connect_def seq_act_def bind_act_def map_err_def mem_ops mem_view_def edge_store_def key_defs)

lemma edge_run:
  "handle_router_connection mem_redis edge_codec int edge_net edge_conn edge_store = (Spliced 20000 edge_request [], edge_store)"
proof -
  obtain info where look: "dir_get_tunnel_by_subdomain mem_redis edge_codec 0 ''app'' edge_store = (Inr (Some info), edge_store)"
    and info: "ti_slot info = 20000" "ti_protected info" using edge_scan [of 0] by auto
  show ?thesis
    by (simp add: handle_router_connection_def edge_conn_def edge_sub look info authorize_viewer_def edge_head edge_cookie
        edge_grant splice_def edge_net_def)
qed

section \<open>Properties\<close>

text \<open>
  C9: bytes of a connection reach a slot only through a tunnel that a user lookup lists under the
  subdomain of the connection's SNI name, and only that tunnel's slot.  When the tunnel is protected, the
  request head carried the session cookie with a token whose grant for that subdomain was live in Redis
  at the check.  Either way the slot receives exactly the bytes the client sent, in order.
\<close>

theorem viewer_bytes_need_grant:
  assumes env: "storage_env R view C" and le: "clk 0 \<le> clk 1"
    and run: "handle_router_connection R C clk net conn s = (Spliced slot replay rs, s')"
  shows "\<exists>sni info. c_hello conn = Inr (Some sni) \<and> listed C (view s (clk 0)) info
           \<and> ti_subdomain info = subdomain_from_sni sni \<and> slot = ti_slot info
           \<and> replay @ delivered rs = delivered (c_reads conn)
           \<and> (if ti_protected info
              then \<exists>token. cookie_from_request_head (from_utf8_lossy replay) ''fdns_session'' = Some token
                      \<and> view s (clk 1) (session_grant_key (subdomain_from_sni sni) token) \<noteq> None
              else replay = [])"
  using run
proof (rule router_spliced)
  fix sni info s1
  assume hello: "c_hello conn = Inr (Some sni)" and slot: "slot = ti_slot info"
    and look: "dir_get_tunnel_by_subdomain R C (clk 0) (subdomain_from_sni sni) s = (Inr (Some info), s1)"
    and auth: "authorize_viewer R (clk 1) (subdomain_from_sni sni) (ti_protected info) (c_reads conn) s1 = (Inr (replay, rs), s')"
  have scan: "scan_answer C (view s (clk 0)) (\<lambda>i. ti_subdomain i = subdomain_from_sni sni) (Inr (Some info))
      \<and> same_from (clk 0) (view s) (view s1)"
    using storage_env.scan_tunnels_answer [OF env, where now = "clk 0" and P = "\<lambda>i. ti_subdomain i = subdomain_from_sni sni" and s = s] look
    by (simp add: dir_get_tunnel_by_subdomain_def lookup_failed_def)
  then have "view s1 (clk 1) = view s (clk 1)" using le by (simp add: same_from_def)
  with authorize_viewer_ok [OF env auth] scan hello slot show ?thesis
    by (intro exI [of _ sni] exI [of _ info]) (auto simp: scan_answer_def SESSION_COOKIE_NAME_def)
qed

theorem viewer_bytes_need_grant_witness:
  "\<exists>token. mem_view edge_store 1 (session_grant_key ''app'' token) \<noteq> None"
proof -
  have "int 0 \<le> int 1" by simp
  from viewer_bytes_need_grant [OF edge_env this edge_run]
  obtain sni info where hello: "c_hello edge_conn = Inr (Some sni)" and listed: "listed edge_codec (mem_view edge_store (int 0)) info"
    and grant: "if ti_protected info
       then \<exists>token. cookie_from_request_head (from_utf8_lossy edge_request) ''fdns_session'' = Some token
               \<and> mem_view edge_store (int 1) (session_grant_key (subdomain_from_sni sni) token) \<noteq> None
       else edge_request = []"
    by blast
  have "sni = ''app.x.dev''" using hello by (simp add: edge_conn_def)
  with grant edge_protected [OF listed] edge_sub show ?thesis by auto
qed

lemma sole_record_found:
  assumes scan: "scan_answer C m P r" and ok: "\<not> lookup_failed r"
    and listed: "listed C m info" "P info" and uniq: "\<And>i. listed C m i \<Longrightarrow> P i \<Longrightarrow> i = info"
  shows "r = Inr (Some info)"
proof (cases r)
  case (Inl e)
  with scan ok show ?thesis by (simp add: scan_answer_def)
next
  case (Inr x)
  show ?thesis
  proof (cases x)
    case None
    with Inr scan listed show ?thesis by (simp add: scan_answer_def)
  next
    case (Some i)
    with Inr scan have "listed C m i" "P i" by (simp_all add: scan_answer_def)
    with Some Inr uniq show ?thesis by blast
  qed
qed

lemma viewer_admitted:
  assumes env: "storage_env R view C" and au: "authorize_viewer R t sub protected rs s = (a, s')"
    and head: "protected \<Longrightarrow> contains_seq (crlf @ crlf) (take MAX_HEADER_BYTES (delivered rs))"
    and grant: "\<And>buf rs'. protected \<Longrightarrow> read_request_head rs [] = (Inr (), buf, rs') \<Longrightarrow>
        \<exists>token. cookie_from_request_head (from_utf8_lossy buf) SESSION_COOKIE_NAME = Some token
           \<and> view s t (session_grant_key sub token) \<noteq> None"
  shows "a = Inl Internal_Error \<or> is_ok a"
proof (cases protected)
  case True
  obtain buf rs' where rd: "read_request_head rs [] = (Inr (), buf, rs')"
    using read_request_head_complete [of "[]" rs] head [OF True] by auto
  obtain token where tok: "cookie_from_request_head (from_utf8_lossy buf) SESSION_COOKIE_NAME = Some token"
    "view s t (session_grant_key sub token) \<noteq> None"
    using grant [OF True rd] by blast
  show ?thesis
    using au True rd tok check_session_grant_reads [OF env, of t sub token s]
    by (cases "check_session_grant R t sub token s") (auto simp: authorize_viewer_def lookup_failed_def split: sum.splits)
next
  case False
  then show ?thesis using au by (auto simp: authorize_viewer_def)
qed



text \<open>
  The bounded read of a request head: whatever the client sends and however it is cut into segments,
  the buffer never exceeds \<open>MAX_HEADER_BYTES\<close> by more than one chunk of 2048 bytes, the read succeeds
  exactly when the buffer holds the end of a header block, it succeeds whenever the first
  \<open>MAX_HEADER_BYTES\<close> bytes hold one, and a successful read has lost and reordered nothing.
\<close>

lemma request_head_read_bounded:
  "case read_request_head rs [] of (r, buf, rs') \<Rightarrow>
     length buf \<le> 16384 + 2048
     \<and> is_ok r = contains_seq (crlf @ crlf) buf
     \<and> (is_ok r \<longrightarrow> buf @ delivered rs' = delivered rs)
     \<and> (contains_seq (crlf @ crlf) (take MAX_HEADER_BYTES (delivered rs)) \<longrightarrow> is_ok r)"
proof (cases "read_request_head rs []")
  case (fields r buf rs')
  have b: "length buf \<le> 16384 + 2048"
    using read_request_head_bound [OF _ fields] by (simp add: MAX_HEADER_BYTES_def chunk_size_def)
  have c: "is_ok r" if "contains_seq (crlf @ crlf) (take MAX_HEADER_BYTES (delivered rs))"
    using read_request_head_complete [of "[]" rs] that fields by auto
  show ?thesis
  proof (cases r)
    case (Inl e)
    with fields b c read_request_head_err [of rs "[]" e buf rs'] show ?thesis by auto
  next
    case (Inr u)
    with fields b c read_request_head_ok [of rs "[]" u buf rs'] show ?thesis by simp
  qed
qed

lemma request_head_read_bounded_witness:
  "is_ok (fst (read_request_head [Inr edge_request] []))"
proof -
  show ?thesis using request_head_read_bounded [of "[Inr edge_request]"] edge_complete by (auto split: prod.splits)
qed

text \<open>
  The cookie search finds what a client put in its cookie header, whatever the other headers are and
  whatever follows the head: for a rendered request whose single cookie header carries the pairs \<open>cs\<close>, the
  answer for a name in \<open>cs\<close> is its first value there.  For a name the header does not carry, the search
  goes on in the bytes after the head.
\<close>

lemma cookie_roundtrip:
  assumes line: "CHR '':'' \<notin> set request_line" "CHR 0x0A \<notin> set request_line"
    and hs: "list_all good_header (pre @ post)" "list_all (\<lambda>h. \<not> is_cookie_header h) (pre @ post)"
    and ck: "good_header (name, cookie_header cs)" "eq_ignore_ascii_case name ''cookie''" "list_all good_cookie cs"
  shows "cookie_from_request_head (render_head request_line (pre @ (name, cookie_header cs) # post) @ body) k
       = (case map_of cs k of Some v \<Rightarrow> Some v | None \<Rightarrow> cookie_from_request_head body k)"
proof -
  let ?ls = "request_line # map header_line (pre @ (name, cookie_header cs) # post)"
  have lf: "CHR 0x0A \<notin> set (header_line h)" if "good_header h" for h
    using that by (auto simp: header_line_def good_header_def token_notin)
  have "list_all (\<lambda>l. CHR 0x0A \<notin> set l) (?ls @ [[]])"
    using line hs ck lf by (auto simp: list_all_iff)
  from lines_rendered [OF this, of body]
  have ls: "lines (render_head request_line (pre @ (name, cookie_header cs) # post) @ body) = ?ls @ [[]] @ lines body"
    by (simp add: render_head_def)
  have none: "concat (map line_cookies (map header_line xs)) = []" if "list_all good_header xs" "list_all (\<lambda>h. \<not> is_cookie_header h) xs" for xs
    using that by (induction xs) (simp_all add: header_cookies)
  have self: "line_cookies (header_line (name, cookie_header cs)) = cs"
    using ck by (simp add: header_cookies is_cookie_header_def cookie_header_pairs del: split_on.simps)
  have "concat (map line_cookies (?ls @ [[]])) = cs"
    using hs line self none [of pre] none [of post]
    by (simp add: line_cookies_def [of request_line] line_cookies_def [of "[]"] split_once_None [THEN iffD2]
        del: concat_eq_Nil_conv)
  then have "request_cookies (render_head request_line (pre @ (name, cookie_header cs) # post) @ body)
      = cs @ request_cookies body"
    unfolding request_cookies_def ls by simp
  then show ?thesis by (simp add: cookie_search_map_of map_add_def split: option.split)
qed

lemma cookie_roundtrip_witness:
  "cookie_from_request_head (edge_request @ ''cookie: fdns_session=other'') ''fdns_session'' = Some ''tok''"
proof -
  have "cookie_from_request_head (render_head ''GET / HTTP/1.1''
      ([(''Host'', ''app.x.dev'')] @ (''Cookie'', cookie_header [(''a'', ''b''), (''fdns_session'', ''tok'')]) # [])
      @ ''cookie: fdns_session=other'') ''fdns_session''
      = (case map_of [(''a'', ''b''), (''fdns_session'', ''tok'')] ''fdns_session'' of
           Some v \<Rightarrow> Some v | None \<Rightarrow> cookie_from_request_head ''cookie: fdns_session=other'' ''fdns_session'')"
    by (rule cookie_roundtrip) code_simp+
  then show ?thesis by (simp add: edge_request_def)
qed

end
