(* ===== verification/Ip_Text.thy ===== *)
theory Ip_Text
  imports Redis_Store
begin

text \<open>
  The address parser of the Rust standard library, as far as the DNS server uses it:
  \<open>Ipv6Addr::from_str\<close> (\<open>Ipv4Addr::from_str\<close> is \<open>parse_ipv4\<close> of \<open>Redis_Store\<close>).  A reader consumes a
  prefix of its input and returns the rest; a reader that fails consumes nothing.
\<close>

section \<open>Readers\<close>

definition digit_of :: "nat \<Rightarrow> char \<Rightarrow> nat option" where
  "digit_of radix c =
     (let b = byte_of c;
          d = (if 48 \<le> b \<and> b \<le> 57 then Some (b - 48)
               else if 97 \<le> b \<and> b \<le> 122 then Some (b - 87)
               else if 65 \<le> b \<and> b \<le> 90 then Some (b - 55) else None)
      in case d of Some n \<Rightarrow> if n < radix then Some n else None | None \<Rightarrow> None)"

definition digits_value :: "nat \<Rightarrow> string \<Rightarrow> nat" where
  "digits_value radix ds = foldl (\<lambda>a c. a * radix + (case digit_of radix c of Some d \<Rightarrow> d | None \<Rightarrow> 0)) 0 ds"

definition read_number :: "nat \<Rightarrow> nat \<Rightarrow> bool \<Rightarrow> nat \<Rightarrow> string \<Rightarrow> (nat \<times> string) option" where
  "read_number radix max_digits allow_zero_prefix max_value s =
     (let ds = takeWhile (\<lambda>c. digit_of radix c \<noteq> None) s;
          rest = dropWhile (\<lambda>c. digit_of radix c \<noteq> None) s;
          n = digits_value radix ds
      in if ds = [] \<or> length ds > max_digits \<or> n > max_value
            \<or> (\<not> allow_zero_prefix \<and> hd ds = CHR ''0'' \<and> length ds > 1)
         then None else Some (n, rest))"

definition read_separator :: "char \<Rightarrow> nat \<Rightarrow> (string \<Rightarrow> ('a \<times> string) option) \<Rightarrow> string \<Rightarrow> ('a \<times> string) option" where
  "read_separator sep index inner s =
     (if index > 0 then (case s of c # cs \<Rightarrow> if c = sep then inner cs else None | [] \<Rightarrow> None) else inner s)"

fun read_octets :: "nat \<Rightarrow> nat \<Rightarrow> string \<Rightarrow> (nat list \<times> string) option" where
  "read_octets i 0 s = Some ([], s)"
| "read_octets i (Suc n) s =
     (case read_separator CHR ''.'' i (read_number 10 3 False 255) s of
        None \<Rightarrow> None
      | Some (a, s') \<Rightarrow>
          (case read_octets (Suc i) n s' of None \<Rightarrow> None | Some (as, s'') \<Rightarrow> Some (a # as, s'')))"

definition read_ipv4_addr :: "string \<Rightarrow> (nat list \<times> string) option" where
  "read_ipv4_addr s = read_octets 0 4 s"

text \<open>A run of groups of an address with room for \<open>Suc n\<close> more: the groups, whether it ended in a dotted quad, the rest.\<close>

fun read_groups :: "nat \<Rightarrow> nat \<Rightarrow> string \<Rightarrow> nat list \<times> bool \<times> string" where
  "read_groups i 0 s = ([], False, s)"
| "read_groups i (Suc n) s =
     (case (if n > 0 then read_separator CHR '':'' i read_ipv4_addr s else None) of
        Some (os, s') \<Rightarrow> ([os ! 0 * 256 + os ! 1, os ! 2 * 256 + os ! 3], True, s')
      | None \<Rightarrow>
          (case read_separator CHR '':'' i (read_number 16 4 True 65535) s of
             None \<Rightarrow> ([], False, s)
           | Some (g, s') \<Rightarrow> (case read_groups (Suc i) n s' of (gs, b, s'') \<Rightarrow> (g # gs, b, s''))))"

definition groups_value :: "nat list \<Rightarrow> 128 word" where
  "groups_value gs = of_nat (foldl (\<lambda>a g. a * 65536 + g) 0 gs)"

definition parse_ipv6 :: "string \<Rightarrow> 128 word option" where
  "parse_ipv6 s =
     (case read_groups 0 8 s of (head, head_ipv4, s1) \<Rightarrow>
        if length head = 8 then (if s1 = [] then Some (groups_value head) else None)
        else if head_ipv4 then None
        else (case s1 of
                a # b # s2 \<Rightarrow>
                  if a = CHR '':'' \<and> b = CHR '':'' then
                    (case read_groups 0 (8 - (length head + 1)) s2 of (tail, _, s3) \<Rightarrow>
                       if s3 = [] then Some (groups_value (head @ replicate (8 - length head - length tail) 0 @ tail))
                       else None)
                  else None
              | _ \<Rightarrow> None))"

section \<open>The address fits\<close>

lemma read_octets_len: "read_octets i n s = Some (os, s') \<Longrightarrow> length os = n \<and> (\<forall>a \<in> set os. a \<le> 255)"
  by (induction n arbitrary: i s os)
    (auto simp: read_separator_def read_number_def Let_def split: option.splits prod.splits if_splits list.splits)

lemma read_groups_len: "read_groups i n s = (gs, b, s') \<Longrightarrow> length gs \<le> n \<and> (\<forall>g \<in> set gs. g \<le> 65535)"
proof (induction n arbitrary: i s gs b s')
  case (Suc n)
  show ?case
  proof (cases "if n > 0 then read_separator CHR '':'' i read_ipv4_addr s else None")
    case (Some x)
    then obtain os s1 where x: "x = (os, s1)" "n > 0" and rd: "read_separator CHR '':'' i read_ipv4_addr s = Some (os, s1)"
      by (cases x) (auto split: if_splits)
    obtain s0 where "read_ipv4_addr s0 = Some (os, s1)"
      using rd by (auto simp: read_separator_def split: if_splits list.splits)
    then have os: "length os = 4" "\<forall>a \<in> set os. a \<le> 255"
      using read_octets_len [of 0 4 s0 os s1] by (simp_all add: read_ipv4_addr_def)
    then have "os ! 0 \<le> 255" "os ! 1 \<le> 255" "os ! 2 \<le> 255" "os ! 3 \<le> 255" by simp_all
    with Suc.prems Some x show ?thesis by auto
  next
    case None
    show ?thesis
    proof (cases "read_separator CHR '':'' i (read_number 16 4 True 65535) s")
      case None': None
      with None Suc.prems show ?thesis by (auto split: if_splits)
    next
      case (Some y)
      obtain g s1 where y: "y = (g, s1)" by (cases y)
      have "g \<le> 65535"
        using Some y by (auto simp: read_separator_def read_number_def Let_def split: if_splits list.splits)
      moreover obtain gs1 b1 s2 where rec: "read_groups (Suc i) n s1 = (gs1, b1, s2)" by (cases "read_groups (Suc i) n s1")
      moreover have "gs = g # gs1" using Suc.prems None Some y rec by auto
      ultimately show ?thesis using Suc.IH [OF rec] by auto
    qed
  qed
qed simp

lemma parse_ipv6_groups:
  assumes "parse_ipv6 s = Some w"
  shows "\<exists>gs. length gs = 8 \<and> (\<forall>g \<in> set gs. g \<le> 65535) \<and> w = groups_value gs"
proof -
  obtain head b s1 where hd: "read_groups 0 8 s = (head, b, s1)" by (cases "read_groups 0 8 s")
  have h: "length head \<le> 8" "\<forall>g \<in> set head. g \<le> 65535" using read_groups_len [OF hd] by auto
  show ?thesis
  proof (cases "length head = 8")
    case True
    with assms hd h show ?thesis by (auto simp: parse_ipv6_def split: if_splits)
  next
    case False
    then obtain s2 tail bt s3 where tl: "read_groups 0 (8 - (length head + 1)) s2 = (tail, bt, s3)"
      and w: "w = groups_value (head @ replicate (8 - length head - length tail) 0 @ tail)"
      using assms hd by (auto simp: parse_ipv6_def split: if_splits list.splits prod.splits)
    have t: "length tail \<le> 8 - (length head + 1)" "\<forall>g \<in> set tail. g \<le> 65535" using read_groups_len [OF tl] by auto
    show ?thesis
      by (rule exI [of _ "head @ replicate (8 - length head - length tail) 0 @ tail"]) (use h t w False in auto)
  qed
qed

end
