(* ===== verification/Dns_Handler.thy ===== *)
theory Dns_Handler
  imports Ip_Text Tunnel_Storage
begin

text \<open>
  The DNS server, \<open>crates/dnsd/src/dns_handler.rs\<close> with the counters of
  \<open>crates/dnsd/src/metrics_manager.rs\<close> and the DNS-over-TLS framing of \<open>crates/dnsd/src/lib.rs\<close>: a query
  is answered from the slot record of its name in Redis, and every answer is cached by its packet.

  Not part of the repository and therefore arguments: the wire format (hickory), of which the model has
  the message fields the handler reads and writes; the cache with time to live, whose contract is the
  locale \<open>ttl_cache\<close>; the hash of a packet, whose algorithm the standard library leaves open; Redis.
  Averages and percentiles of the response times are floating-point numbers and are not modelled.

  The lemmas show that a query is always answered, what each answer says about Redis, and, over every
  run of the server, that an answer is never older than the cache's time to live.
\<close>

section \<open>Messages\<close>

datatype rcode = NoError | FormErr | ServFail | NXDomain

datatype rtype = Type_A | Type_AAAA | Type_other nat

datatype rdata = Rdata_A "32 word" | Rdata_AAAA "128 word"

record dns_query =
  q_name :: string
  q_type :: rtype

record dns_record =
  rr_name :: string
  rr_ttl :: u32
  rr_data :: rdata

record dns_message =
  m_id :: u16
  m_op_code :: nat
  m_is_response :: bool
  m_response_code :: rcode
  m_queries :: "dns_query list"
  m_answers :: "dns_record list"

text \<open>The wire format: \<open>Message::from_vec\<close> and \<open>to_vec\<close>.\<close>

record wire =
  from_vec :: "string \<Rightarrow> dns_message option"
  to_vec :: "dns_message \<Rightarrow> string option"

text \<open>\<open>Message::error_msg\<close> and \<open>Message::response\<close>: a response with the given id, op code and response code.\<close>

definition error_msg :: "u16 \<Rightarrow> nat \<Rightarrow> rcode \<Rightarrow> dns_message" where
  "error_msg i op rc = \<lparr> m_id = i, m_op_code = op, m_is_response = True, m_response_code = rc, m_queries = [], m_answers = [] \<rparr>"

definition response_msg :: "u16 \<Rightarrow> nat \<Rightarrow> dns_message" where
  "response_msg i op = error_msg i op NoError"

definition op_query :: nat where "op_query = 0"

section \<open>Configuration, metrics and cache\<close>

record PerformanceConfig =
  pc_enable_compression :: bool
  pc_cache_ttl :: u64
  pc_enable_metrics :: bool
  pc_max_response_time_ms :: u64
  pc_max_cache_size :: nat
  pc_enable_cache_warming :: bool
  pc_cache_hit_ratio_target :: "8 word"

definition PerformanceConfig_default :: PerformanceConfig where
  "PerformanceConfig_default =
     \<lparr> pc_enable_compression = False, pc_cache_ttl = 300, pc_enable_metrics = True, pc_max_response_time_ms = 50,
       pc_max_cache_size = 5000, pc_enable_cache_warming = True, pc_cache_hit_ratio_target = 80 \<rparr>"

record MetricsManager =
  mm_total_queries :: u64
  mm_cache_hits :: u64
  mm_cache_misses :: u64
  mm_total_errors :: u64
  mm_response_times :: "duration list"
  mm_max_response_time_ms :: u64
  mm_max_response_times :: nat

definition MetricsManager_new :: "u64 \<Rightarrow> MetricsManager" where
  "MetricsManager_new max_ms =
     \<lparr> mm_total_queries = 0, mm_cache_hits = 0, mm_cache_misses = 0, mm_total_errors = 0, mm_response_times = [],
       mm_max_response_time_ms = max_ms, mm_max_response_times = 1000 \<rparr>"

definition update_metrics :: "bool \<Rightarrow> duration \<Rightarrow> MetricsManager \<Rightarrow> MetricsManager" where
  "update_metrics cache_hit response_time m =
     (let times = mm_response_times m @ [response_time]
      in m \<lparr> mm_total_queries := mm_total_queries m + 1,
             mm_cache_hits := (if cache_hit then mm_cache_hits m + 1 else mm_cache_hits m),
             mm_cache_misses := (if cache_hit then mm_cache_misses m else mm_cache_misses m + 1),
             mm_response_times := (if length times > mm_max_response_times m then tl times else times) \<rparr>)"

definition metrics_reset :: "MetricsManager \<Rightarrow> MetricsManager" where
  "metrics_reset m =
     m \<lparr> mm_total_queries := 0, mm_cache_hits := 0, mm_cache_misses := 0, mm_total_errors := 0, mm_response_times := [] \<rparr>"

text \<open>The cache: the value stored under a key, if it has not expired at the instant.\<close>

record 'c cache_ops =
  c_get :: "instant \<Rightarrow> string \<Rightarrow> 'c \<Rightarrow> string option"
  c_insert :: "string \<Rightarrow> string \<Rightarrow> instant \<Rightarrow> 'c \<Rightarrow> 'c"

locale ttl_cache =
  fixes K :: "'c cache_ops"
  assumes insert_same: "t < e \<Longrightarrow> c_get K t k (c_insert K k v e c) = Some v"
    and insert_expired: "e < t \<Longrightarrow> c_get K t k (c_insert K k v e c) = None"
    and insert_only: "c_get K t k (c_insert K k v e c) \<in> {Some v, None}"
    and insert_other: "k' \<noteq> k \<Longrightarrow> c_get K t k' (c_insert K k v e c) = c_get K t k' c"

section \<open>Answering\<close>

definition generate_cache_key :: "(string \<Rightarrow> u64) \<Rightarrow> string \<Rightarrow> string" where
  "generate_cache_key hash packet = ''dns:'' @ dec (unat (hash packet))"

definition trim_end_dots :: "string \<Rightarrow> string" where
  "trim_end_dots s = rev (dropWhile (\<lambda>c. c = CHR ''.'') (rev s))"

definition lookup_slot_in_redis :: "'s redis \<Rightarrow> instant \<Rightarrow> string \<Rightarrow> ('s, string, string option) act" where
  "lookup_slot_in_redis R now qname =
     (if qname = [] then ret None
      else
        seq_act (map_err (\<lambda>e. ''Redis connection failed: '' @ e) (r_conn R))
          (\<lambda>s. case r_get R now (''slot:'' @ trim_end_dots qname) s of
                 (Inr slot, s') \<Rightarrow> (Inr slot, s')
               | (Inl e, s') \<Rightarrow> (Inr None, s')))"

definition build_error_response :: "wire \<Rightarrow> string \<Rightarrow> rcode \<Rightarrow> string" where
  "build_error_response W packet response_code =
     (let vec = (\<lambda>m. case to_vec W m of Some v \<Rightarrow> v | None \<Rightarrow> []) in
      case from_vec W packet of
        None \<Rightarrow> vec (error_msg 0 op_query FormErr)
      | Some message \<Rightarrow>
          let response = error_msg (m_id message) (m_op_code message) response_code in
          vec (case m_queries message of
                 [] \<Rightarrow> response
               | query # _ \<Rightarrow> response \<lparr> m_queries := m_queries response @ [query] \<rparr>))"

definition slot_answer :: "dns_query \<Rightarrow> string \<Rightarrow> string + dns_record option" where
  "slot_answer query slot_ip =
     (case q_type query of
        Type_A \<Rightarrow>
          (case parse_ipv4 slot_ip of
             None \<Rightarrow> Inl (''Invalid IPv4 address: '' @ slot_ip)
           | Some ip \<Rightarrow> Inr (Some \<lparr> rr_name = q_name query, rr_ttl = 300, rr_data = Rdata_A ip \<rparr>))
      | Type_AAAA \<Rightarrow>
          (case parse_ipv6 slot_ip of
             None \<Rightarrow> Inl (''Invalid IPv6 address: '' @ slot_ip)
           | Some ip \<Rightarrow> Inr (Some \<lparr> rr_name = q_name query, rr_ttl = 300, rr_data = Rdata_AAAA ip \<rparr>))
      | Type_other n \<Rightarrow> Inr None)"

definition build_dns_response :: "wire \<Rightarrow> dns_message \<Rightarrow> dns_query \<Rightarrow> string option \<Rightarrow> string + string" where
  "build_dns_response W message query slot =
     (let response = (response_msg (m_id message) (m_op_code message)) \<lparr> m_queries := [query] \<rparr>;
          vec = (\<lambda>m. case to_vec W m of Some v \<Rightarrow> Inr v | None \<Rightarrow> Inl ''Failed to serialize response'')
      in case slot of
           None \<Rightarrow> vec (response \<lparr> m_response_code := NXDomain \<rparr>)
         | Some slot_ip \<Rightarrow>
             (case slot_answer query slot_ip of
                Inl e \<Rightarrow> Inl e
              | Inr (Some record) \<Rightarrow> vec (response \<lparr> m_answers := m_answers response @ [record] \<rparr>)
              | Inr None \<Rightarrow> vec (response \<lparr> m_response_code := NXDomain \<rparr>)))"

definition process_dns_query :: "wire \<Rightarrow> 's redis \<Rightarrow> instant \<Rightarrow> string \<Rightarrow> 's \<Rightarrow> (string + string) \<times> 's" where
  "process_dns_query W R now packet s =
     (case from_vec W packet of
        None \<Rightarrow> (Inr (build_error_response W packet FormErr), s)
      | Some message \<Rightarrow>
          if m_is_response message then (Inr (build_error_response W packet FormErr), s)
          else
            (case m_queries message of
               [] \<Rightarrow> (Inr (build_error_response W packet FormErr), s)
             | query # _ \<Rightarrow>
                 (case lookup_slot_in_redis R now (q_name query) s of
                    (result, s') \<Rightarrow>
                      let slot = (case result of Inr slot \<Rightarrow> slot | Inl e \<Rightarrow> None) in
                      (case build_dns_response W message query slot of
                         Inr response \<Rightarrow> (Inr response, s')
                       | Inl e \<Rightarrow> (Inr (build_error_response W packet ServFail), s')))))"

record 'c dns_state =
  d_cache :: 'c
  d_metrics :: MetricsManager

definition cache_response ::
  "'c cache_ops \<Rightarrow> (string \<Rightarrow> u64) \<Rightarrow> PerformanceConfig \<Rightarrow> instant \<Rightarrow> string \<Rightarrow> string \<Rightarrow> 'c \<Rightarrow> 'c" where
  "cache_response K hash cfg now packet response c =
     c_insert K (generate_cache_key hash packet) response (after_secs now (unat (pc_cache_ttl cfg))) c"

definition get_cached_response :: "'c cache_ops \<Rightarrow> (string \<Rightarrow> u64) \<Rightarrow> instant \<Rightarrow> string \<Rightarrow> 'c \<Rightarrow> string option" where
  "get_cached_response K hash now packet c = c_get K now (generate_cache_key hash packet) c"

text \<open>The instants of a request: \<open>clk 0\<close> the cache read, \<open>clk 1\<close> the lookup, \<open>clk 2\<close> the cache write; \<open>elapsed\<close> what it took.\<close>

definition handle_packet ::
  "wire \<Rightarrow> 'c cache_ops \<Rightarrow> (string \<Rightarrow> u64) \<Rightarrow> 's redis \<Rightarrow> PerformanceConfig \<Rightarrow> (nat \<Rightarrow> instant) \<Rightarrow> duration \<Rightarrow> string
     \<Rightarrow> 'c dns_state \<Rightarrow> 's \<Rightarrow> (string + string) \<times> 'c dns_state \<times> 's" where
  "handle_packet W K hash R cfg clk elapsed packet d s =
     (let measure = (\<lambda>hit d. if pc_enable_metrics cfg then d \<lparr> d_metrics := update_metrics hit elapsed (d_metrics d) \<rparr> else d) in
      case get_cached_response K hash (clk 0) packet (d_cache d) of
        Some cached \<Rightarrow> (Inr cached, measure True d, s)
      | None \<Rightarrow>
          (case process_dns_query W R (clk 1) packet s of
             (Inr response, s') \<Rightarrow>
               (Inr response, measure False (d \<lparr> d_cache := cache_response K hash cfg (clk 2) packet response (d_cache d) \<rparr>), s')
           | (Inl e, s') \<Rightarrow> (Inl e, measure False d, s')))"

section \<open>DNS over TLS\<close>

definition be16 :: "u16 \<Rightarrow> string" where
  "be16 n = [char_of (unat n div 256), char_of (unat n mod 256)]"

text \<open>
  One connection of the TLS server on the bytes the client sends: a query is preceded by its length as
  two bytes, and so is an answer, whose length is cut to 16 bits.  The connection ends when a frame is
  incomplete or a query is not answered.
\<close>

function dot_session :: "(string \<Rightarrow> 'x \<Rightarrow> (string + string) \<times> 'x) \<Rightarrow> string \<Rightarrow> 'x \<Rightarrow> string \<times> 'x" where
  "dot_session answer inp x =
     (if length inp < 2 then ([], x)
      else let len = byte_of (inp ! 0) * 256 + byte_of (inp ! 1); rest = drop 2 inp in
        if length rest < len then ([], x)
        else (case answer (take len rest) x of
                (Inl e, x') \<Rightarrow> ([], x')
              | (Inr resp, x') \<Rightarrow>
                  (case dot_session answer (drop len rest) x' of
                     (out, x'') \<Rightarrow> (be16 (of_nat (length resp)) @ resp @ out, x''))))"
  by pat_completeness auto

termination dot_session
  by (relation "measure (\<lambda>(answer, inp, x). length inp)") auto

declare dot_session.simps [simp del]

section \<open>A query is always answered\<close>

lemma process_dns_query_total: "is_ok (fst (process_dns_query W R now packet s))"
  by (simp add: process_dns_query_def Let_def split: option.split list.split prod.split sum.split)

lemma handle_packet_total: "is_ok (fst (handle_packet W K hash R cfg clk elapsed packet d s))"
  using process_dns_query_total [of W R "clk 1" packet s]
  by (auto simp: handle_packet_def Let_def split: option.split prod.split sum.split)

definition metrics_ok :: "MetricsManager \<Rightarrow> bool" where
  "metrics_ok m = (mm_cache_hits m + mm_cache_misses m = mm_total_queries m
                   \<and> length (mm_response_times m) \<le> mm_max_response_times m)"

lemma metrics_ok_new [simp]: "metrics_ok (MetricsManager_new ms)"
  by (simp add: metrics_ok_def MetricsManager_new_def)

lemma metrics_ok_update [simp]: "metrics_ok m \<Longrightarrow> metrics_ok (update_metrics hit t m)"
  by (auto simp: metrics_ok_def update_metrics_def Let_def)

lemma metrics_ok_reset [simp]: "metrics_ok (metrics_reset m)"
  by (simp add: metrics_ok_def metrics_reset_def)

lemma handle_packet_metrics:
  "handle_packet W K hash R cfg clk elapsed packet d s = (r, d', s') \<Longrightarrow> metrics_ok (d_metrics d) \<Longrightarrow> metrics_ok (d_metrics d')"
  by (auto simp: handle_packet_def Let_def split: option.splits prod.splits sum.splits if_splits)

section \<open>What an answer says\<close>

locale dns_wire =
  fixes W :: wire
  assumes wire_round: "to_vec W m = Some b \<Longrightarrow> from_vec W b = Some m"
    and wire_empty: "from_vec W [] = None"

definition tab_wire :: "dns_message list \<Rightarrow> wire" where
  "tab_wire ms =
     \<lparr> from_vec = (\<lambda>b. case tab_de ms b of Inl e \<Rightarrow> None | Inr m \<Rightarrow> Some m),
       to_vec = (\<lambda>m. case tab_ser ms m of Inl e \<Rightarrow> None | Inr b \<Rightarrow> Some b) \<rparr>"

lemma tab_de_Nil: "tab_de ms [] = Inl ''syntax''"
  by (simp add: tab_de_def parse_nat_def)

interpretation tabw: dns_wire "tab_wire ms" for ms
  by unfold_locales (auto simp: tab_wire_def tab_de_Nil split: sum.splits dest: tab_round)

text \<open>The slot text a lookup saw: what Redis holds for the name, or nothing when a command failed.\<close>

lemma lookup_slot_reads:
  assumes srv: "redis_server R view" and run: "lookup_slot_in_redis R now qname s = (r, s')"
  shows "r = Inr (view s now (slot_key (trim_end_dots qname))) \<or> r = Inr None \<or> (\<exists>e. r = Inl e)"
proof (cases "qname = []")
  case False
  obtain c s1 where c: "r_conn R s = (c, s1)" by (cases "r_conn R s")
  obtain g s2 where g: "r_get R now (''slot:'' @ trim_end_dots qname) s1 = (g, s2)"
    by (cases "r_get R now (''slot:'' @ trim_end_dots qname) s1")
  have v: "view s1 = view s" by (rule redis_server.conn_law [OF srv c])
  show ?thesis
    using run False c g redis_server.get_law [OF srv, of now "''slot:'' @ trim_end_dots qname" s1] v
    by (cases c; cases g) (auto simp: lookup_slot_in_redis_def seq_act_def bind_act_def map_err_def slot_key_def)
qed (use run in \<open>simp add: lookup_slot_in_redis_def\<close>)

text \<open>What the records of an answer may say about a slot text.\<close>

definition record_of_slot :: "dns_query \<Rightarrow> string \<Rightarrow> dns_record \<Rightarrow> bool" where
  "record_of_slot q txt rr \<longleftrightarrow>
     rr_name rr = q_name q \<and>
     (case rr_data rr of
        Rdata_A ip \<Rightarrow> q_type q = Type_A \<and> parse_ipv4 txt = Some ip
      | Rdata_AAAA ip \<Rightarrow> q_type q = Type_AAAA \<and> parse_ipv6 txt = Some ip)"

lemma slot_answer_record: "slot_answer q txt = Inr (Some rr) \<Longrightarrow> record_of_slot q txt rr"
  by (auto simp: slot_answer_def record_of_slot_def split: rtype.splits option.splits)

context dns_wire
begin

lemma error_response_parsed:
  assumes "from_vec W packet = Some m" and "m_queries m = q # qs" and "from_vec W (build_error_response W packet rc) = Some a"
  shows "a = (error_msg (m_id m) (m_op_code m) rc)\<lparr>m_queries := [q]\<rparr>"
proof -
  let ?e = "(error_msg (m_id m) (m_op_code m) rc)\<lparr>m_queries := [q]\<rparr>"
  have b: "build_error_response W packet rc = (case to_vec W ?e of Some v \<Rightarrow> v | None \<Rightarrow> [])"
    using assms by (simp add: build_error_response_def Let_def error_msg_def)
  show ?thesis
  proof (cases "to_vec W ?e")
    case None
    with assms(3) b show ?thesis by (simp add: wire_empty)
  next
    case (Some v)
    with assms(3) b show ?thesis using wire_round [OF Some] by simp
  qed
qed

lemma dns_response_parsed:
  assumes "build_dns_response W m q slot = Inr b" and "from_vec W b = Some a"
  shows "\<exists>rc ans. a = \<lparr> m_id = m_id m, m_op_code = m_op_code m, m_is_response = True, m_response_code = rc,
                         m_queries = [q], m_answers = ans \<rparr>
           \<and> (rc = NoError \<and> (\<exists>txt rr. slot = Some txt \<and> ans = [rr] \<and> slot_answer q txt = Inr (Some rr))
              \<or> rc = NXDomain \<and> ans = [] \<and> (\<forall>txt. slot = Some txt \<longrightarrow> slot_answer q txt = Inr None))"
proof -
  let ?r = "(response_msg (m_id m) (m_op_code m))\<lparr>m_queries := [q]\<rparr>"
  obtain x where x: "to_vec W x = Some b"
    and cases: "(\<exists>txt rr. slot = Some txt \<and> slot_answer q txt = Inr (Some rr) \<and> x = ?r\<lparr>m_answers := [rr]\<rparr>)
       \<or> x = ?r\<lparr>m_response_code := NXDomain\<rparr> \<and> (\<forall>txt. slot = Some txt \<longrightarrow> slot_answer q txt = Inr None)"
    using assms(1)
    by (auto simp: build_dns_response_def Let_def response_msg_def error_msg_def split: option.splits sum.splits)
  have "a = x" using wire_round [OF x] assms(2) by simp
  with cases show ?thesis by (auto simp: response_msg_def error_msg_def)
qed

end

section \<open>Runs of the server\<close>

text \<open>
  The server over time: requests in any number, with Redis changed by others at any time.  The history
  keeps, for every computed answer, when it was looked up, when it was cached, the packet, and what
  Redis was.
\<close>

record ('c, 's) dns_world =
  w_now :: instant
  w_dns :: "'c dns_state"
  w_redis :: 's
  w_history :: "(instant \<times> instant \<times> string \<times> 's) list"

definition answered_at :: "wire \<Rightarrow> 's redis \<Rightarrow> string \<Rightarrow> instant \<times> instant \<times> string \<times> 's \<Rightarrow> bool" where
  "answered_at W R resp h = (case h of (t, tc, p, s) \<Rightarrow> fst (process_dns_query W R t p s) = Inr resp)"

inductive dns_step ::
  "wire \<Rightarrow> 'c cache_ops \<Rightarrow> (string \<Rightarrow> u64) \<Rightarrow> 's redis \<Rightarrow> PerformanceConfig \<Rightarrow> ('c, 's) dns_world \<Rightarrow> ('c, 's) dns_world \<Rightarrow> bool"
  for W K hash R cfg where
  request: "w_now w \<le> clk 0 \<Longrightarrow> clk 0 \<le> clk 1 \<Longrightarrow> clk 1 \<le> clk 2 \<Longrightarrow>
    handle_packet W K hash R cfg clk elapsed packet (w_dns w) (w_redis w) = (r, d', s') \<Longrightarrow>
    h = (if get_cached_response K hash (clk 0) packet (d_cache (w_dns w)) = None
         then [(clk 1, clk 2, packet, w_redis w)] else []) \<Longrightarrow>
    dns_step W K hash R cfg w \<lparr> w_now = clk 2, w_dns = d', w_redis = s', w_history = h @ w_history w \<rparr>"
| world: "w_now w \<le> t \<Longrightarrow> dns_step W K hash R cfg w (w\<lparr>w_now := t, w_redis := s'\<rparr>)"

definition cache_justified ::
  "wire \<Rightarrow> 'c cache_ops \<Rightarrow> (string \<Rightarrow> u64) \<Rightarrow> 's redis \<Rightarrow> PerformanceConfig \<Rightarrow> ('c, 's) dns_world \<Rightarrow> bool" where
  "cache_justified W K hash R cfg w \<longleftrightarrow>
     (\<forall>t k v. c_get K t k (d_cache (w_dns w)) = Some v \<longrightarrow>
        (\<exists>t0 tc p s. (t0, tc, p, s) \<in> set (w_history w) \<and> generate_cache_key hash p = k
           \<and> fst (process_dns_query W R t0 p s) = Inr v \<and> t \<le> after_secs tc (unat (pc_cache_ttl cfg)) \<and> tc \<le> w_now w))"

lemma cache_key_inj: "generate_cache_key hash p = generate_cache_key hash q \<longleftrightarrow> hash p = hash q"
  by (simp add: generate_cache_key_def word_unat_eq_iff)

lemma handle_packet_hit:
  "get_cached_response K hash (clk 0) packet (d_cache d) = Some v \<Longrightarrow>
   handle_packet W K hash R cfg clk elapsed packet d s = (r, d', s') \<Longrightarrow> r = Inr v \<and> d_cache d' = d_cache d \<and> s' = s"
  by (auto simp: handle_packet_def Let_def split: if_splits)

lemma handle_packet_miss:
  assumes "get_cached_response K hash (clk 0) packet (d_cache d) = None"
    and "handle_packet W K hash R cfg clk elapsed packet d s = (r, d', s')"
  shows "\<exists>v. r = Inr v \<and> process_dns_query W R (clk 1) packet s = (Inr v, s')
           \<and> d_cache d' = cache_response K hash cfg (clk 2) packet v (d_cache d)"
  using assms process_dns_query_total [of W R "clk 1" packet s]
  by (auto simp: handle_packet_def Let_def split: prod.splits sum.splits if_splits)

lemma cache_justified_step:
  assumes K: "ttl_cache K" and step: "dns_step W K hash R cfg w w'" and inv: "cache_justified W K hash R cfg w"
  shows "cache_justified W K hash R cfg w'"
  using step
proof cases
  case (request clk elapsed packet r d' s' h)
  show ?thesis
  proof (cases "get_cached_response K hash (clk 0) packet (d_cache (w_dns w))")
    case (Some v)
    then show ?thesis
      using request handle_packet_hit [OF Some request(5)] inv unfolding cache_justified_def by fastforce
  next
    case None
    let ?e = "after_secs (clk 2) (unat (pc_cache_ttl cfg))"
    obtain v where v: "process_dns_query W R (clk 1) packet (w_redis w) = (Inr v, s')"
      and c: "d_cache d' = c_insert K (generate_cache_key hash packet) v ?e (d_cache (w_dns w))"
      using handle_packet_miss [OF None request(5)] by (auto simp: cache_response_def)
    show ?thesis
      unfolding cache_justified_def
    proof (intro allI impI)
      fix t k v'
      assume "c_get K t k (d_cache (w_dns w')) = Some v'"
      then have g: "c_get K t k (c_insert K (generate_cache_key hash packet) v ?e (d_cache (w_dns w))) = Some v'"
        using c request(1) by simp
      show "\<exists>t0 tc p s. (t0, tc, p, s) \<in> set (w_history w') \<and> generate_cache_key hash p = k
           \<and> fst (process_dns_query W R t0 p s) = Inr v' \<and> t \<le> after_secs tc (unat (pc_cache_ttl cfg)) \<and> tc \<le> w_now w'"
      proof (cases "k = generate_cache_key hash packet")
        case True
        have "v' = v"
          using g True ttl_cache.insert_only [OF K, of t k v ?e "d_cache (w_dns w)"] by simp
        moreover have "t \<le> ?e"
          using g True ttl_cache.insert_expired [OF K, of ?e t k v "d_cache (w_dns w)"] by (cases "?e < t") simp_all
        ultimately show ?thesis
          using True v request None by (intro exI [of _ "clk 1"] exI [of _ "clk 2"] exI [of _ packet] exI [of _ "w_redis w"]) simp
      next
        case False
        then have "c_get K t k (d_cache (w_dns w)) = Some v'" using g ttl_cache.insert_other [OF K, of k] by simp
        with inv obtain t0 tc p s where "(t0, tc, p, s) \<in> set (w_history w)" "generate_cache_key hash p = k"
          "fst (process_dns_query W R t0 p s) = Inr v'" "t \<le> after_secs tc (unat (pc_cache_ttl cfg))" "tc \<le> w_now w"
          unfolding cache_justified_def by blast
        with request show ?thesis
          by (intro exI [of _ t0] exI [of _ tc] exI [of _ p] exI [of _ s]) simp
      qed
    qed
  qed
next
  case (world t s')
  with inv show ?thesis unfolding cache_justified_def by fastforce
qed

lemma cache_justified_reachable:
  assumes "(dns_step W K hash R cfg)\<^sup>*\<^sup>* w w'" and K: "ttl_cache K" and "cache_justified W K hash R cfg w"
  shows "cache_justified W K hash R cfg w'"
  using assms(1,3) by (induction rule: rtranclp_induct) (auto intro: cache_justified_step [OF K])

section \<open>Framed sessions\<close>

definition framed :: "string \<Rightarrow> string" where
  "framed b = be16 (of_nat (length b)) @ b"

fun answer_all :: "(string \<Rightarrow> 'x \<Rightarrow> (string + string) \<times> 'x) \<Rightarrow> string list \<Rightarrow> 'x \<Rightarrow> (string + string) list \<times> 'x" where
  "answer_all answer [] x = ([], x)"
| "answer_all answer (p # ps) x =
     (case answer p x of (r, x') \<Rightarrow> (case answer_all answer ps x' of (rs, x'') \<Rightarrow> (r # rs, x'')))"

definition response_bytes :: "string + string \<Rightarrow> string" where
  "response_bytes r = (case r of Inr b \<Rightarrow> b | Inl e \<Rightarrow> [])"

lemma be16_bytes:
  assumes "n < 65536"
  shows "byte_of (be16 (of_nat n) ! 0) * 256 + byte_of (be16 (of_nat n) ! 1) = n"
proof -
  have u: "unat (of_nat n :: u16) = n" using assms by (simp add: unat_of_nat take_bit_nat_eq_self)
  have "n div 256 < 256" using assms by (simp add: less_mult_imp_div_less)
  then have "(of_char (char_of (n div 256)) :: nat) = n div 256" "(of_char (char_of (n mod 256)) :: nat) = n mod 256"
    by (simp_all add: of_char_of)
  then show ?thesis by (simp add: be16_def u)
qed

lemma dot_session_frame:
  assumes "length p < 65536"
  shows "dot_session answer (framed p @ rest) x =
    (case answer p x of (Inl e, x') \<Rightarrow> ([], x')
     | (Inr resp, x') \<Rightarrow> (case dot_session answer rest x' of (out, x'') \<Rightarrow> (framed resp @ out, x'')))"
proof -
  obtain a b where ab: "be16 (of_nat (length p)) = [a, b]" by (simp add: be16_def)
  have len: "byte_of a * 256 + byte_of b = length p" using be16_bytes [OF assms] by (simp add: ab)
  show ?thesis
    by (subst dot_session.simps) (simp add: framed_def ab len Let_def split: prod.split sum.split)
qed

lemma dot_session_frames:
  assumes total: "\<And>p x. is_ok (fst (answer p x))"
    and small: "\<And>p. p \<in> set ps \<Longrightarrow> length p < 65536" and tail: "length tail < 2"
  shows "dot_session answer (concat (map framed ps) @ tail) x =
    (case answer_all answer ps x of (rs, x') \<Rightarrow> (concat (map (\<lambda>r. framed (response_bytes r)) rs), x'))"
  using small
proof (induction ps arbitrary: x)
  case Nil
  show ?case using tail by (subst dot_session.simps) simp
next
  case (Cons p ps)
  obtain resp x' where a: "answer p x = (Inr resp, x')"
    using total [of p x] by (cases "answer p x"; cases "fst (answer p x)") auto
  have "dot_session answer (framed p @ (concat (map framed ps) @ tail)) x
      = (case dot_session answer (concat (map framed ps) @ tail) x' of (out, x'') \<Rightarrow> (framed resp @ out, x''))"
    using dot_session_frame [of p answer "concat (map framed ps) @ tail" x] Cons.prems a by simp
  moreover have "dot_session answer (concat (map framed ps) @ tail) x' =
    (case answer_all answer ps x' of (rs, x'') \<Rightarrow> (concat (map (\<lambda>r. framed (response_bytes r)) rs), x''))"
    using Cons by simp
  ultimately show ?case using a by (simp add: response_bytes_def split: prod.split)
qed

text \<open>The handler as the connection uses it.\<close>

definition dot_answer ::
  "wire \<Rightarrow> 'c cache_ops \<Rightarrow> (string \<Rightarrow> u64) \<Rightarrow> 's redis \<Rightarrow> PerformanceConfig \<Rightarrow> (nat \<Rightarrow> instant) \<Rightarrow> duration
     \<Rightarrow> string \<Rightarrow> 'c dns_state \<times> 's \<Rightarrow> (string + string) \<times> 'c dns_state \<times> 's" where
  "dot_answer W K hash R cfg clk elapsed packet x = (case x of (d, s) \<Rightarrow> handle_packet W K hash R cfg clk elapsed packet d s)"

section \<open>A cache\<close>

type_synonym al_cache = "(string, string \<times> instant) hmap"

definition al_cache_ops :: "al_cache cache_ops" where
  "al_cache_ops =
     \<lparr> c_get = (\<lambda>t k c. case hget c k of None \<Rightarrow> None | Some (v, e) \<Rightarrow> if t < e then Some v else None),
       c_insert = (\<lambda>k v e c. hput k (v, e) c) \<rparr>"

interpretation alc: ttl_cache al_cache_ops
  by unfold_locales (auto simp: al_cache_ops_def)

section \<open>Properties\<close>

text \<open>
  C21: a reply to a query is truthful: it is a response that echoes the id, the op code and the question;
  it carries at most one record; a record gives the asked name the address that Redis held as the slot of
  the name (without its trailing dots) at the lookup; and only a reply with a record says \<open>NoError\<close>.
\<close>

theorem dns_reply_truthful:
  assumes srv: "redis_server R view" and wire: "dns_wire W"
    and msg: "from_vec W packet = Some m" "\<not> m_is_response m" "m_queries m = q # qs"
    and run: "process_dns_query W R now packet s = (Inr b, s')" and reply: "from_vec W b = Some a"
  shows "m_id a = m_id m \<and> m_op_code a = m_op_code m \<and> m_is_response a \<and> m_queries a = [q]
       \<and> (if m_response_code a = NoError
          then \<exists>txt rr. view s now (slot_key (trim_end_dots (q_name q))) = Some txt \<and> m_answers a = [rr] \<and> record_of_slot q txt rr
          else m_answers a = [])"
proof -
  obtain r s1 where look: "lookup_slot_in_redis R now (q_name q) s = (r, s1)"
    by (cases "lookup_slot_in_redis R now (q_name q) s")
  let ?slot = "case r of Inr slot \<Rightarrow> slot | Inl e \<Rightarrow> None"
  have slot: "?slot = Some x \<Longrightarrow> view s now (slot_key (trim_end_dots (q_name q))) = Some x" for x
    using lookup_slot_reads [OF srv look] by auto
  have b: "b = (case build_dns_response W m q ?slot of Inr response \<Rightarrow> response
      | Inl e \<Rightarrow> build_error_response W packet ServFail)"
    using run msg look by (auto simp: process_dns_query_def Let_def split: sum.splits)
  show ?thesis
  proof (cases "build_dns_response W m q ?slot")
    case (Inl e)
    with b reply have "a = (error_msg (m_id m) (m_op_code m) ServFail)\<lparr>m_queries := [q]\<rparr>"
      using dns_wire.error_response_parsed [OF wire msg(1,3)] by simp
    then show ?thesis by (simp add: error_msg_def)
  next
    case (Inr response)
    with b reply have "from_vec W response = Some a" by simp
    from dns_wire.dns_response_parsed [OF wire Inr this] slot show ?thesis
      by (auto dest: slot_answer_record)
  qed
qed

definition dns_demo_query :: dns_message where
  "dns_demo_query = \<lparr> m_id = 7, m_op_code = 0, m_is_response = False, m_response_code = NoError,
     m_queries = [\<lparr> q_name = ''app.x.dev.'', q_type = Type_A \<rparr>], m_answers = [] \<rparr>"

definition dns_demo_reply :: dns_message where
  "dns_demo_reply = \<lparr> m_id = 7, m_op_code = 0, m_is_response = True, m_response_code = NoError,
     m_queries = [\<lparr> q_name = ''app.x.dev.'', q_type = Type_A \<rparr>],
     m_answers = [\<lparr> rr_name = ''app.x.dev.'', rr_ttl = 300, rr_data = Rdata_A 0x0A000001 \<rparr>] \<rparr>"

definition dns_demo_wire :: wire where
  "dns_demo_wire = tab_wire [dns_demo_query, dns_demo_reply]"

lemma dns_demo_from:
  "from_vec dns_demo_wire ''0'' = Some dns_demo_query" "from_vec dns_demo_wire ''1'' = Some dns_demo_reply"
  by (simp_all add: dns_demo_wire_def tab_wire_def tab_de_def parse_nat_def is_ascii_digit_def undec_def digit_val_def)

lemma dns_demo_to: "to_vec dns_demo_wire dns_demo_reply = Some ''1''"
proof -
  have "dns_demo_query \<noteq> dns_demo_reply" by (simp add: dns_demo_query_def dns_demo_reply_def)
  then have "tab_ser [dns_demo_query, dns_demo_reply] dns_demo_reply = Inr (dec 1)" by (simp add: tab_ser_def upt_rec)
  then have "tab_ser [dns_demo_query, dns_demo_reply] dns_demo_reply = Inr ''1''"
    by (simp only: dec.simps [of 1]) (simp add: digit_char_def)
  then show ?thesis by (simp only: dns_demo_wire_def tab_wire_def wire.select_convs sum.case)
qed

lemma dns_demo_slot: "parse_ipv4 ''10.0.0.1'' = Some 0x0A000001" "trim_end_dots ''app.x.dev.'' = ''app.x.dev''"
  by (simp_all add: parse_ipv4_def parse_octet_def parse_nat_def is_ascii_digit_def undec_def digit_val_def trim_end_dots_def)

lemma dns_demo_lookup:
  "t < 600000000000 \<Longrightarrow> lookup_slot_in_redis mem_redis t ''app.x.dev.'' demo_store = (Inr (Some ''10.0.0.1''), demo_store)"
  by (simp add: lookup_slot_in_redis_def dns_demo_slot seq_act_def bind_act_def map_err_def mem_ops mem_view_def demo_store_def key_defs)

lemma dns_demo_process:
  "t < 600000000000 \<Longrightarrow> process_dns_query dns_demo_wire mem_redis t ''0'' demo_store = (Inr ''1'', demo_store)"
  using dns_demo_to
  by (simp add: process_dns_query_def dns_demo_from dns_demo_query_def dns_demo_lookup build_dns_response_def slot_answer_def
      dns_demo_slot response_msg_def error_msg_def dns_demo_reply_def)

theorem dns_reply_truthful_witness:
  "\<exists>txt. mem_view demo_store 5 (slot_key ''app.x.dev'') = Some txt \<and> parse_ipv4 txt = Some 0x0A000001"
proof -
  have "dns_wire dns_demo_wire" unfolding dns_demo_wire_def by (rule tabw.dns_wire_axioms)
  from dns_reply_truthful [OF mem.redis_server_axioms this dns_demo_from(1) _ _ dns_demo_process [of 5] dns_demo_from(2)]
  show ?thesis by (simp add: dns_demo_query_def dns_demo_reply_def dns_demo_slot record_of_slot_def)
qed

text \<open>
  C23: no answer is older than the cache allows: in every run of the server, with Redis changing at any
  time, every request is answered, and its answer is the one computed, for a packet with the same hash,
  either now or for a lookup that was cached at most \<open>cache_ttl\<close> seconds before; hits and misses always add up to
  the requests counted, and the window of response times stays within its limit.
\<close>

theorem dns_answers_fresh:
  assumes K: "ttl_cache K" and empty: "\<And>t k. c_get K t k (d_cache (w_dns w)) = None"
    and met: "metrics_ok (d_metrics (w_dns w))" and run: "(dns_step W K hash R cfg)\<^sup>*\<^sup>* w w'"
    and clk: "w_now w' \<le> clk 0" "clk 0 \<le> clk 1" "clk 1 \<le> clk 2"
    and req: "handle_packet W K hash R cfg clk elapsed packet (w_dns w') (w_redis w') = (r, d, s)"
  shows "metrics_ok (d_metrics d) \<and>
         (\<exists>v. r = Inr v
            \<and> (fst (process_dns_query W R (clk 1) packet (w_redis w')) = Inr v
               \<or> (\<exists>t0 tc p s0. (t0, tc, p, s0) \<in> set (w_history w') \<and> hash p = hash packet
                     \<and> fst (process_dns_query W R t0 p s0) = Inr v
                     \<and> tc \<le> clk 0 \<and> clk 0 \<le> after_secs tc (unat (pc_cache_ttl cfg)))))"
proof -
  have m: "metrics_ok (d_metrics (w_dns w'))"
    using run met
  proof (induction rule: rtranclp_induct)
    case (step y z)
    from step(2) show ?case
      by cases (use step in \<open>auto dest: handle_packet_metrics\<close>)
  qed simp
  have j: "cache_justified W K hash R cfg w'"
    by (rule cache_justified_reachable [OF run K]) (simp add: cache_justified_def empty)
  show ?thesis
  proof (cases "get_cached_response K hash (clk 0) packet (d_cache (w_dns w'))")
    case None
    with handle_packet_miss [OF None req] handle_packet_metrics [OF req m] show ?thesis by auto
  next
    case (Some v)
    from Some j obtain t0 tc p s0 where "(t0, tc, p, s0) \<in> set (w_history w')" "generate_cache_key hash p = generate_cache_key hash packet"
      "fst (process_dns_query W R t0 p s0) = Inr v" "clk 0 \<le> after_secs tc (unat (pc_cache_ttl cfg))" "tc \<le> w_now w'"
      unfolding cache_justified_def get_cached_response_def by blast
    moreover have "r = Inr v" using handle_packet_hit [OF Some req] by simp
    moreover have "tc \<le> clk 0" if "tc \<le> w_now w'" for tc using that clk(1) by simp
    ultimately show ?thesis using handle_packet_metrics [OF req m] unfolding cache_key_inj by blast
  qed
qed

definition dns_demo_world :: "(al_cache, mem_state) dns_world" where
  "dns_demo_world = \<lparr> w_now = 0, w_dns = \<lparr> d_cache = [], d_metrics = MetricsManager_new 50 \<rparr>, w_redis = demo_store, w_history = [] \<rparr>"

lemma dns_demo_handled:
  "\<exists>d. handle_packet dns_demo_wire al_cache_ops (\<lambda>_. 0) mem_redis PerformanceConfig_default int 3 ''0''
     (w_dns dns_demo_world) demo_store = (Inr ''1'', d, demo_store)
   \<and> d_cache d = cache_response al_cache_ops (\<lambda>_. 0) PerformanceConfig_default 2 ''0'' ''1'' []
   \<and> d_metrics d = update_metrics False 3 (MetricsManager_new 50)"
  by (simp add: handle_packet_def get_cached_response_def dns_demo_world_def al_cache_ops_def dns_demo_process
      PerformanceConfig_default_def)

theorem dns_answers_fresh_witness:
  "\<exists>w d. (dns_step dns_demo_wire al_cache_ops (\<lambda>_. 0) mem_redis PerformanceConfig_default)\<^sup>*\<^sup>* dns_demo_world w
     \<and> w_redis w = [] \<and> metrics_ok (d_metrics d)
     \<and> handle_packet dns_demo_wire al_cache_ops (\<lambda>_. 0) mem_redis PerformanceConfig_default (\<lambda>i. 60 + int i) 3 ''0'' (w_dns w) []
         = (Inr ''1'', d, [])"
proof -
  let ?step = "dns_step dns_demo_wire al_cache_ops (\<lambda>_. 0) mem_redis PerformanceConfig_default"
  obtain d where d: "handle_packet dns_demo_wire al_cache_ops (\<lambda>_. 0) mem_redis PerformanceConfig_default int 3 ''0''
      (w_dns dns_demo_world) (w_redis dns_demo_world) = (Inr ''1'', d, demo_store)"
    and c: "d_cache d = cache_response al_cache_ops (\<lambda>_. 0) PerformanceConfig_default 2 ''0'' ''1'' []"
    using dns_demo_handled by (auto simp: dns_demo_world_def)
  let ?w1 = "\<lparr> w_now = int 2, w_dns = d, w_redis = demo_store, w_history = [(int 1, int 2, ''0'', w_redis dns_demo_world)] @ w_history dns_demo_world \<rparr>"
  let ?w2 = "?w1\<lparr>w_now := 60, w_redis := []\<rparr>"
  have "?step dns_demo_world ?w1"
    by (rule dns_step.request [OF _ _ _ d]) (simp_all add: dns_demo_world_def get_cached_response_def al_cache_ops_def)
  moreover have "?step ?w1 ?w2" by (rule dns_step.world) simp
  ultimately have reach: "?step\<^sup>*\<^sup>* dns_demo_world ?w2" by (meson rtranclp.rtrancl_into_rtrancl rtranclp.rtrancl_refl)
  obtain d2 where h: "handle_packet dns_demo_wire al_cache_ops (\<lambda>_. 0) mem_redis PerformanceConfig_default (\<lambda>i. 60 + int i) 3 ''0''
      (w_dns ?w2) (w_redis ?w2) = (Inr ''1'', d2, [])"
    by (simp add: handle_packet_def get_cached_response_def c cache_response_def al_cache_ops_def PerformanceConfig_default_def
        after_secs_def)
  have "metrics_ok (d_metrics d2)"
    using dns_answers_fresh [OF alc.ttl_cache_axioms _ _ reach _ _ _ h]
    by (simp add: dns_demo_world_def al_cache_ops_def)
  with reach h show ?thesis by (intro exI [of _ ?w2] exI [of _ d2]) simp
qed

text \<open>
  C38: the TLS framing is faithful: on a stream of framed queries, whatever incomplete frame follows, the
  server answers each query in turn with the state the earlier ones left, and writes exactly the framed
  answers in that order.
\<close>

theorem dot_frames_answered:
  assumes "\<And>p. p \<in> set ps \<Longrightarrow> length p < 65536" and "length rest < 2"
  shows "dot_session (dot_answer W K hash R cfg clk elapsed) (concat (map framed ps) @ rest) (d, s)
       = (case answer_all (dot_answer W K hash R cfg clk elapsed) ps (d, s) of
            (rs, x) \<Rightarrow> (concat (map (\<lambda>r. framed (response_bytes r)) rs), x))"
proof (rule dot_session_frames)
  show "is_ok (fst (dot_answer W K hash R cfg clk elapsed p x))" for p x
    by (simp add: dot_answer_def handle_packet_total split: prod.split)
qed (use assms in auto)

theorem dot_frames_answered_witness:
  "fst (dot_session (dot_answer dns_demo_wire al_cache_ops (\<lambda>_. 0) mem_redis PerformanceConfig_default int 3)
     (framed ''0'' @ [CHR 0x00]) (w_dns dns_demo_world, demo_store)) = framed ''1''"
proof -
  have "dot_session (dot_answer dns_demo_wire al_cache_ops (\<lambda>_. 0) mem_redis PerformanceConfig_default int 3)
       (concat (map framed [''0'']) @ [CHR 0x00]) (w_dns dns_demo_world, demo_store)
     = (case answer_all (dot_answer dns_demo_wire al_cache_ops (\<lambda>_. 0) mem_redis PerformanceConfig_default int 3) [''0'']
          (w_dns dns_demo_world, demo_store) of (rs, x) \<Rightarrow> (concat (map (\<lambda>r. framed (response_bytes r)) rs), x))"
    by (rule dot_frames_answered) simp_all
  moreover obtain d where "dot_answer dns_demo_wire al_cache_ops (\<lambda>_. 0) mem_redis PerformanceConfig_default int 3 ''0''
      (w_dns dns_demo_world, demo_store) = (Inr ''1'', d, demo_store)"
    using dns_demo_handled by (auto simp: dot_answer_def)
  ultimately show ?thesis by (simp add: response_bytes_def)
qed

end
