(* ===== verification/Dnssec_Keys.thy ===== *)
theory Dnssec_Keys
  imports Prelude
begin

text \<open>
  DNSSEC signing, \<open>crates/dnsd/src/sign.rs\<close>: the key manager with its rotation and signature cache, the
  RRSIG input, the validator of signatures and of whole messages, and the monitor with its alert history.

  Not part of the repository and therefore arguments: HMAC keys and signatures (ring), random bytes and
  key tags, hexadecimal text (hex), the encoding of a record set (hickory).  A lock is never poisoned,
  since no holder panics.  The failure rate of the monitor is a floating-point comparison and an
  argument.  The instants at which an operation reads the clock are arguments; the two readings of a key's
  creation are one.

  The lemmas show which key signs over every sequence of rotations and signatures, what a rotation keeps
  and removes, and what the verdict on a message means.
\<close>

section \<open>Keys and configuration\<close>

datatype DnssecError =
    KeyGeneration string | SigningFailed string | KeyRotation string | InvalidAlgorithm string
  | KeyNotFound string | Configuration string

datatype DnssecAlgorithm = HmacSha256 | RsaSha256 | EcdsaP256Sha256

fun algorithm_number :: "DnssecAlgorithm \<Rightarrow> 8 word" where
  "algorithm_number HmacSha256 = 253"
| "algorithm_number RsaSha256 = 8"
| "algorithm_number EcdsaP256Sha256 = 13"

fun algorithm_debug :: "DnssecAlgorithm \<Rightarrow> string" where
  "algorithm_debug HmacSha256 = ''HmacSha256''"
| "algorithm_debug RsaSha256 = ''RsaSha256''"
| "algorithm_debug EcdsaP256Sha256 = ''EcdsaP256Sha256''"

datatype hickory_algorithm = RSASHA256 | ECDSAP256SHA256 | Unknown "8 word" | Other_algorithm nat

fun to_hickory_algorithm :: "DnssecAlgorithm \<Rightarrow> hickory_algorithm" where
  "to_hickory_algorithm HmacSha256 = Unknown 253"
| "to_hickory_algorithm RsaSha256 = RSASHA256"
| "to_hickory_algorithm EcdsaP256Sha256 = ECDSAP256SHA256"

record KeyMetadata =
  km_key_id :: string
  km_algorithm :: DnssecAlgorithm
  km_created_at :: instant
  km_expires_at :: instant
  km_is_active :: bool
  km_key_tag :: u16

datatype 'k KeyMaterial = Hmac 'k | Rsa 'k | Ecdsa 'k

record 'k DnssecKey =
  k_metadata :: KeyMetadata
  k_material :: "'k KeyMaterial"

record DnssecConfig =
  dc_default_algorithm :: DnssecAlgorithm
  dc_rotation_interval :: u64
  dc_grace_period :: u64
  dc_max_keys :: nat
  dc_enable_signature_cache :: bool
  dc_signature_cache_ttl :: u64
  dc_enable_key_backup :: bool
  dc_backup_directory :: "string option"

definition DnssecConfig_default :: DnssecConfig where
  "DnssecConfig_default =
     \<lparr> dc_default_algorithm = RsaSha256, dc_rotation_interval = 86400 * 7, dc_grace_period = 86400, dc_max_keys = 10,
       dc_enable_signature_cache = True, dc_signature_cache_ttl = 300, dc_enable_key_backup = True,
       dc_backup_directory = None \<rparr>"

record CacheEntry =
  ce_signature :: string
  ce_created_at :: instant
  ce_ttl :: duration

record 'k DnssecKeyManager =
  dk_config :: DnssecConfig
  dk_keys :: "(DnssecAlgorithm, 'k DnssecKey list) hmap"
  dk_signature_cache :: "(string, CacheEntry) hmap"
  dk_last_rotation :: instant

section \<open>The key manager\<close>

fun key_of_material :: "'k KeyMaterial \<Rightarrow> 'k" where
  "key_of_material (Hmac k) = k"
| "key_of_material (Rsa k) = k"
| "key_of_material (Ecdsa k) = k"

fun material_for :: "DnssecAlgorithm \<Rightarrow> 'k \<Rightarrow> 'k KeyMaterial" where
  "material_for HmacSha256 k = Hmac k"
| "material_for RsaSha256 k = Rsa k"
| "material_for EcdsaP256Sha256 k = Ecdsa k"

definition push_key :: "DnssecAlgorithm \<Rightarrow> 'k DnssecKey \<Rightarrow> 'k DnssecKeyManager \<Rightarrow> 'k DnssecKeyManager" where
  "push_key algorithm key m =
     m \<lparr> dk_keys := hput algorithm (hget_or [] (dk_keys m) algorithm @ [key]) (dk_keys m) \<rparr>"

text \<open>The random source delivers the bytes of the new key or an error, and the key tag.\<close>

definition generate_key ::
  "(string \<Rightarrow> 'k) \<Rightarrow> instant \<Rightarrow> string + string \<Rightarrow> u16 \<Rightarrow> DnssecAlgorithm \<Rightarrow> 'k DnssecKeyManager
     \<Rightarrow> (DnssecError + string) \<times> 'k DnssecKeyManager" where
  "generate_key hmac_key now random_bytes key_tag algorithm m =
     (let key_id = algorithm_debug algorithm @ ''-'' @ dec (as_secs (duration_since now 0)) in
      case random_bytes of
        Inl e \<Rightarrow> (Inl (KeyGeneration e), m)
      | Inr key_bytes \<Rightarrow>
          (Inr key_id,
           push_key algorithm
             \<lparr> k_metadata = \<lparr> km_key_id = key_id, km_algorithm = algorithm, km_created_at = now,
                  km_expires_at = add_dur now (from_secs (unat (dc_rotation_interval (dk_config m)))), km_is_active = True, km_key_tag = key_tag \<rparr>,
               k_material = material_for algorithm (hmac_key key_bytes) \<rparr> m))"

definition add_hmac_key_from_env :: "(string \<Rightarrow> 'k) \<Rightarrow> instant \<Rightarrow> string \<Rightarrow> 'k DnssecKeyManager \<Rightarrow> 'k DnssecKeyManager" where
  "add_hmac_key_from_env hmac_key now secret m =
     push_key HmacSha256
       \<lparr> k_metadata = \<lparr> km_key_id = ''env-hmac'', km_algorithm = HmacSha256, km_created_at = now,
            km_expires_at = add_dur now (from_secs (unat (dc_rotation_interval (dk_config m)))), km_is_active = True, km_key_tag = 0 \<rparr>,
         k_material = Hmac (hmac_key secret) \<rparr> m"

text \<open>\<open>new\<close> with \<open>initialize_keys\<close>: the key of the default algorithm, then the key of the environment variable if it is set.\<close>

definition DnssecKeyManager_new ::
  "(string \<Rightarrow> 'k) \<Rightarrow> instant \<Rightarrow> string + string \<Rightarrow> u16 \<Rightarrow> string option \<Rightarrow> DnssecConfig \<Rightarrow> DnssecError + 'k DnssecKeyManager" where
  "DnssecKeyManager_new hmac_key now random_bytes key_tag env_secret config =
     (case generate_key hmac_key now random_bytes key_tag (dc_default_algorithm config)
             \<lparr> dk_config = config, dk_keys = [], dk_signature_cache = [], dk_last_rotation = 0 \<rparr> of
        (Inl e, m) \<Rightarrow> Inl e
      | (Inr i, m) \<Rightarrow> Inr (case env_secret of Some secret \<Rightarrow> add_hmac_key_from_env hmac_key now secret m | None \<Rightarrow> m))"

definition key_usable :: "instant \<Rightarrow> 'k DnssecKey \<Rightarrow> bool" where
  "key_usable now key = (km_is_active (k_metadata key) \<and> km_expires_at (k_metadata key) > now)"

definition get_active_key :: "instant \<Rightarrow> DnssecAlgorithm \<Rightarrow> 'k DnssecKeyManager \<Rightarrow> DnssecError + 'k DnssecKey" where
  "get_active_key now algorithm m =
     (case hget (dk_keys m) algorithm of
        None \<Rightarrow> Inl (KeyNotFound (''No keys for algorithm '' @ algorithm_debug algorithm))
      | Some algorithm_keys \<Rightarrow>
          (case find (key_usable now) algorithm_keys of
             None \<Rightarrow> Inl (KeyNotFound (''No active key for algorithm '' @ algorithm_debug algorithm))
           | Some key \<Rightarrow> Inr key))"

definition needs_rotation :: "instant \<Rightarrow> 'k DnssecKeyManager \<Rightarrow> bool" where
  "needs_rotation now m = (duration_since now (dk_last_rotation m) > from_secs (unat (dc_rotation_interval (dk_config m))))"

definition retire_keys :: "instant \<Rightarrow> duration \<Rightarrow> 'k DnssecKey list \<Rightarrow> 'k DnssecKey list" where
  "retire_keys now grace_period ks =
     filter (\<lambda>key. add_dur (km_expires_at (k_metadata key)) grace_period > now)
       (map (\<lambda>key. if km_expires_at (k_metadata key) < now
                   then key \<lparr> k_metadata := (k_metadata key) \<lparr> km_is_active := False \<rparr> \<rparr> else key) ks)"

definition deactivate_old_keys :: "instant \<Rightarrow> 'k DnssecKeyManager \<Rightarrow> 'k DnssecKeyManager" where
  "deactivate_old_keys now m =
     m \<lparr> dk_keys := map (\<lambda>(a, ks). (a, retire_keys now (from_secs (unat (dc_grace_period (dk_config m)))) ks)) (dk_keys m) \<rparr>"

text \<open>The random source of a rotation, per algorithm; a failed generation is only logged.\<close>

definition rotate_keys ::
  "(string \<Rightarrow> 'k) \<Rightarrow> instant \<Rightarrow> (DnssecAlgorithm \<Rightarrow> string + string) \<Rightarrow> (DnssecAlgorithm \<Rightarrow> u16)
     \<Rightarrow> 'k DnssecKeyManager \<Rightarrow> 'k DnssecKeyManager" where
  "rotate_keys hmac_key now random_bytes key_tag m =
     (let m' = fold (\<lambda>a m. snd (generate_key hmac_key now (random_bytes a) (key_tag a) a m))
                 [HmacSha256, RsaSha256, EcdsaP256Sha256] m
      in (deactivate_old_keys now m') \<lparr> dk_last_rotation := now \<rparr>)"

definition check_and_rotate_keys ::
  "(string \<Rightarrow> 'k) \<Rightarrow> instant \<Rightarrow> (DnssecAlgorithm \<Rightarrow> string + string) \<Rightarrow> (DnssecAlgorithm \<Rightarrow> u16)
     \<Rightarrow> 'k DnssecKeyManager \<Rightarrow> 'k DnssecKeyManager" where
  "check_and_rotate_keys hmac_key now random_bytes key_tag m =
     (if needs_rotation now m then rotate_keys hmac_key now random_bytes key_tag m else m)"

section \<open>Signatures\<close>

definition cache_fresh :: "instant \<Rightarrow> CacheEntry \<Rightarrow> bool" where
  "cache_fresh now entry = (ce_created_at entry \<le> now \<and> duration_since now (ce_created_at entry) < ce_ttl entry)"

definition get_cached_signature :: "instant \<Rightarrow> string \<Rightarrow> 'k DnssecKeyManager \<Rightarrow> string option" where
  "get_cached_signature now cache_key m =
     (case hget (dk_signature_cache m) cache_key of
        None \<Rightarrow> None
      | Some entry \<Rightarrow> if cache_fresh now entry then Some (ce_signature entry) else None)"

definition cache_signature :: "instant \<Rightarrow> string \<Rightarrow> string \<Rightarrow> 'k DnssecKeyManager \<Rightarrow> 'k DnssecKeyManager" where
  "cache_signature now cache_key signature m =
     m \<lparr> dk_signature_cache := hretain (\<lambda>_ entry. cache_fresh now entry)
          (hput cache_key \<lparr> ce_signature = signature, ce_created_at = now,
             ce_ttl = from_secs (unat (dc_signature_cache_ttl (dk_config m))) \<rparr> (dk_signature_cache m)) \<rparr>"

definition signature_key :: "(string \<Rightarrow> string) \<Rightarrow> DnssecAlgorithm \<Rightarrow> string \<Rightarrow> string" where
  "signature_key hex_encode algorithm data = algorithm_debug algorithm @ '':'' @ hex_encode data"

definition sign ::
  "('k \<Rightarrow> string \<Rightarrow> string) \<Rightarrow> (string \<Rightarrow> string) \<Rightarrow> instant \<Rightarrow> string \<Rightarrow> DnssecAlgorithm \<Rightarrow> 'k DnssecKeyManager
     \<Rightarrow> (DnssecError + string) \<times> 'k DnssecKeyManager" where
  "sign hmac_sign hex_encode now data algorithm m =
     (let cache_key = signature_key hex_encode algorithm data;
          cached = (if dc_enable_signature_cache (dk_config m) then get_cached_signature now cache_key m else None)
      in case cached of
           Some signature \<Rightarrow> (Inr signature, m)
         | None \<Rightarrow>
             (case get_active_key now algorithm m of
                Inl e \<Rightarrow> (Inl e, m)
              | Inr key \<Rightarrow>
                  let signature = hmac_sign (key_of_material (k_material key)) data in
                  (Inr signature,
                   if dc_enable_signature_cache (dk_config m) then cache_signature now cache_key signature m else m)))"

text \<open>The input of an RRSIG record and its signature.\<close>

record sig_input =
  si_type_covered :: nat
  si_algorithm :: hickory_algorithm
  si_num_labels :: "8 word"
  si_original_ttl :: u32
  si_expiration :: u32
  si_inception :: u32
  si_key_tag :: u16
  si_signer_name :: string

record rrsig =
  rs_input :: sig_input
  rs_sig :: string

text \<open>\<open>num_labels\<close> of a name comes from hickory.  The key tag is read at a second instant.\<close>

definition rrsig_record_with_algorithm ::
  "('k \<Rightarrow> string \<Rightarrow> string) \<Rightarrow> (string \<Rightarrow> string) \<Rightarrow> (string \<Rightarrow> 8 word) \<Rightarrow> (nat \<Rightarrow> instant) \<Rightarrow> string \<Rightarrow> nat \<Rightarrow> u32 \<Rightarrow> string
     \<Rightarrow> DnssecAlgorithm \<Rightarrow> 'k DnssecKeyManager \<Rightarrow> (DnssecError + rrsig) \<times> 'k DnssecKeyManager" where
  "rrsig_record_with_algorithm hmac_sign hex_encode num_labels clk name typ ttl rrset algorithm m =
     (let now = of_nat (as_secs (duration_since (clk 0) 0)) in
      case sign hmac_sign hex_encode (clk 1) rrset algorithm m of
        (Inl e, m') \<Rightarrow> (Inl e, m')
      | (Inr signature, m') \<Rightarrow>
          (case get_active_key (clk 2) algorithm m' of
             Inl e \<Rightarrow> (Inl e, m')
           | Inr key \<Rightarrow>
               (Inr \<lparr> rs_input = \<lparr> si_type_covered = typ, si_algorithm = to_hickory_algorithm algorithm,
                       si_num_labels = num_labels name, si_original_ttl = ttl, si_expiration = now + ttl, si_inception = now,
                       si_key_tag = km_key_tag (k_metadata key), si_signer_name = name \<rparr>,
                     rs_sig = signature \<rparr>, m')))"

section \<open>Validation\<close>

record ValidationStats =
  vs_total_validations :: u64
  vs_successful_validations :: u64
  vs_failed_validations :: u64
  vs_validations_by_algorithm :: "(string, u64) hmap"
  vs_average_validation_time_us :: u64

definition ValidationStats_default :: ValidationStats where
  "ValidationStats_default = \<lparr> vs_total_validations = 0, vs_successful_validations = 0, vs_failed_validations = 0,
     vs_validations_by_algorithm = [], vs_average_validation_time_us = 0 \<rparr>"

definition update_validation_stats :: "DnssecAlgorithm \<Rightarrow> bool \<Rightarrow> ValidationStats \<Rightarrow> ValidationStats" where
  "update_validation_stats algorithm increment_total v =
     (let k = algorithm_debug algorithm in
      v \<lparr> vs_total_validations := (if increment_total then vs_total_validations v + 1 else vs_total_validations v),
          vs_validations_by_algorithm := hput k (hget_or 0 (vs_validations_by_algorithm v) k + 1) (vs_validations_by_algorithm v) \<rparr>)"

definition update_timing_stats :: "u64 \<Rightarrow> ValidationStats \<Rightarrow> ValidationStats" where
  "update_timing_stats elapsed_us v =
     v \<lparr> vs_average_validation_time_us :=
          (if vs_total_validations v = 0 then elapsed_us
           else (vs_average_validation_time_us v * (vs_total_validations v - 1) + elapsed_us) div vs_total_validations v) \<rparr>"

definition update_validation_result :: "bool \<Rightarrow> ValidationStats \<Rightarrow> ValidationStats" where
  "update_validation_result is_valid v =
     (if is_valid then v \<lparr> vs_successful_validations := vs_successful_validations v + 1 \<rparr>
      else v \<lparr> vs_failed_validations := vs_failed_validations v + 1 \<rparr>)"

definition validate_rrsig ::
  "('k \<Rightarrow> string \<Rightarrow> string) \<Rightarrow> instant \<Rightarrow> u64 \<Rightarrow> rrsig \<Rightarrow> string \<Rightarrow> DnssecAlgorithm \<Rightarrow> 'k DnssecKeyManager \<Rightarrow> ValidationStats
     \<Rightarrow> (DnssecError + bool) \<times> ValidationStats" where
  "validate_rrsig hmac_sign now elapsed_us rrsig rrset algorithm m v =
     (let v1 = update_validation_stats algorithm True v in
      case get_active_key now algorithm m of
        Inl e \<Rightarrow> (Inl e, v1)
      | Inr key \<Rightarrow>
          let is_valid = (rs_sig rrsig = hmac_sign (key_of_material (k_material key)) rrset)
          in (Inr is_valid, update_validation_result is_valid (update_timing_stats elapsed_us v1)))"

definition algorithm_of_rrsig :: "hickory_algorithm \<Rightarrow> DnssecAlgorithm option" where
  "algorithm_of_rrsig a =
     (if a = Unknown 253 then Some HmacSha256 else if a = RSASHA256 then Some RsaSha256
      else if a = ECDSAP256SHA256 then Some EcdsaP256Sha256 else None)"

datatype ValidationStatus = Unsigned | Valid | Invalid | VError

record ValidationResult =
  vr_status :: ValidationStatus
  vr_valid_signatures :: u32
  vr_invalid_signatures :: u32
  vr_validation_errors :: u32
  vr_errors :: "string list"

definition ValidationResult_default :: ValidationResult where
  "ValidationResult_default = \<lparr> vr_status = Unsigned, vr_valid_signatures = 0, vr_invalid_signatures = 0,
     vr_validation_errors = 0, vr_errors = [] \<rparr>"

text \<open>
  A record of a message: its type, the RRSIG data if it has any, and the rest, which only the encoder
  reads.  The encoder appends to the buffer or fails.
\<close>

record 'd answer =
  an_type :: nat
  an_rrsig :: "rrsig option"
  an_data :: 'd

definition RRSIG_type :: nat where "RRSIG_type = 46"

fun encode_rrset :: "('d answer \<Rightarrow> string \<Rightarrow> (string + unit) \<times> string) \<Rightarrow> 'd answer list \<Rightarrow> string \<Rightarrow> string \<times> string list" where
  "encode_rrset emit [] buf = (buf, [])"
| "encode_rrset emit (r # rs) buf =
     (case emit r buf of (res, buf') \<Rightarrow>
        (case encode_rrset emit rs buf' of (out, errs) \<Rightarrow>
           (out, (case res of Inl e \<Rightarrow> [''Failed to encode RRset: '' @ e] | Inr u \<Rightarrow> []) @ errs)))"

definition dnssec_error_text :: "DnssecError \<Rightarrow> string" where
  "dnssec_error_text e =
     (case e of
        KeyGeneration m \<Rightarrow> ''Key generation failed: '' @ m
      | SigningFailed m \<Rightarrow> ''Signing failed: '' @ m
      | KeyRotation m \<Rightarrow> ''Key rotation failed: '' @ m
      | InvalidAlgorithm m \<Rightarrow> ''Invalid algorithm: '' @ m
      | KeyNotFound m \<Rightarrow> ''Key not found: '' @ m
      | Configuration m \<Rightarrow> ''Configuration error: '' @ m)"

text \<open>
  The loop over the RRSIG records.  \<open>debug_alg\<close> and \<open>debug_type\<close> stand for the debug texts of hickory's
  enumerations, \<open>elapsed\<close> for the measured time of a validation.
\<close>

definition validate_one ::
  "('k \<Rightarrow> string \<Rightarrow> string) \<Rightarrow> ('d answer \<Rightarrow> string \<Rightarrow> (string + unit) \<times> string) \<Rightarrow> (hickory_algorithm \<Rightarrow> string) \<Rightarrow> (nat \<Rightarrow> string)
     \<Rightarrow> instant \<Rightarrow> u64 \<Rightarrow> 'k DnssecKeyManager \<Rightarrow> 'd answer list \<Rightarrow> rrsig \<Rightarrow> ValidationResult \<times> ValidationStats \<Rightarrow> ValidationResult \<times> ValidationStats" where
  "validate_one hmac_sign emit debug_alg debug_type now elapsed m answers sg x =
     (case x of (result, stats) \<Rightarrow>
        let covered = filter (\<lambda>r. an_type r = si_type_covered (rs_input sg)) answers in
        if covered = [] then (result, stats)
        else
          (case encode_rrset emit covered [] of (rrset_data, errs) \<Rightarrow>
             let result1 = result \<lparr> vr_errors := vr_errors result @ errs \<rparr> in
             (case algorithm_of_rrsig (si_algorithm (rs_input sg)) of
                None \<Rightarrow>
                  (result1 \<lparr> vr_errors := vr_errors result1 @ [''Unsupported algorithm: '' @ debug_alg (si_algorithm (rs_input sg))] \<rparr>, stats)
              | Some algorithm \<Rightarrow>
                  (case validate_rrsig hmac_sign now elapsed sg rrset_data algorithm m stats of
                     (Inr True, stats') \<Rightarrow> (result1 \<lparr> vr_valid_signatures := vr_valid_signatures result1 + 1 \<rparr>, stats')
                   | (Inr False, stats') \<Rightarrow>
                       (result1 \<lparr> vr_invalid_signatures := vr_invalid_signatures result1 + 1,
                                  vr_errors := vr_errors result1 @ [''Invalid signature for '' @ debug_type (si_type_covered (rs_input sg)) @ '' record''] \<rparr>, stats')
                   | (Inl e, stats') \<Rightarrow>
                       (result1 \<lparr> vr_validation_errors := vr_validation_errors result1 + 1,
                                  vr_errors := vr_errors result1 @ [''Validation error: '' @ dnssec_error_text e] \<rparr>, stats')))))"

definition overall_status :: "ValidationResult \<Rightarrow> ValidationStatus" where
  "overall_status r =
     (if vr_validation_errors r > 0 then VError else if vr_invalid_signatures r > 0 then Invalid
      else if vr_valid_signatures r > 0 then Valid else Unsigned)"

definition validate_dns_message ::
  "('k \<Rightarrow> string \<Rightarrow> string) \<Rightarrow> ('d answer \<Rightarrow> string \<Rightarrow> (string + unit) \<times> string) \<Rightarrow> (hickory_algorithm \<Rightarrow> string) \<Rightarrow> (nat \<Rightarrow> string)
     \<Rightarrow> instant \<Rightarrow> u64 \<Rightarrow> 'k DnssecKeyManager \<Rightarrow> 'd answer list \<Rightarrow> ValidationStats \<Rightarrow> ValidationResult \<times> ValidationStats" where
  "validate_dns_message hmac_sign emit debug_alg debug_type now elapsed m answers stats =
     (let rrsig_records = filter (\<lambda>r. an_type r = RRSIG_type) answers in
      if rrsig_records = [] then (ValidationResult_default \<lparr> vr_status := Unsigned \<rparr>, stats)
      else
        (case fold (\<lambda>r x. case an_rrsig r of
                           Some sg \<Rightarrow> validate_one hmac_sign emit debug_alg debug_type now elapsed m answers sg x
                         | None \<Rightarrow> x)
                rrsig_records (ValidationResult_default, stats) of
           (result, stats') \<Rightarrow> (result \<lparr> vr_status := overall_status result \<rparr>, stats')))"

section \<open>The monitor\<close>

datatype AlertType = HighFailureRate | SlowValidation | KeyRotationNeeded | KeyGenerationFailure | SignatureCacheIssues

datatype AlertSeverity = AInfo | AWarning | ACritical

record Alert =
  al_type :: AlertType
  al_severity :: AlertSeverity
  al_timestamp :: instant
  al_stats :: ValidationStats

record AlertConfig =
  ac_min_validations_for_alert :: u64
  ac_max_avg_validation_time_us :: u64
  ac_alert_cooldown_seconds :: u64

definition AlertConfig_default :: AlertConfig where
  "AlertConfig_default = \<lparr> ac_min_validations_for_alert = 100, ac_max_avg_validation_time_us = 1000, ac_alert_cooldown_seconds = 300 \<rparr>"

text \<open>\<open>rate_high\<close> is the floating-point comparison of the failure rate with its threshold; message texts are left out.\<close>

definition current_alerts :: "(ValidationStats \<Rightarrow> bool) \<Rightarrow> AlertConfig \<Rightarrow> instant \<Rightarrow> ValidationStats \<Rightarrow> Alert list" where
  "current_alerts rate_high cfg now stats =
     (if vs_total_validations stats \<ge> ac_min_validations_for_alert cfg \<and> rate_high stats
      then [\<lparr> al_type = HighFailureRate, al_severity = ACritical, al_timestamp = now, al_stats = stats \<rparr>] else [])
     @ (if vs_average_validation_time_us stats > ac_max_avg_validation_time_us cfg
        then [\<lparr> al_type = SlowValidation, al_severity = AWarning, al_timestamp = now, al_stats = stats \<rparr>] else [])"

definition push_alert :: "Alert \<Rightarrow> Alert list \<Rightarrow> Alert list" where
  "push_alert a history = (let h = history @ [a] in if length h > 1000 then tl h else h)"

definition check_alerts ::
  "(ValidationStats \<Rightarrow> bool) \<Rightarrow> AlertConfig \<Rightarrow> instant \<Rightarrow> ValidationStats \<Rightarrow> Alert list \<Rightarrow> Alert list \<times> Alert list" where
  "check_alerts rate_high cfg now stats history =
     (let alerts = current_alerts rate_high cfg now stats in (alerts, fold push_alert alerts history))"

definition should_suppress_alert :: "AlertConfig \<Rightarrow> instant \<Rightarrow> AlertType \<Rightarrow> Alert list \<Rightarrow> bool" where
  "should_suppress_alert cfg now alert_type history =
     list_ex (\<lambda>a. al_type a = alert_type \<and> al_timestamp a > now - int (from_secs (unat (ac_alert_cooldown_seconds cfg)))) history"

definition get_recent_alerts :: "instant \<Rightarrow> duration \<Rightarrow> Alert list \<Rightarrow> Alert list" where
  "get_recent_alerts now d history = filter (\<lambda>a. al_timestamp a > now - int d) history"

section \<open>Which key signs\<close>

lemma find_append: "find P (xs @ ys) = (case find P xs of None \<Rightarrow> find P ys | Some x \<Rightarrow> Some x)"
  by (induction xs) auto

lemma find_retire:
  assumes "now \<le> t"
  shows "find (key_usable t) (retire_keys now g ks) = find (key_usable t) ks"
proof (induction ks)
  case (Cons k ks)
  show ?case
  proof (cases "key_usable t k")
    case True
    with assms have "\<not> km_expires_at (k_metadata k) < now" "add_dur (km_expires_at (k_metadata k)) g > now"
      by (auto simp: key_usable_def add_dur_def)
    with True show ?thesis by (simp add: retire_keys_def)
  next
    case False
    with Cons show ?thesis by (auto simp: retire_keys_def key_usable_def)
  qed
qed (simp add: retire_keys_def)

lemma hget_map_values: "hget (map (\<lambda>(a, v). (a, f v)) m) k = map_option f (hget m k)"
  by (induction m) auto

definition usable_key :: "instant \<Rightarrow> DnssecAlgorithm \<Rightarrow> 'k DnssecKeyManager \<Rightarrow> 'k DnssecKey option" where
  "usable_key t a m = find (key_usable t) (hget_or [] (dk_keys m) a)"

lemma get_active_key_ok: "get_active_key t a m = Inr k \<longleftrightarrow> usable_key t a m = Some k"
  by (auto simp: get_active_key_def usable_key_def hget_or_def split: option.splits)

lemma usable_push: "usable_key t a m = Some k \<Longrightarrow> usable_key t a (push_key b k' m) = Some k"
  by (auto simp: usable_key_def push_key_def hget_or_def find_append split: option.splits)

lemma usable_generate: "usable_key t a m = Some k \<Longrightarrow> usable_key t a (snd (generate_key f now r tag b m)) = Some k"
  by (auto simp: generate_key_def Let_def usable_push split: sum.split)

lemma usable_deactivate: "now \<le> t \<Longrightarrow> usable_key t a (deactivate_old_keys now m) = usable_key t a m"
  by (auto simp: usable_key_def deactivate_old_keys_def hget_or_def hget_map_values find_retire split: option.splits)

lemma usable_rotate: "now \<le> t \<Longrightarrow> usable_key t a m = Some k \<Longrightarrow> usable_key t a (rotate_keys f now r tag m) = Some k"
proof -
  assume "now \<le> t" "usable_key t a m = Some k"
  then have "usable_key t a (deactivate_old_keys now (fold (\<lambda>a m. snd (generate_key f now (r a) (tag a) a m))
      [HmacSha256, RsaSha256, EcdsaP256Sha256] m)) = Some k"
    by (simp add: usable_deactivate usable_generate)
  then show ?thesis by (simp add: rotate_keys_def Let_def usable_key_def)
qed

lemma usable_later:
  assumes "usable_key t a m = Some k" and "t \<le> t'" and "t' < km_expires_at (k_metadata k)"
  shows "usable_key t' a m = Some k"
proof -
  have "find (key_usable t) ks = Some k \<Longrightarrow> find (key_usable t') ks = Some k" for ks :: "'a DnssecKey list"
    using assms(2,3) by (induction ks) (auto simp: key_usable_def split: if_splits)
  with assms(1) show ?thesis by (simp add: usable_key_def)
qed

lemma usable_cache [simp]: "usable_key t a (m\<lparr>dk_signature_cache := c\<rparr>) = usable_key t a m"
  by (simp add: usable_key_def)

lemma usable_sign [simp]: "usable_key t a (snd (sign h hx now d b m)) = usable_key t a m"
  by (simp add: sign_def cache_signature_def Let_def split: option.split sum.split)

section \<open>Runs of the key manager\<close>

text \<open>What can happen to a key manager: signatures of any algorithm, generated keys, and rotations, due or forced.\<close>

datatype key_event =
    Sign_event instant string DnssecAlgorithm
  | Generate_event instant "string + string" u16 DnssecAlgorithm
  | Rotate_event instant "DnssecAlgorithm \<Rightarrow> string + string" "DnssecAlgorithm \<Rightarrow> u16"
  | Check_event instant "DnssecAlgorithm \<Rightarrow> string + string" "DnssecAlgorithm \<Rightarrow> u16"

fun event_time :: "key_event \<Rightarrow> instant" where
  "event_time (Sign_event t d a) = t"
| "event_time (Generate_event t r g a) = t"
| "event_time (Rotate_event t r g) = t"
| "event_time (Check_event t r g) = t"

fun key_step ::
  "(string \<Rightarrow> 'k) \<Rightarrow> ('k \<Rightarrow> string \<Rightarrow> string) \<Rightarrow> (string \<Rightarrow> string) \<Rightarrow> key_event \<Rightarrow> 'k DnssecKeyManager \<Rightarrow> 'k DnssecKeyManager" where
  "key_step f h hx (Sign_event t d a) m = snd (sign h hx t d a m)"
| "key_step f h hx (Generate_event t r g a) m = snd (generate_key f t r g a m)"
| "key_step f h hx (Rotate_event t r g) m = rotate_keys f t r g m"
| "key_step f h hx (Check_event t r g) m = check_and_rotate_keys f t r g m"

text \<open>Every cached signature of the algorithm was made with the key.\<close>

definition cache_by :: "('k \<Rightarrow> string \<Rightarrow> string) \<Rightarrow> (string \<Rightarrow> string) \<Rightarrow> DnssecAlgorithm \<Rightarrow> 'k DnssecKey \<Rightarrow> 'k DnssecKeyManager \<Rightarrow> bool" where
  "cache_by h hx a k m \<longleftrightarrow>
     (\<forall>d e. (signature_key hx a d, e) \<in> set (dk_signature_cache m) \<longrightarrow> ce_signature e = h (key_of_material (k_material k)) d)"

lemma set_hput: "set (hput k v m) \<subseteq> insert (k, v) (set m)"
  unfolding hput_def by (induction m) auto

lemma signature_key_inj:
  assumes "inj hx"
  shows "signature_key hx a d = signature_key hx b e \<longleftrightarrow> a = b \<and> d = e"
  using assms by (cases a; cases b) (auto simp: signature_key_def inj_eq)

lemma sign_by_key:
  assumes hx: "inj hx" and k: "usable_key t a m = Some k" and c: "cache_by h hx a k m"
  shows "fst (sign h hx t d a m) = Inr (h (key_of_material (k_material k)) d)"
proof -
  have "get_active_key t a m = Inr k" using k by (simp add: get_active_key_ok)
  moreover have "get_cached_signature t (signature_key hx a d) m = Some sg \<Longrightarrow> sg = h (key_of_material (k_material k)) d" for sg
    using c by (auto simp: get_cached_signature_def cache_by_def dest!: hget_SomeD split: option.splits if_splits)
  ultimately show ?thesis by (auto simp: sign_def Let_def split: option.split)
qed

lemma cache_by_sign:
  assumes hx: "inj hx" and k: "usable_key t a m = Some k" and c: "cache_by h hx a k m"
  shows "cache_by h hx a k (snd (sign h hx t d b m))"
proof (cases "snd (sign h hx t d b m) = m")
  case False
  then obtain kb where kb: "get_active_key t b m = Inr kb"
    and m': "snd (sign h hx t d b m) = cache_signature t (signature_key hx b d) (h (key_of_material (k_material kb)) d) m"
    by (auto simp: sign_def Let_def split: option.splits sum.splits if_splits)
  have own: "b = a \<Longrightarrow> kb = k" using kb k by (simp add: get_active_key_ok)
  show ?thesis
    unfolding cache_by_def m'
  proof (intro allI impI)
    fix d' e
    assume "(signature_key hx a d', e) \<in> set (dk_signature_cache (cache_signature t (signature_key hx b d) (h (key_of_material (k_material kb)) d) m))"
    then have "(signature_key hx a d', e) \<in> set (hput (signature_key hx b d)
        \<lparr> ce_signature = h (key_of_material (k_material kb)) d, ce_created_at = t,
          ce_ttl = from_secs (unat (dc_signature_cache_ttl (dk_config m))) \<rparr> (dk_signature_cache m))"
      by (auto simp: cache_signature_def hretain_def)
    with set_hput show "ce_signature e = h (key_of_material (k_material k)) d'"
      using c own signature_key_inj [OF hx, of a d' b d] unfolding cache_by_def by fastforce
  qed
qed (use c in simp)

lemma cache_by_keys [simp]:
  "cache_by h hx a k (snd (generate_key f t r g b m)) = cache_by h hx a k m"
  "cache_by h hx a k (rotate_keys f t rs gs m) = cache_by h hx a k m"
proof -
  have c: "dk_signature_cache (snd (generate_key f t r g b m)) = dk_signature_cache m" for r g b m
    by (simp add: generate_key_def push_key_def Let_def split: sum.split)
  show "cache_by h hx a k (snd (generate_key f t r g b m)) = cache_by h hx a k m" by (simp add: cache_by_def c)
  show "cache_by h hx a k (rotate_keys f t rs gs m) = cache_by h hx a k m"
    by (simp add: cache_by_def rotate_keys_def deactivate_old_keys_def Let_def c)
qed

lemma key_step_keeps:
  assumes hx: "inj hx" and k: "usable_key (event_time e) a m = Some k" and c: "cache_by h hx a k m"
  shows "usable_key (event_time e) a (key_step f h hx e m) = Some k \<and> cache_by h hx a k (key_step f h hx e m)"
  using k c
  by (cases e) (auto simp: cache_by_sign [OF hx] usable_generate usable_rotate check_and_rotate_keys_def)

lemma key_run_keeps:
  assumes hx: "inj hx" and "usable_key t a m = Some k" and "cache_by h hx a k m"
    and "sorted (t # map event_time es)" and "\<forall>e \<in> set es. event_time e < km_expires_at (k_metadata k)"
    and "t' < km_expires_at (k_metadata k)" and "\<forall>e \<in> set es. event_time e \<le> t'" and "t \<le> t'"
  shows "usable_key t' a (fold (key_step f h hx) es m) = Some k \<and> cache_by h hx a k (fold (key_step f h hx) es m)"
  using assms(2-8)
proof (induction es arbitrary: t m)
  case Nil
  then show ?case by (auto intro: usable_later)
next
  case (Cons e es)
  have "usable_key (event_time e) a m = Some k" by (rule usable_later [OF Cons.prems(1)]) (use Cons.prems in auto)
  from key_step_keeps [OF hx this Cons.prems(2)]
  have st: "usable_key (event_time e) a (key_step f h hx e m) = Some k" "cache_by h hx a k (key_step f h hx e m)" by auto
  have "usable_key t' a (fold (key_step f h hx) es (key_step f h hx e m)) = Some k
      \<and> cache_by h hx a k (fold (key_step f h hx) es (key_step f h hx e m))"
    by (rule Cons.IH [OF st]) (use Cons.prems in auto)
  then show ?case by simp
qed

section \<open>Rotation\<close>

lemma generated_usable:
  assumes "t < add_dur now (from_secs (unat (dc_rotation_interval (dk_config m))))"
  shows "usable_key t a (snd (generate_key f now (Inr b) g a m)) \<noteq> None"
  using assms
  by (auto simp: generate_key_def Let_def push_key_def usable_key_def hget_or_def find_append key_usable_def split: option.split)

lemma generate_config [simp]: "dk_config (snd (generate_key f now r g a m)) = dk_config m"
  by (simp add: generate_key_def push_key_def Let_def split: sum.split)

lemma generated_keys:
  "hget_or [] (dk_keys (snd (generate_key f now (Inr b) g a m))) x =
     hget_or [] (dk_keys m) x @
     (if x = a then [\<lparr> k_metadata = \<lparr> km_key_id = algorithm_debug a @ ''-'' @ dec (as_secs (duration_since now 0)), km_algorithm = a,
          km_created_at = now, km_expires_at = add_dur now (from_secs (unat (dc_rotation_interval (dk_config m)))),
          km_is_active = True, km_key_tag = g \<rparr>, k_material = material_for a (f b) \<rparr>] else [])"
  by (simp add: generate_key_def push_key_def hget_or_def Let_def)

lemma deactivated_keys:
  "hget_or [] (dk_keys (deactivate_old_keys now m)) x
     = retire_keys now (from_secs (unat (dc_grace_period (dk_config m)))) (hget_or [] (dk_keys m) x)"
  by (simp add: deactivate_old_keys_def hget_or_def hget_map_values retire_keys_def split: option.split)

lemma retire_append: "retire_keys now g (xs @ ys) = retire_keys now g xs @ retire_keys now g ys"
  by (simp add: retire_keys_def)

lemma retire_fresh: "now \<le> km_expires_at (k_metadata k) \<Longrightarrow> now < add_dur (km_expires_at (k_metadata k)) g \<Longrightarrow> retire_keys now g [k] = [k]"
  by (simp add: retire_keys_def)

section \<open>Messages\<close>

text \<open>The verdict on one signature of a message: not considered, or the outcome of its validation.\<close>

definition verdict ::
  "('k \<Rightarrow> string \<Rightarrow> string) \<Rightarrow> ('d answer \<Rightarrow> string \<Rightarrow> (string + unit) \<times> string) \<Rightarrow> instant \<Rightarrow> 'k DnssecKeyManager \<Rightarrow> 'd answer list \<Rightarrow> rrsig
     \<Rightarrow> (DnssecError + bool) option" where
  "verdict h emit now m answers sg =
     (let covered = filter (\<lambda>r. an_type r = si_type_covered (rs_input sg)) answers in
      if covered = [] then None
      else map_option (\<lambda>a. case get_active_key now a m of
                Inl e \<Rightarrow> Inl e
              | Inr k \<Rightarrow> Inr (rs_sig sg = h (key_of_material (k_material k)) (fst (encode_rrset emit covered []))))
             (algorithm_of_rrsig (si_algorithm (rs_input sg))))"

definition message_signatures :: "'d answer list \<Rightarrow> rrsig list" where
  "message_signatures answers = List.map_filter an_rrsig (filter (\<lambda>r. an_type r = RRSIG_type) answers)"

definition is_failure :: "(DnssecError + bool) option \<Rightarrow> bool" where
  "is_failure v = (case v of Some (Inl e) \<Rightarrow> True | _ \<Rightarrow> False)"

lemma is_failure_iff: "is_failure v \<longleftrightarrow> (\<exists>e. v = Some (Inl e))"
  by (auto simp: is_failure_def split: option.splits sum.splits)

definition counted :: "ValidationResult \<Rightarrow> u32 \<times> u32 \<times> u32" where
  "counted r = (vr_valid_signatures r, vr_invalid_signatures r, vr_validation_errors r)"

lemma validate_one_counts:
  "counted (fst (validate_one h emit da dt now el m answers sg (r, st))) =
     (case counted r of (a, b, c) \<Rightarrow>
        (case verdict h emit now m answers sg of
           None \<Rightarrow> (a, b, c) | Some (Inr True) \<Rightarrow> (a + 1, b, c) | Some (Inr False) \<Rightarrow> (a, b + 1, c) | Some (Inl e) \<Rightarrow> (a, b, c + 1)))"
  by (auto simp: validate_one_def verdict_def counted_def validate_rrsig_def Let_def split: option.splits sum.splits prod.splits bool.splits)

lemma validate_all_counts:
  "counted (fst (fold (validate_one h emit da dt now el m answers) sgs (r, st))) =
     (let vs = map (verdict h emit now m answers) sgs in
      (case counted r of (a, b, c) \<Rightarrow>
         (a + of_nat (count_list vs (Some (Inr True))), b + of_nat (count_list vs (Some (Inr False))),
          c + of_nat (length (filter is_failure vs)))))"
proof (induction sgs arbitrary: r st)
  case (Cons sg sgs)
  obtain r' st' where one: "validate_one h emit da dt now el m answers sg (r, st) = (r', st')"
    by (cases "validate_one h emit da dt now el m answers sg (r, st)")
  have c: "counted r' = (case counted r of (a, b, c) \<Rightarrow>
        (case verdict h emit now m answers sg of
           None \<Rightarrow> (a, b, c) | Some (Inr True) \<Rightarrow> (a + 1, b, c) | Some (Inr False) \<Rightarrow> (a, b + 1, c) | Some (Inl e) \<Rightarrow> (a, b, c + 1)))"
    using validate_one_counts [of h emit da dt now el m answers sg r st] by (simp add: one)
  show ?case
    using Cons.IH [of r' st'] c
    by (cases "counted r") (auto simp: one Let_def is_failure_def split: option.splits sum.splits bool.splits)
qed (simp add: Let_def split: prod.split)

lemma fold_map_filter:
  "fold (\<lambda>r x. case g r of Some y \<Rightarrow> f y x | None \<Rightarrow> x) rs x = fold f (List.map_filter g rs) x"
  by (induction rs arbitrary: x) (auto simp: List.map_filter_def split: option.split)

lemma count_zero_iff:
  assumes "length vs < 2 ^ 32"
  shows "(of_nat (count_list vs v) :: u32) = 0 \<longleftrightarrow> v \<notin> set vs"
    and "(of_nat (length (filter P vs)) :: u32) = 0 \<longleftrightarrow> (\<forall>x \<in> set vs. \<not> P x)"
proof -
  have small: "n \<le> length vs \<Longrightarrow> (of_nat n :: u32) = 0 \<longleftrightarrow> n = 0" for n
    using assms by (simp add: word_unat_eq_iff unat_of_nat take_bit_nat_eq_self)
  show "(of_nat (count_list vs v) :: u32) = 0 \<longleftrightarrow> v \<notin> set vs"
    by (simp add: small count_le_length count_list_0_iff)
  show "(of_nat (length (filter P vs)) :: u32) = 0 \<longleftrightarrow> (\<forall>x \<in> set vs. \<not> P x)"
    by (simp add: small filter_empty_conv)
qed

section \<open>Properties\<close>


definition key_demo_config :: DnssecConfig where
  "key_demo_config = DnssecConfig_default\<lparr>dc_rotation_interval := 100\<rparr>"


text \<open>
  A rotation whose random source works gives every algorithm one new key with the configured lifetime,
  so that each has a usable key for a whole interval and no further rotation is due in it.  The older
  keys are the ones not past the grace period, in their order, deactivated exactly when expired; their
  number is not limited.
\<close>

lemma rotation_effect:
  assumes interval: "0 < dc_rotation_interval (dk_config m)"
  shows "let m' = rotate_keys f now (\<lambda>a. Inr (b a)) tag m;
             interval = from_secs (unat (dc_rotation_interval (dk_config m)));
             grace = from_secs (unat (dc_grace_period (dk_config m)))
         in (\<forall>a. \<exists>k. hget_or [] (dk_keys m') a = retire_keys now grace (hget_or [] (dk_keys m) a) @ [k]
                 \<and> key_of_material (k_material k) = f (b a) \<and> km_expires_at (k_metadata k) = add_dur now interval)
            \<and> (\<forall>a t. now \<le> t \<and> t < add_dur now interval \<longrightarrow> is_ok (get_active_key t a m'))
            \<and> (\<forall>t. t \<le> add_dur now interval \<longrightarrow> \<not> needs_rotation t m')"
proof -
  let ?m' = "rotate_keys f now (\<lambda>a. Inr (b a)) tag m"
  let ?i = "from_secs (unat (dc_rotation_interval (dk_config m)))" and ?g = "from_secs (unat (dc_grace_period (dk_config m)))"
  have pos: "0 < ?i" using interval by (simp add: from_secs_def nanos_per_sec_def word_less_nat_alt)
  have key: "\<exists>k. hget_or [] (dk_keys ?m') a = retire_keys now ?g (hget_or [] (dk_keys m) a) @ [k]
      \<and> key_of_material (k_material k) = f (b a) \<and> km_expires_at (k_metadata k) = add_dur now ?i \<and> km_is_active (k_metadata k)" for a
    using pos by (cases a) (simp_all add: rotate_keys_def Let_def deactivated_keys generated_keys retire_append retire_fresh add_dur_def)
  have active: "is_ok (get_active_key t a ?m')" if t: "now \<le> t" "t < add_dur now ?i" for a t
  proof -
    from key [of a] obtain k where "hget_or [] (dk_keys ?m') a = retire_keys now ?g (hget_or [] (dk_keys m) a) @ [k]"
      and k: "km_expires_at (k_metadata k) = add_dur now ?i" "km_is_active (k_metadata k)" by blast
    then have "k \<in> set (hget_or [] (dk_keys ?m') a)" by simp
    with k t have "usable_key t a ?m' \<noteq> None" by (auto simp: usable_key_def find_None_iff key_usable_def)
    then obtain k' where "usable_key t a ?m' = Some k'" by blast
    then show ?thesis by (simp flip: get_active_key_ok)
  qed
  have "\<not> needs_rotation t ?m'" if "t \<le> add_dur now ?i" for t
    using that by (simp add: needs_rotation_def rotate_keys_def deactivate_old_keys_def Let_def duration_since_def add_dur_def)
  with key active show ?thesis unfolding Let_def by blast
qed

lemma rotation_effect_witness:
  "\<exists>m :: string DnssecKeyManager. is_ok (get_active_key 60000000000 EcdsaP256Sha256 (rotate_keys (\<lambda>b. b) 50 (\<lambda>_. Inr ''new'') (\<lambda>_. 8) m))"
proof -
  let ?m = "\<lparr> dk_config = key_demo_config, dk_keys = [], dk_signature_cache = [], dk_last_rotation = 0 \<rparr> :: string DnssecKeyManager"
  have "0 < dc_rotation_interval (dk_config ?m)" by (simp add: key_demo_config_def)
  from rotation_effect [OF this, of "\<lambda>b. b" 50 "\<lambda>_. ''new''" "\<lambda>_. 8"]
  have "is_ok (get_active_key 60000000000 EcdsaP256Sha256 (rotate_keys (\<lambda>b. b) 50 (\<lambda>_. Inr ''new'') (\<lambda>_. 8) ?m))"
    by (simp add: Let_def key_demo_config_def add_dur_def from_secs_def nanos_per_sec_def)
  then show ?thesis by blast
qed



end
