(* ===== verification/Auth_Tokens.thy ===== *)
theory Auth_Tokens
  imports Tunnel_Types Errors
begin

text \<open>
  The authentication crate (\<open>crates/auth/src/lib.rs\<close>), the middleware of the API that uses it
  (\<open>crates/backendapi/src/middleware/auth.rs\<close>) and the login handlers
  (\<open>crates/backendapi/src/handlers/auth.rs\<close>). Parameters: the MD5 digest in lowercase hexadecimal
  (the \<open>md5\<close> crate), the request headers as the \<open>http\<close> crate reports them (for a name the first value,
  \<open>Inl\<close> when it is not a visible ASCII text), and the answers of the GitHub endpoints.
\<close>

section \<open>Data\<close>

record GitHubUser =
  gu_id :: string
  gu_login :: string
  gu_name :: "string option"
  gu_email :: "string option"
  gu_avatar_url :: string
  gu_public_repos :: "u32 option"
  gu_followers :: "u32 option"
  gu_following :: "u32 option"
  gu_created_at :: "string option"
  gu_updated_at :: "string option"

record ServicePlan =
  sp_id :: string
  sp_name :: string
  sp_api_rate_limit :: u32
  sp_tunnel_creation_limit :: u32
  sp_dns_provisioning_limit :: u32
  sp_max_concurrent_tunnels :: u32
  sp_features_json :: "string option"
  sp_created_at :: instant

record GitHubUserResponse =
  gr_id :: u64
  gr_login :: string
  gr_name :: "string option"
  gr_email :: "string option"
  gr_avatar_url :: string
  gr_public_repos :: "u32 option"
  gr_followers :: "u32 option"
  gr_following :: "u32 option"
  gr_created_at :: "string option"
  gr_updated_at :: "string option"

type_synonym headers = "string \<Rightarrow> (unit + string) option"

text \<open>An answer of the GitHub user endpoint: status, scope header, and the decoded body.\<close>

record user_answer =
  ua_status :: u16
  ua_scopes :: "(unit + string) option"
  ua_body :: "string + GitHubUserResponse"

definition is_success :: "u16 \<Rightarrow> bool" where
  "is_success s = (200 \<le> s \<and> s < 300)"

definition REQUIRED_SCOPES :: "string list" where
  "REQUIRED_SCOPES = [''user:email'', ''read:user'']"

primrec auth_to_string :: "AuthError \<Rightarrow> string" where
  "auth_to_string (Auth_AuthenticationFailed m) = ''Authentication failed: '' @ m"
| "auth_to_string (Auth_Unauthorized m) = ''Unauthorized: '' @ m"
| "auth_to_string (Auth_ExternalService m) = ''External service error: '' @ m"
| "auth_to_string (Auth_ConfigurationError m) = ''Configuration error: '' @ m"
| "auth_to_string Auth_TokenExpired = ''Token expired''"
| "auth_to_string Auth_InvalidTokenFormat = ''Invalid token format''"
| "auth_to_string Auth_InvalidTokenSignature = ''Invalid token signature''"
| "auth_to_string (Auth_InsufficientScopes required granted) =
     ''Insufficient scopes: required '' @ required @ '', granted '' @ granted"
| "auth_to_string Auth_TokenRevoked = ''Token revoked''"

section \<open>Text and integers of the standard library\<close>

text \<open>\<open>join\<close> of a slice of strings, \<open>split\<close> at comma and space, and the \<open>i64\<close> operations.\<close>

fun join_with :: "string \<Rightarrow> string list \<Rightarrow> string" where
  "join_with sep [] = []"
| "join_with sep [x] = x"
| "join_with sep (x # y # ys) = x @ sep @ join_with sep (y # ys)"

fun split_comma_space :: "string \<Rightarrow> string list" where
  "split_comma_space (a # b # s) =
     (if a = CHR '','' \<and> b = CHR '' '' then [] # split_comma_space s
      else (case split_comma_space (b # s) of [] \<Rightarrow> [[a]] | y # ys \<Rightarrow> (a # y) # ys))"
| "split_comma_space s = [s]"

definition parse_i64 :: "string \<Rightarrow> int option" where
  "parse_i64 s =
     (let signed = s \<noteq> [] \<and> hd s \<in> {CHR ''-'', CHR ''+''} in
      case parse_nat (if signed then tl s else s) of
        None \<Rightarrow> None
      | Some n \<Rightarrow>
          let v = (if signed \<and> hd s = CHR ''-'' then - int n else int n) in
          if - (2 ^ 63) \<le> v \<and> v < 2 ^ 63 then Some v else None)"

text \<open>\<open>DateTime::timestamp\<close>: whole seconds since the epoch.\<close>

definition timestamp :: "instant \<Rightarrow> int" where
  "timestamp now = now div int nanos_per_sec"

section \<open>Credentials of a request\<close>

definition dev_bypass_token :: string where
  "dev_bypass_token = ''dev-bypass-token''"

definition extract_bearer_token_with_dev_bypass :: "headers \<Rightarrow> bool \<Rightarrow> AuthError + string" where
  "extract_bearer_token_with_dev_bypass hs development_mode =
     (if development_mode \<and> hs ''x-development-bypass'' = Some (Inr ''true'') then Inr dev_bypass_token
      else (case hs ''authorization'' of
        None \<Rightarrow> Inl (Auth_AuthenticationFailed ''Missing Authorization header'')
      | Some (Inl _) \<Rightarrow> Inl (Auth_AuthenticationFailed ''Invalid Authorization header'')
      | Some (Inr auth_str) \<Rightarrow>
          if \<not> starts_with auth_str ''Bearer '' then
            Inl (Auth_AuthenticationFailed (''Authorization header must start with '' @ [CHR 0x27] @ ''Bearer '' @ [CHR 0x27]))
          else if \<not> development_mode \<and> trim (drop 7 auth_str) = dev_bypass_token then
            Inl (Auth_AuthenticationFailed ''Development bypass token is not accepted'')
          else Inr (drop 7 auth_str)))"

definition extract_bearer_token :: "headers \<Rightarrow> AuthError + string" where
  "extract_bearer_token hs = extract_bearer_token_with_dev_bypass hs False"

definition generate_jwt_token :: "(string \<Rightarrow> string) \<Rightarrow> instant \<Rightarrow> GitHubUser \<Rightarrow> string \<Rightarrow> string" where
  "generate_jwt_token md5 now user secret =
     (let payload = gu_id user @ '':'' @ gu_login user @ '':'' @ int_to_string (timestamp now);
          signature = md5 (payload @ secret)
      in payload @ ''.'' @ signature)"

definition named_user :: "string \<Rightarrow> string \<Rightarrow> GitHubUser" where
  "named_user i l =
     \<lparr> gu_id = i, gu_login = l, gu_name = None, gu_email = None, gu_avatar_url = [],
       gu_public_repos = None, gu_followers = None, gu_following = None,
       gu_created_at = None, gu_updated_at = None \<rparr>"

definition dev_user :: GitHubUser where
  "dev_user =
     \<lparr> gu_id = ''0'', gu_login = ''dev-user'', gu_name = Some ''Development User'',
       gu_email = Some ''dev@fleetingdns.run'', gu_avatar_url = ''https://github.com/github.png'',
       gu_public_repos = None, gu_followers = None, gu_following = None,
       gu_created_at = None, gu_updated_at = None \<rparr>"

definition validate_jwt_token :: "(string \<Rightarrow> string) \<Rightarrow> instant \<Rightarrow> string \<Rightarrow> string \<Rightarrow> AuthError + GitHubUser" where
  "validate_jwt_token md5 now token secret =
     (if token = dev_bypass_token then Inr dev_user
      else (case split_on (CHR ''.'') token of
        [payload, signature] \<Rightarrow>
          if signature \<noteq> md5 (payload @ secret) then Inl Auth_InvalidTokenSignature
          else (case split_on (CHR '':'') payload of
            [uid, username, ts] \<Rightarrow>
              (case parse_i64 ts of
                 None \<Rightarrow> Inl Auth_InvalidTokenFormat
               | Some t \<Rightarrow>
                   let token_time = wrap_i64 (timestamp now - t) in
                   if token_time > 86400 then Inl Auth_TokenExpired else Inr (named_user uid username))
          | _ \<Rightarrow> Inl Auth_InvalidTokenFormat)
      | _ \<Rightarrow> Inl Auth_InvalidTokenFormat))"

definition pro_plan :: "instant \<Rightarrow> ServicePlan" where
  "pro_plan now =
     \<lparr> sp_id = ''pro'', sp_name = ''Pro'', sp_api_rate_limit = 300, sp_tunnel_creation_limit = 50,
       sp_dns_provisioning_limit = 100, sp_max_concurrent_tunnels = 20, sp_features_json = None,
       sp_created_at = now \<rparr>"

definition validate_jwt_token_with_plan ::
    "(string \<Rightarrow> string) \<Rightarrow> instant \<Rightarrow> string \<Rightarrow> string \<Rightarrow> AuthError + GitHubUser \<times> ServicePlan" where
  "validate_jwt_token_with_plan md5 now token secret =
     (case validate_jwt_token md5 now token secret of
        Inl e \<Rightarrow> Inl e
      | Inr user \<Rightarrow> Inr (user, pro_plan now))"

text \<open>The two calls every handler opens with, the authentication errors converted by the \<open>?\<close> operator.\<close>

definition authenticate ::
    "(string \<Rightarrow> string) \<Rightarrow> string \<Rightarrow> bool \<Rightarrow> headers \<Rightarrow> instant \<Rightarrow> ApiError + GitHubUser" where
  "authenticate md5 jwt_secret development_mode hs now =
     (case extract_bearer_token_with_dev_bypass hs development_mode of
        Inl e \<Rightarrow> Inl (api_from_auth e)
      | Inr token \<Rightarrow> map_err_res api_from_auth (validate_jwt_token md5 now token jwt_secret))"

section \<open>Middleware\<close>

definition is_public_endpoint :: "string \<Rightarrow> bool" where
  "is_public_endpoint path =
     list_ex (\<lambda>public_path. starts_with path public_path)
       [''/health'', ''/v1/auth/github'', ''/v1/auth/token'', ''/metrics'', ''/docs'', ''/openapi.json'']"

record AuthenticatedUser =
  au_user_id :: string
  au_username :: string
  au_email :: "string option"
  au_avatar_url :: string

text \<open>
  \<open>next\<close> stands for the rest of the stack, run on the request with the user context inserted, or on the
  request as it came for a public path.
\<close>

definition auth_middleware ::
    "(string \<Rightarrow> string) \<Rightarrow> string \<Rightarrow> bool \<Rightarrow> headers \<Rightarrow> instant \<Rightarrow> string \<Rightarrow> (AuthenticatedUser option \<Rightarrow> 'r) \<Rightarrow> ApiError + 'r" where
  "auth_middleware md5 jwt_secret development_mode hs now path next_run =
     (if is_public_endpoint path then Inr (next_run None)
      else (case extract_bearer_token_with_dev_bypass hs development_mode of
        Inl e \<Rightarrow> Inl (AuthenticationFailed (auth_to_string e))
      | Inr token \<Rightarrow>
          (case validate_jwt_token md5 now token jwt_secret of
             Inl e \<Rightarrow> Inl (AuthenticationFailed (auth_to_string e))
           | Inr user \<Rightarrow>
               Inr (next_run (Some \<lparr> au_user_id = gu_id user, au_username = gu_login user,
                 au_email = gu_email user, au_avatar_url = gu_avatar_url user \<rparr>)))))"

section \<open>GitHub\<close>

definition first_segment :: "string \<Rightarrow> string" where
  "first_segment s = hd (split_on (CHR '':'') s)"

definition grants_scope :: "string \<Rightarrow> string \<Rightarrow> bool" where
  "grants_scope required_scope scope =
     (scope = required_scope
      \<or> CHR '':'' \<in> set required_scope \<and> scope = first_segment required_scope
      \<or> CHR '':'' \<in> set scope \<and> CHR '':'' \<in> set required_scope
          \<and> first_segment scope = first_segment required_scope)"

definition has_required_scopes :: "string list \<Rightarrow> bool" where
  "has_required_scopes granted_scopes =
     list_all (\<lambda>required_scope. list_ex (grants_scope required_scope) granted_scopes) REQUIRED_SCOPES"

definition github_user_of :: "GitHubUserResponse \<Rightarrow> GitHubUser" where
  "github_user_of r =
     \<lparr> gu_id = dec (unat (gr_id r)), gu_login = gr_login r, gu_name = gr_name r, gu_email = gr_email r,
       gu_avatar_url = gr_avatar_url r, gu_public_repos = gr_public_repos r,
       gu_followers = gr_followers r, gu_following = gr_following r,
       gu_created_at = gr_created_at r, gu_updated_at = gr_updated_at r \<rparr>"

definition validate_github_token ::
    "(string \<Rightarrow> string + user_answer) \<Rightarrow> string \<Rightarrow> AuthError + GitHubUser" where
  "validate_github_token send token =
     (case send token of
        Inl e \<Rightarrow> Inl (Auth_ExternalService e)
      | Inr response \<Rightarrow>
          if \<not> is_success (ua_status response) then
            (if ua_status response = 401 then Inl Auth_TokenRevoked
             else Inl (Auth_AuthenticationFailed ''Invalid GitHub token''))
          else
            (let granted = (case ua_scopes response of Some (Inr s) \<Rightarrow> Some (split_comma_space s) | _ \<Rightarrow> None) in
             case granted of
               Some granted_scopes \<Rightarrow>
                 if \<not> has_required_scopes granted_scopes then
                   Inl (Auth_InsufficientScopes (join_with '', '' REQUIRED_SCOPES) (join_with '', '' granted_scopes))
                 else map_err_res Auth_ExternalService (map_sum id github_user_of (ua_body response))
             | None \<Rightarrow> map_err_res Auth_ExternalService (map_sum id github_user_of (ua_body response))))"

definition get_github_user :: "(string \<Rightarrow> string + user_answer) \<Rightarrow> string \<Rightarrow> AuthError + GitHubUser" where
  "get_github_user send token =
     (case send token of
        Inl e \<Rightarrow> Inl (Auth_ExternalService e)
      | Inr response \<Rightarrow>
          if \<not> is_success (ua_status response) then
            (if ua_status response = 401 then Inl Auth_TokenRevoked
             else Inl (Auth_Unauthorized ''Invalid GitHub token''))
          else map_err_res Auth_ExternalService (map_sum id github_user_of (ua_body response)))"

text \<open>The token endpoint answers a code with a status and the decoded access token.\<close>

definition exchange_github_code ::
    "(string \<Rightarrow> string \<Rightarrow> string \<Rightarrow> string + u16 \<times> (string + string)) \<Rightarrow> string \<Rightarrow> string \<Rightarrow> string \<Rightarrow> AuthError + string" where
  "exchange_github_code post client_id client_secret code =
     (case post client_id client_secret code of
        Inl e \<Rightarrow> Inl (Auth_ExternalService e)
      | Inr (status, body) \<Rightarrow>
          if \<not> is_success status then Inl (Auth_AuthenticationFailed ''Failed to exchange GitHub code'')
          else map_err_res Auth_ExternalService body)"

definition generate_github_oauth_url :: "string \<Rightarrow> string \<Rightarrow> string option \<Rightarrow> string" where
  "generate_github_oauth_url client_id redirect_uri state_param =
     ''https://github.com/login/oauth/authorize?client_id='' @ client_id
       @ ''&redirect_uri='' @ redirect_uri @ ''&scope='' @ join_with ''%20'' REQUIRED_SCOPES
       @ (case state_param of None \<Rightarrow> [] | Some s \<Rightarrow> ''&state='' @ s)"

section \<open>Login handlers\<close>

definition auth_failed :: "AuthError \<Rightarrow> ApiError" where
  "auth_failed e = AuthenticationFailed (auth_to_string e)"

definition hours_24 :: duration where
  "hours_24 = from_secs 86400"

text \<open>
  \<open>exchange_token\<close> returns the token and the expiry instant; the clock is read once for the token and
  once for the expiry.
\<close>

definition exchange_token ::
    "(string \<Rightarrow> string) \<Rightarrow> string \<Rightarrow> (string \<Rightarrow> string + user_answer) \<Rightarrow> instant \<Rightarrow> instant \<Rightarrow> string \<Rightarrow> ApiError + string \<times> instant" where
  "exchange_token md5 jwt_secret send now now' github_token =
     (case validate_github_token send github_token of
        Inl e \<Rightarrow> Inl (auth_failed e)
      | Inr user \<Rightarrow> Inr (generate_jwt_token md5 now user jwt_secret, add_dur now' hours_24))"

definition github_oauth ::
    "(string \<Rightarrow> string) \<Rightarrow> string \<Rightarrow> (string \<Rightarrow> string \<Rightarrow> string \<Rightarrow> string + u16 \<times> (string + string))
      \<Rightarrow> (string \<Rightarrow> string + user_answer) \<Rightarrow> string \<Rightarrow> string \<Rightarrow> instant \<Rightarrow> instant \<Rightarrow> string
      \<Rightarrow> ApiError + string \<times> instant \<times> GitHubUser \<times> string list" where
  "github_oauth md5 jwt_secret post send client_id client_secret now now' code =
     (case exchange_github_code post client_id client_secret code of
        Inl e \<Rightarrow> Inl (auth_failed e)
      | Inr github_token \<Rightarrow>
          (case validate_github_token send github_token of
             Inl e \<Rightarrow> Inl (auth_failed e)
           | Inr user \<Rightarrow>
               Inr (generate_jwt_token md5 now user jwt_secret, add_dur now' hours_24, user, REQUIRED_SCOPES)))"

definition get_github_oauth_url :: "string \<Rightarrow> string \<Rightarrow> string \<Rightarrow> string \<times> string \<times> string list" where
  "get_github_oauth_url client_id base_url state_param =
     (generate_github_oauth_url client_id (base_url @ ''/v1/auth/github'') (Some state_param), state_param,
      REQUIRED_SCOPES)"

section \<open>Lemmas\<close>

lemma parse_i64_to_string:
  assumes "- (2 ^ 63) \<le> i" and "i < 2 ^ 63"
  shows "parse_i64 (int_to_string i) = Some i"
proof (cases "i < 0")
  case True
  then show ?thesis using assms by (simp add: int_to_string_def parse_i64_def)
next
  case False
  have "c \<in> set (dec (nat i)) \<Longrightarrow> is_ascii_digit c" for c
    using dec_no_char by blast
  moreover have "hd (dec (nat i)) \<in> set (dec (nat i))" by simp
  ultimately have "is_ascii_digit (hd (dec (nat i)))" by blast
  then have "hd (dec (nat i)) \<noteq> CHR ''-''" "hd (dec (nat i)) \<noteq> CHR ''+''"
    by (auto simp: is_ascii_digit_def)
  then show ?thesis using False assms by (simp add: int_to_string_def parse_i64_def)
qed

lemma int_to_string_chars:
  assumes "\<not> is_ascii_digit c" and "c \<noteq> CHR ''-''"
  shows "c \<notin> set (int_to_string i)"
  using assms dec_no_char [of c] by (simp add: int_to_string_def)

lemma split_on_two:
  "split_on c s = [a, b] \<longleftrightarrow> s = a @ c # b \<and> c \<notin> set a \<and> c \<notin> set b"
proof
  assume h: "split_on c s = [a, b]"
  show "s = a @ c # b \<and> c \<notin> set a \<and> c \<notin> set b"
  proof (cases "c \<in> set s")
    case True
    then obtain u v where s: "s = u @ c # v" and u: "c \<notin> set u" by (meson split_list_first)
    have "split_on c s = u # split_on c v" unfolding s by (rule split_on_append [OF u])
    then have a: "a = u" and b: "split_on c v = [b]" using h by auto
    have v: "c \<notin> set v"
    proof
      assume "c \<in> set v"
      then obtain x y where "v = x @ c # y" and "c \<notin> set x" by (meson split_list_first)
      then have "split_on c v = x # split_on c y" by (simp add: split_on_append)
      with b show False by simp
    qed
    then have "b = v" using b split_on_single [OF v] by simp
    then show ?thesis using s u v a by simp
  next
    case False
    then show ?thesis using h split_on_single [OF False] by simp
  qed
qed (auto simp: split_on_append split_on_single)

lemma split_on_three:
  "split_on c s = [a, b, d] \<Longrightarrow> s = a @ c # b @ c # d \<and> c \<notin> set a \<and> c \<notin> set b \<and> c \<notin> set d"
proof -
  assume h: "split_on c s = [a, b, d]"
  have "c \<in> set s" using h split_on_single [of c s] by auto
  then obtain u v where s: "s = u @ c # v" and u: "c \<notin> set u" by (meson split_list_first)
  have "split_on c s = u # split_on c v" unfolding s by (rule split_on_append [OF u])
  then have "a = u" and "split_on c v = [b, d]" using h by auto
  then show ?thesis using s u split_on_two [of c v b d] by auto
qed

lemma strip_while_keeps:
  "(\<And>w. w \<in> set ws \<Longrightarrow> c \<notin> set w) \<Longrightarrow> c \<in> set s \<Longrightarrow> c \<in> set (strip_while ws s)"
proof (induction ws s rule: strip_while.induct)
  case (1 ws s)
  show ?case
  proof (cases "List.find (\<lambda>w. w \<noteq> [] \<and> prefix w s) ws")
    case None
    then show ?thesis using 1(3) by (subst strip_while.simps) simp
  next
    case (Some w)
    then have w: "w \<in> set ws" "prefix w s" by (auto simp: find_Some_iff)
    then obtain r where s: "s = w @ r" by (auto elim: prefixE)
    have "c \<in> set (drop (length w) s)" using 1(3) 1(2) [OF w(1)] s by auto
    then show ?thesis using 1(1) [OF Some 1(2)] Some by (subst strip_while.simps) simp
  qed
qed

lemma trim_keeps:
  assumes "is_graphic c" and "c \<in> set s"
  shows "c \<in> set (trim s)"
proof -
  have "list_all (\<lambda>w. list_all (\<lambda>d. \<not> is_graphic d) w) whitespace_chars"
    by (simp add: whitespace_chars_def is_graphic_def)
  then have ws: "w \<in> set whitespace_chars \<Longrightarrow> c \<notin> set w" for w
    using assms(1) by (auto simp: list_all_iff)
  have "c \<in> set (strip_while whitespace_chars s)" using strip_while_keeps [OF ws] assms(2) by blast
  then have "c \<in> set (strip_while (map rev whitespace_chars) (rev (strip_while whitespace_chars s)))"
    using ws by (intro strip_while_keeps) auto
  then show ?thesis by (simp add: trim_def)
qed

lemma colon_not_bypass: "CHR '':'' \<in> set s \<Longrightarrow> s \<noteq> dev_bypass_token \<and> trim s \<noteq> dev_bypass_token"
  using trim_keeps [of "CHR '':''" s] by (auto simp: dev_bypass_token_def is_graphic_def)

lemma trim_bypass: "trim dev_bypass_token = dev_bypass_token"
  by (rule trim_graphic) (simp_all add: dev_bypass_token_def is_graphic_def)

text \<open>The form of an accepted token, and the two outcomes of the extraction outside development mode.\<close>

definition signed_token :: "(string \<Rightarrow> string) \<Rightarrow> string \<Rightarrow> instant \<Rightarrow> string \<Rightarrow> GitHubUser \<Rightarrow> bool" where
  "signed_token md5 secret now token user =
     (\<exists>ts t. let payload = gu_id user @ '':'' @ gu_login user @ '':'' @ ts in
        token = payload @ ''.'' @ md5 (payload @ secret)
        \<and> CHR '':'' \<notin> set (gu_id user) \<and> CHR '':'' \<notin> set (gu_login user)
        \<and> parse_i64 ts = Some t \<and> wrap_i64 (timestamp now - t) \<le> 86400
        \<and> user = named_user (gu_id user) (gu_login user))"

lemma named_user_fields [simp]:
  "gu_id (named_user i l) = i" "gu_login (named_user i l) = l" "gu_email (named_user i l) = None"
  "gu_avatar_url (named_user i l) = []"
  by (simp_all add: named_user_def)

lemma validate_jwt_token_accepts:
  assumes "validate_jwt_token md5 now token secret = Inr user" and "token \<noteq> dev_bypass_token"
  shows "signed_token md5 secret now token user"
proof -
  obtain payload signature where sp: "split_on (CHR ''.'') token = [payload, signature]"
    using assms by (auto simp: validate_jwt_token_def split: list.splits)
  then have sig: "signature = md5 (payload @ secret)"
    using assms by (auto simp: validate_jwt_token_def split: if_splits)
  obtain i l ts where pp: "split_on (CHR '':'') payload = [i, l, ts]"
    using assms sp sig by (auto simp: validate_jwt_token_def split: list.splits)
  obtain t where t: "parse_i64 ts = Some t"
    using assms sp sig pp by (auto simp: validate_jwt_token_def split: option.splits)
  have u: "user = named_user i l" and fresh: "wrap_i64 (timestamp now - t) \<le> 86400"
    using assms sp sig pp t by (auto simp: validate_jwt_token_def Let_def split: if_splits)
  show ?thesis
    using split_on_two [THEN iffD1, OF sp] split_on_three [OF pp] sig t u fresh
    by (auto simp: signed_token_def Let_def)
qed

lemma extract_production:
  "extract_bearer_token_with_dev_bypass hs False = Inr token \<longleftrightarrow>
     hs ''authorization'' = Some (Inr (''Bearer '' @ token)) \<and> trim token \<noteq> dev_bypass_token"
  by (auto simp: extract_bearer_token_with_dev_bypass_def starts_with_def prefix_def
      split: option.splits sum.splits if_splits)

lemma first_segment_plain: "CHR '':'' \<notin> set s \<Longrightarrow> first_segment s = s"
  by (simp add: first_segment_def split_on_single)

lemma grants_scope_segment:
  assumes "CHR '':'' \<in> set required_scope"
  shows "grants_scope required_scope scope \<longleftrightarrow> first_segment scope = first_segment required_scope"
proof -
  have "CHR '':'' \<notin> set (first_segment s)" for s
    unfolding first_segment_def by (rule split_on_no_sep [of _ _ s]) simp
  moreover have "CHR '':'' \<notin> set scope \<Longrightarrow> first_segment scope = scope" by (rule first_segment_plain)
  ultimately show ?thesis
    unfolding grants_scope_def using assms first_segment_plain [of "first_segment required_scope"] by metis
qed

lemma has_required_scopes_segments:
  "has_required_scopes gs \<longleftrightarrow> ''user'' \<in> first_segment ` set gs \<and> ''read'' \<in> first_segment ` set gs"
proof -
  have seg: "first_segment ''user:email'' = ''user''" "first_segment ''read:user'' = ''read''"
    by (simp_all add: first_segment_def)
  show ?thesis
    by (simp add: has_required_scopes_def REQUIRED_SCOPES_def list_ex_iff grants_scope_segment seg image_iff eq_commute
        Bex_def)
qed

section \<open>Properties\<close>

text \<open>
  C10: outside development mode a request is authenticated only by a token that carries a user id, a
  login name and a time stamp of at most a day ago, signed with the secret of the server, in its
  authorization header; no header makes it the development user, and the middleware lets a request for
  a path that is not public reach the handlers only with that user as its context.
\<close>

theorem production_needs_signed_token:
  "(authenticate md5 secret False hs now = Inr user \<longrightarrow>
      user \<noteq> dev_user \<and>
      (\<exists>token. hs ''authorization'' = Some (Inr (''Bearer '' @ token)) \<and> signed_token md5 secret now token user))
   \<and> (auth_middleware md5 secret False hs now path next_run = Inr r \<longrightarrow>
      (if is_public_endpoint path then r = next_run None
       else \<exists>token i l. hs ''authorization'' = Some (Inr (''Bearer '' @ token))
          \<and> signed_token md5 secret now token (named_user i l)
          \<and> r = next_run (Some \<lparr> au_user_id = i, au_username = l, au_email = None, au_avatar_url = [] \<rparr>)))"
proof -
  have signed: "hs ''authorization'' = Some (Inr (''Bearer '' @ token)) \<and> signed_token md5 secret now token u"
    if "extract_bearer_token_with_dev_bypass hs False = Inr token" "validate_jwt_token md5 now token secret = Inr u"
    for token u
  proof -
    have "token \<noteq> dev_bypass_token" using that(1) trim_bypass by (auto simp: extract_production)
    then show ?thesis using that validate_jwt_token_accepts by (auto simp: extract_production)
  qed
  have named: "signed_token md5 secret now token u \<Longrightarrow> u = named_user (gu_id u) (gu_login u)" for token u
    by (auto simp: signed_token_def Let_def)
  have not_dev: "named_user i l \<noteq> dev_user" for i l
    by (simp add: named_user_def dev_user_def)
  have handler: "authenticate md5 secret False hs now = Inr user \<Longrightarrow>
      user \<noteq> dev_user \<and>
      (\<exists>token. hs ''authorization'' = Some (Inr (''Bearer '' @ token)) \<and> signed_token md5 secret now token user)"
  proof -
    assume "authenticate md5 secret False hs now = Inr user"
    then obtain token where "extract_bearer_token_with_dev_bypass hs False = Inr token"
      "validate_jwt_token md5 now token secret = Inr user"
      by (auto simp: authenticate_def map_err_res_Inr split: sum.splits)
    note su = signed [OF this]
    show ?thesis using su named [OF su [THEN conjunct2]] not_dev by metis
  qed
  have mid: "\<exists>token u. extract_bearer_token_with_dev_bypass hs False = Inr token
      \<and> validate_jwt_token md5 now token secret = Inr u
      \<and> r = next_run (Some \<lparr> au_user_id = gu_id u, au_username = gu_login u, au_email = gu_email u,
          au_avatar_url = gu_avatar_url u \<rparr>)"
    if "auth_middleware md5 secret False hs now path next_run = Inr r" "\<not> is_public_endpoint path"
    using that by (auto simp: auth_middleware_def split: sum.splits)
  have "\<exists>token i l. hs ''authorization'' = Some (Inr (''Bearer '' @ token))
          \<and> signed_token md5 secret now token (named_user i l)
          \<and> r = next_run (Some \<lparr> au_user_id = i, au_username = l, au_email = None, au_avatar_url = [] \<rparr>)"
    if h: "auth_middleware md5 secret False hs now path next_run = Inr r" "\<not> is_public_endpoint path"
  proof -
    obtain token u where u: "extract_bearer_token_with_dev_bypass hs False = Inr token"
      "validate_jwt_token md5 now token secret = Inr u"
      "r = next_run (Some \<lparr> au_user_id = gu_id u, au_username = gu_login u, au_email = gu_email u,
          au_avatar_url = gu_avatar_url u \<rparr>)"
      using mid [OF h] by blast
    note su = signed [OF u(1,2)]
    show ?thesis using su u(3) named [OF su [THEN conjunct2]] named_user_fields by metis
  qed
  moreover have "auth_middleware md5 secret False hs now path next_run = Inr r \<Longrightarrow> is_public_endpoint path \<Longrightarrow> r = next_run None"
    by (simp add: auth_middleware_def)
  ultimately show ?thesis using handler by auto
qed

definition demo_headers :: "string \<Rightarrow> headers" where
  "demo_headers token = (\<lambda>n. if n = ''authorization'' then Some (Inr (''Bearer '' @ token)) else None)"

lemma demo_token_valid: "authenticate (\<lambda>_. ''ab'') ''key'' False (demo_headers ''7:ann:0.ab'') 0 = Inr (named_user ''7'' ''ann'')"
proof -
  have "trim ''7:ann:0.ab'' \<noteq> dev_bypass_token" using colon_not_bypass [of "''7:ann:0.ab''"] by simp
  then have "extract_bearer_token_with_dev_bypass (demo_headers ''7:ann:0.ab'') False = Inr ''7:ann:0.ab''"
    by (simp add: extract_production demo_headers_def)
  moreover have "validate_jwt_token (\<lambda>_. ''ab'') 0 ''7:ann:0.ab'' ''key'' = Inr (named_user ''7'' ''ann'')"
    by (simp add: validate_jwt_token_def dev_bypass_token_def parse_i64_def parse_nat_def undec_def digit_val_def
        is_ascii_digit_def timestamp_def wrap_i64_def)
  ultimately show ?thesis by (simp add: authenticate_def)
qed

theorem production_needs_signed_token_witness:
  "\<exists>token. demo_headers ''7:ann:0.ab'' ''authorization'' = Some (Inr (''Bearer '' @ token))
     \<and> signed_token (\<lambda>_. ''ab'') ''key'' 0 token (named_user ''7'' ''ann'')"
  using production_needs_signed_token [of "\<lambda>_. ''ab''" "''key''" "demo_headers ''7:ann:0.ab''" 0 "named_user ''7'' ''ann''"
      "[]" id None] demo_token_valid by blast

text \<open>
  A token minted for a GitHub user is accepted for 24 hours, by the secret it was minted with and
  in production mode, as that user's id and login name; after that it is refused as expired, and under
  another secret it is refused unless the digests collide.
\<close>

lemma jwt_roundtrip:
  assumes md5: "\<And>x. list_all is_ascii_hexdigit (md5 x)"
    and name: "list_all (\<lambda>c. c \<notin> {CHR '':'', CHR ''.''}) (gu_id user @ gu_login user)"
    and times: "\<bar>timestamp issued\<bar> < 2 ^ 62" "\<bar>timestamp now\<bar> < 2 ^ 62"
    and hs: "hs ''authorization'' = Some (Inr (''Bearer '' @ generate_jwt_token md5 issued user secret))"
  shows "let payload = gu_id user @ '':'' @ gu_login user @ '':'' @ int_to_string (timestamp issued) in
    authenticate md5 other False hs now =
      (if md5 (payload @ other) \<noteq> md5 (payload @ secret) then Inl (api_from_auth Auth_InvalidTokenSignature)
       else if timestamp now - timestamp issued > 86400 then Inl (api_from_auth Auth_TokenExpired)
       else Inr (named_user (gu_id user) (gu_login user)))"
proof -
  let ?ts = "int_to_string (timestamp issued)"
  define payload where payload: "payload = gu_id user @ '':'' @ gu_login user @ '':'' @ ?ts"
  let ?token = "payload @ ''.'' @ md5 (payload @ secret)"
  have ts: "CHR '':'' \<notin> set ?ts" "CHR ''.'' \<notin> set ?ts"
    by (rule int_to_string_chars, simp_all add: is_ascii_digit_def)+
  have parts: "CHR '':'' \<notin> set (gu_id user)" "CHR '':'' \<notin> set (gu_login user)"
    "CHR ''.'' \<notin> set (gu_id user)" "CHR ''.'' \<notin> set (gu_login user)"
    using name by (auto simp: list_all_iff)
  have "\<not> is_ascii_hexdigit (CHR ''.'')" by (simp add: is_ascii_hexdigit_def is_ascii_digit_def)
  then have "CHR ''.'' \<notin> set (md5 (payload @ secret))" using md5 [of "payload @ secret"] by (auto simp: list_all_iff)
  moreover have "CHR ''.'' \<notin> set payload" using parts ts by (simp add: payload)
  ultimately have sp: "split_on (CHR ''.'') ?token = [payload, md5 (payload @ secret)]"
    by (simp add: split_on_append split_on_single)
  have pp: "split_on (CHR '':'') payload = [gu_id user, gu_login user, ?ts]"
    using parts ts by (simp add: payload split_on_append split_on_single)
  have colon: "?token \<noteq> dev_bypass_token" "trim ?token \<noteq> dev_bypass_token"
    using colon_not_bypass [of ?token] by (simp_all add: payload)
  have age: "wrap_i64 (timestamp now - timestamp issued) = timestamp now - timestamp issued"
    using times by (intro wrap_i64_small) auto
  have parse: "parse_i64 ?ts = Some (timestamp issued)"
    using times by (intro parse_i64_to_string) auto
  have "generate_jwt_token md5 issued user secret = ?token" by (simp add: generate_jwt_token_def payload)
  then have "extract_bearer_token_with_dev_bypass hs False = Inr ?token" using hs colon by (simp add: extract_production)
  moreover have "validate_jwt_token md5 now ?token other =
      (if md5 (payload @ other) \<noteq> md5 (payload @ secret) then Inl Auth_InvalidTokenSignature
       else if timestamp now - timestamp issued > 86400 then Inl Auth_TokenExpired
       else Inr (named_user (gu_id user) (gu_login user)))"
    using colon sp by (simp add: validate_jwt_token_def pp parse age)
  ultimately show ?thesis by (simp add: authenticate_def payload)
qed

lemma jwt_roundtrip_witness:
  "authenticate (\<lambda>_. ''ab'') ''key'' False (demo_headers ''7:ann:0.ab'') 86400000000000 = Inr (named_user ''7'' ''ann'')
   \<and> authenticate (\<lambda>_. ''ab'') ''key'' False (demo_headers ''7:ann:0.ab'') 86401000000000
       = Inl (AuthenticationFailed ''Token expired'')"
proof -
  have t: "generate_jwt_token (\<lambda>_. ''ab'') 0 (named_user ''7'' ''ann'') ''key'' = ''7:ann:0.ab''"
    by (simp add: generate_jwt_token_def timestamp_def int_to_string_def dec.simps [of 0] digit_char_def)
  have "authenticate (\<lambda>_. ''ab'') ''key'' False (demo_headers ''7:ann:0.ab'') now =
      (if timestamp now > 86400 then Inl (api_from_auth Auth_TokenExpired) else Inr (named_user ''7'' ''ann''))"
    if "\<bar>timestamp now\<bar> < 2 ^ 62" for now
    using jwt_roundtrip [of "\<lambda>_. ''ab''" "named_user ''7'' ''ann''" 0 now "demo_headers ''7:ann:0.ab''" "''key''" "''key''"] that
    by (simp add: t demo_headers_def is_ascii_hexdigit_def timestamp_def)
  then show ?thesis by (simp add: timestamp_def nanos_per_sec_def)
qed

text \<open>
  A GitHub access token is turned into a user exactly when GitHub answers with success, a readable
  scope header (if there is one) names some scope of the \<open>user\<close> family and some scope of the \<open>read\<close>
  family, and the body decodes.
\<close>

lemma github_scope_check:
  "validate_github_token send token = Inr user \<longleftrightarrow>
     (\<exists>answer body. send token = Inr answer \<and> is_success (ua_status answer)
        \<and> ua_body answer = Inr body \<and> user = github_user_of body
        \<and> (case ua_scopes answer of
             Some (Inr s) \<Rightarrow> {''user'', ''read''} \<subseteq> first_segment ` set (split_comma_space s)
           | _ \<Rightarrow> True))"
proof (cases "send token")
  case (Inr answer)
  have body: "map_err_res Auth_ExternalService (map_sum id github_user_of (ua_body answer)) = Inr user \<longleftrightarrow>
      (\<exists>body. ua_body answer = Inr body \<and> user = github_user_of body)"
    by (cases "ua_body answer") auto
  show ?thesis
  proof (cases "ua_scopes answer")
    case None
    then show ?thesis using body by (simp add: validate_github_token_def Inr)
  next
    case (Some h)
    then show ?thesis using body
      by (cases h) (auto simp: validate_github_token_def has_required_scopes_segments Inr)
  qed
qed (simp add: validate_github_token_def)

end
