(* ===== verification/Quotas.thy ===== *)
theory Quotas
  imports Tunnel_Types
begin

text \<open>
  Quota enforcement of the API (\<open>crates/backendapi/src/quota_enforcement.rs\<close>): the usage tracker with its
  in-memory cache (the database is not consulted by the code), the checks, the recording and the
  per-period reset.  The counters are 64-bit integers whose additions wrap around.  Each call is one
  step here; the percentages, which the code computes in floating point, are not modelled.
\<close>

section \<open>Data\<close>

datatype QuotaType = ApiCalls | TunnelCreation | DnsProvisioning | ConcurrentTunnels | DataTransfer | CertificateIssuance

primrec quota_debug :: "QuotaType \<Rightarrow> string" where
  "quota_debug ApiCalls = ''ApiCalls''"
| "quota_debug TunnelCreation = ''TunnelCreation''"
| "quota_debug DnsProvisioning = ''DnsProvisioning''"
| "quota_debug ConcurrentTunnels = ''ConcurrentTunnels''"
| "quota_debug DataTransfer = ''DataTransfer''"
| "quota_debug CertificateIssuance = ''CertificateIssuance''"

record UserUsage =
  uu_user_id :: string
  uu_service_plan_id :: string
  api_calls_count :: int
  tunnels_created_count :: int
  dns_operations_count :: int
  active_tunnels_count :: int
  data_transferred_mb :: int
  certificates_issued_count :: int
  uu_last_updated :: instant
  uu_period_start :: instant

record QuotaLimits =
  ql_api_rate_limit :: int
  ql_tunnel_creation_limit :: int
  ql_dns_provisioning_limit :: int
  ql_max_concurrent_tunnels :: int
  ql_data_transfer_limit_mb :: "int option"
  ql_certificate_issuance_limit :: "int option"

record QuotaEnforcementResult =
  qr_allowed :: bool
  qr_remaining_quota :: "int option"
  qr_quota_exceeded :: "QuotaType option"
  qr_message :: string

record UsageTracker =
  ut_cache :: "(string, UserUsage) hmap"

definition UsageTracker_new :: UsageTracker where
  "UsageTracker_new = \<lparr> ut_cache = [] \<rparr>"

text \<open>Division of signed integers rounds towards zero.\<close>

definition i64_div :: "int \<Rightarrow> int \<Rightarrow> int" where
  "i64_div a b = (if a < 0 then - ((- a) div b) else a div b)"

section \<open>Usage tracker\<close>

text \<open>The usage that is created when the cache has none; the clock is read twice.\<close>

definition placeholder_usage :: "instant \<Rightarrow> instant \<Rightarrow> string \<Rightarrow> UserUsage" where
  "placeholder_usage now now' user =
     \<lparr> uu_user_id = user, uu_service_plan_id = ''default'', api_calls_count = 0, tunnels_created_count = 0,
       dns_operations_count = 0, active_tunnels_count = 0, data_transferred_mb = 0,
       certificates_issued_count = 0, uu_last_updated = now, uu_period_start = now' \<rparr>"

definition get_user_usage :: "instant \<Rightarrow> string \<Rightarrow> UsageTracker \<Rightarrow> UserUsage \<times> UsageTracker" where
  "get_user_usage now user s =
     (case hget (ut_cache s) user of
        Some usage \<Rightarrow> (usage, s)
      | None \<Rightarrow>
          let usage = placeholder_usage now now user in (usage, s\<lparr> ut_cache := hput user usage (ut_cache s) \<rparr>))"

definition get_quota_limits :: "string \<Rightarrow> QuotaLimits" where
  "get_quota_limits user =
     \<lparr> ql_api_rate_limit = 1000, ql_tunnel_creation_limit = 100, ql_dns_provisioning_limit = 100,
       ql_max_concurrent_tunnels = 10, ql_data_transfer_limit_mb = Some 1024,
       ql_certificate_issuance_limit = Some 100 \<rparr>"

definition usage_of :: "QuotaType \<Rightarrow> UserUsage \<Rightarrow> int" where
  "usage_of quota_type usage =
     (case quota_type of
        ApiCalls \<Rightarrow> api_calls_count usage
      | TunnelCreation \<Rightarrow> tunnels_created_count usage
      | DnsProvisioning \<Rightarrow> dns_operations_count usage
      | ConcurrentTunnels \<Rightarrow> active_tunnels_count usage
      | DataTransfer \<Rightarrow> data_transferred_mb usage
      | CertificateIssuance \<Rightarrow> certificates_issued_count usage)"

definition limit_of :: "QuotaType \<Rightarrow> QuotaLimits \<Rightarrow> int" where
  "limit_of quota_type limits =
     (case quota_type of
        ApiCalls \<Rightarrow> ql_api_rate_limit limits
      | TunnelCreation \<Rightarrow> ql_tunnel_creation_limit limits
      | DnsProvisioning \<Rightarrow> ql_dns_provisioning_limit limits
      | ConcurrentTunnels \<Rightarrow> ql_max_concurrent_tunnels limits
      | DataTransfer \<Rightarrow> (case ql_data_transfer_limit_mb limits of Some l \<Rightarrow> l | None \<Rightarrow> 1024)
      | CertificateIssuance \<Rightarrow> (case ql_certificate_issuance_limit limits of Some l \<Rightarrow> l | None \<Rightarrow> 100))"

definition check_quota ::
    "instant \<Rightarrow> string \<Rightarrow> QuotaType \<Rightarrow> int \<Rightarrow> UsageTracker \<Rightarrow> QuotaEnforcementResult \<times> UsageTracker" where
  "check_quota now user quota_type amount s =
     (let (usage, s1) = get_user_usage now user s;
          current_usage = usage_of quota_type usage;
          limit = limit_of quota_type (get_quota_limits user);
          new_usage = wrap_i64 (current_usage + amount);
          allowed = new_usage \<le> limit;
          remaining = (if allowed then Some (wrap_i64 (limit - new_usage)) else None)
      in (\<lparr> qr_allowed = allowed,
           qr_remaining_quota = remaining,
           qr_quota_exceeded = (if allowed then None else Some quota_type),
           qr_message =
             (if allowed then
                ''Operation allowed. Remaining quota: '' @ int_to_string (case remaining of Some r \<Rightarrow> r | None \<Rightarrow> 0)
              else
                ''Quota exceeded for '' @ quota_debug quota_type @ ''. Limit: '' @ int_to_string limit
                  @ '', Current: '' @ int_to_string current_usage @ '', Requested: '' @ int_to_string amount) \<rparr>, s1))"

definition add_usage :: "QuotaType \<Rightarrow> int \<Rightarrow> UserUsage \<Rightarrow> UserUsage" where
  "add_usage quota_type amount usage =
     (case quota_type of
        ApiCalls \<Rightarrow> usage\<lparr> api_calls_count := wrap_i64 (api_calls_count usage + amount) \<rparr>
      | TunnelCreation \<Rightarrow> usage\<lparr> tunnels_created_count := wrap_i64 (tunnels_created_count usage + amount) \<rparr>
      | DnsProvisioning \<Rightarrow> usage\<lparr> dns_operations_count := wrap_i64 (dns_operations_count usage + amount) \<rparr>
      | ConcurrentTunnels \<Rightarrow> usage\<lparr> active_tunnels_count := wrap_i64 (active_tunnels_count usage + amount) \<rparr>
      | DataTransfer \<Rightarrow> usage\<lparr> data_transferred_mb := wrap_i64 (data_transferred_mb usage + amount) \<rparr>
      | CertificateIssuance \<Rightarrow> usage\<lparr> certificates_issued_count := wrap_i64 (certificates_issued_count usage + amount) \<rparr>)"

definition record_usage :: "instant \<Rightarrow> string \<Rightarrow> QuotaType \<Rightarrow> int \<Rightarrow> UsageTracker \<Rightarrow> UsageTracker" where
  "record_usage now user quota_type amount s =
     (let (usage, s1) = get_user_usage now user s;
          usage' = (add_usage quota_type amount usage)\<lparr> uu_last_updated := now \<rparr>
      in s1\<lparr> ut_cache := hput user usage' (ut_cache s1) \<rparr>)"

definition reset_usage :: "instant \<Rightarrow> string \<Rightarrow> UsageTracker \<Rightarrow> UsageTracker" where
  "reset_usage now user s =
     (case hget (ut_cache s) user of
        None \<Rightarrow> s
      | Some usage \<Rightarrow>
          s\<lparr> ut_cache := hput user
            (usage\<lparr> api_calls_count := 0, tunnels_created_count := 0, dns_operations_count := 0,
               active_tunnels_count := 0, data_transferred_mb := 0, certificates_issued_count := 0,
               uu_period_start := now, uu_last_updated := now \<rparr>) (ut_cache s) \<rparr>)"

section \<open>Enforcement\<close>

definition enforce ::
    "instant \<Rightarrow> string \<Rightarrow> QuotaType \<Rightarrow> int \<Rightarrow> UsageTracker \<Rightarrow> QuotaEnforcementResult \<times> UsageTracker" where
  "enforce now user quota_type amount s =
     (let (result, s1) = check_quota now user quota_type amount s
      in (result, if qr_allowed result then record_usage now user quota_type amount s1 else s1))"

definition enforce_api_quota :: "instant \<Rightarrow> string \<Rightarrow> UsageTracker \<Rightarrow> QuotaEnforcementResult \<times> UsageTracker" where
  "enforce_api_quota now user s = enforce now user ApiCalls 1 s"

definition enforce_tunnel_creation_quota ::
    "instant \<Rightarrow> string \<Rightarrow> UsageTracker \<Rightarrow> QuotaEnforcementResult \<times> UsageTracker" where
  "enforce_tunnel_creation_quota now user s = enforce now user TunnelCreation 1 s"

definition enforce_dns_quota :: "instant \<Rightarrow> string \<Rightarrow> UsageTracker \<Rightarrow> QuotaEnforcementResult \<times> UsageTracker" where
  "enforce_dns_quota now user s = enforce now user DnsProvisioning 1 s"

definition enforce_concurrent_tunnels_quota ::
    "instant \<Rightarrow> string \<Rightarrow> int \<Rightarrow> UsageTracker \<Rightarrow> QuotaEnforcementResult \<times> UsageTracker" where
  "enforce_concurrent_tunnels_quota now user current_count s = check_quota now user ConcurrentTunnels current_count s"

definition enforce_data_transfer_quota ::
    "instant \<Rightarrow> string \<Rightarrow> int \<Rightarrow> UsageTracker \<Rightarrow> QuotaEnforcementResult \<times> UsageTracker" where
  "enforce_data_transfer_quota now user bytes_transferred s =
     (let mb_transferred = i64_div (i64_div bytes_transferred 1024) 1024
      in enforce now user DataTransfer mb_transferred s)"

definition enforce_certificate_quota ::
    "instant \<Rightarrow> string \<Rightarrow> UsageTracker \<Rightarrow> QuotaEnforcementResult \<times> UsageTracker" where
  "enforce_certificate_quota now user s = enforce now user CertificateIssuance 1 s"

definition can_make_api_call :: "instant \<Rightarrow> string \<Rightarrow> UsageTracker \<Rightarrow> bool \<times> UsageTracker" where
  "can_make_api_call now user s = (let (r, s') = enforce_api_quota now user s in (qr_allowed r, s'))"

definition can_create_tunnel :: "instant \<Rightarrow> string \<Rightarrow> UsageTracker \<Rightarrow> bool \<times> UsageTracker" where
  "can_create_tunnel now user s = (let (r, s') = enforce_tunnel_creation_quota now user s in (qr_allowed r, s'))"

definition can_perform_dns_operation :: "instant \<Rightarrow> string \<Rightarrow> UsageTracker \<Rightarrow> bool \<times> UsageTracker" where
  "can_perform_dns_operation now user s = (let (r, s') = enforce_dns_quota now user s in (qr_allowed r, s'))"

definition get_quota_info :: "instant \<Rightarrow> string \<Rightarrow> UsageTracker \<Rightarrow> (UserUsage \<times> QuotaLimits) \<times> UsageTracker" where
  "get_quota_info now user s = (let (usage, s') = get_user_usage now user s in ((usage, get_quota_limits user), s'))"

section \<open>Runs\<close>

text \<open>The operations of the tracker, for one user at one time; the answer says whether the operation is allowed.\<close>

datatype quota_op = ApiCall | CreateTunnel | DnsOperation | IssueCertificate | Transfer int | Concurrent int | Info | Reset

definition quota_step :: "string \<Rightarrow> quota_op \<times> instant \<Rightarrow> UsageTracker \<Rightarrow> bool \<times> UsageTracker" where
  "quota_step user = (\<lambda>(op, now) s.
     case op of
       ApiCall \<Rightarrow> can_make_api_call now user s
     | CreateTunnel \<Rightarrow> can_create_tunnel now user s
     | DnsOperation \<Rightarrow> can_perform_dns_operation now user s
     | IssueCertificate \<Rightarrow> (let (r, s') = enforce_certificate_quota now user s in (qr_allowed r, s'))
     | Transfer bytes \<Rightarrow> (let (r, s') = enforce_data_transfer_quota now user bytes s in (qr_allowed r, s'))
     | Concurrent n \<Rightarrow> (let (r, s') = enforce_concurrent_tunnels_quota now user n s in (qr_allowed r, s'))
     | Info \<Rightarrow> (True, snd (get_quota_info now user s))
     | Reset \<Rightarrow> (True, reset_usage now user s))"

fun quota_run :: "(string \<times> quota_op \<times> instant) list \<Rightarrow> UsageTracker \<Rightarrow> bool list \<times> UsageTracker" where
  "quota_run [] s = ([], s)"
| "quota_run ((user, x) # ops) s =
     (let (ok, s1) = quota_step user x s; (oks, s2) = quota_run ops s1 in (ok # oks, s2))"

text \<open>
  What the tracker promises: a ledger of the amounts admitted since the last reset, per user and kind,
  where an amount is admitted when the ledger stays within the limit.
\<close>

type_synonym ledger = "string \<Rightarrow> QuotaType \<Rightarrow> int"

definition ledger_limit :: "QuotaType \<Rightarrow> int" where
  "ledger_limit T = (case T of ApiCalls \<Rightarrow> 1000 | ConcurrentTunnels \<Rightarrow> 10 | DataTransfer \<Rightarrow> 1024 | _ \<Rightarrow> 100)"

definition admit :: "string \<Rightarrow> QuotaType \<Rightarrow> int \<Rightarrow> ledger \<Rightarrow> bool \<times> ledger" where
  "admit user T amount q =
     (if q user T + amount \<le> ledger_limit T then (True, q(user := (q user)(T := q user T + amount))) else (False, q))"

definition ledger_step :: "string \<Rightarrow> quota_op \<Rightarrow> ledger \<Rightarrow> bool \<times> ledger" where
  "ledger_step user op q =
     (case op of
        ApiCall \<Rightarrow> admit user ApiCalls 1 q
      | CreateTunnel \<Rightarrow> admit user TunnelCreation 1 q
      | DnsOperation \<Rightarrow> admit user DnsProvisioning 1 q
      | IssueCertificate \<Rightarrow> admit user CertificateIssuance 1 q
      | Transfer bytes \<Rightarrow> admit user DataTransfer (bytes div 1048576) q
      | Concurrent n \<Rightarrow> (q user ConcurrentTunnels + n \<le> ledger_limit ConcurrentTunnels, q)
      | Info \<Rightarrow> (True, q)
      | Reset \<Rightarrow> (True, q(user := (\<lambda>_. 0))))"

fun ledger_run :: "(string \<times> quota_op \<times> instant) list \<Rightarrow> ledger \<Rightarrow> bool list \<times> ledger" where
  "ledger_run [] q = ([], q)"
| "ledger_run ((user, op, now) # ops) q =
     (let (ok, q1) = ledger_step user op q; (oks, q2) = ledger_run ops q1 in (ok # oks, q2))"

definition ledger_of :: "UsageTracker \<Rightarrow> ledger" where
  "ledger_of s = (\<lambda>user T. case hget (ut_cache s) user of None \<Rightarrow> 0 | Some usage \<Rightarrow> usage_of T usage)"

definition sane_op :: "quota_op \<Rightarrow> bool" where
  "sane_op op = (case op of Transfer bytes \<Rightarrow> 0 \<le> bytes \<and> bytes < 2 ^ 63 | Concurrent n \<Rightarrow> 0 \<le> n \<and> n < 2 ^ 62 | _ \<Rightarrow> True)"

section \<open>Lemmas\<close>

lemma limit_of_get [simp]: "limit_of T (get_quota_limits user) = ledger_limit T"
  by (cases T) (simp_all add: limit_of_def get_quota_limits_def ledger_limit_def)

lemma usage_of_placeholder [simp]: "usage_of T (placeholder_usage now now' user) = 0"
  by (cases T) (simp_all add: usage_of_def placeholder_usage_def)

lemma usage_of_updated [simp]: "usage_of T (usage\<lparr> uu_last_updated := now \<rparr>) = usage_of T usage"
  by (cases T) (simp_all add: usage_of_def)

lemma usage_of_add [simp]:
  "usage_of T (add_usage T' amount usage) = (if T = T' then wrap_i64 (usage_of T usage + amount) else usage_of T usage)"
  by (cases T; cases T') (simp_all add: usage_of_def add_usage_def)

lemma ledger_of_put:
  "ledger_of (s\<lparr> ut_cache := hput user usage c \<rparr>) =
     (ledger_of (s\<lparr> ut_cache := c \<rparr>))(user := (\<lambda>T. usage_of T usage))"
  by (auto simp: ledger_of_def fun_eq_iff)

lemma get_user_usage_ledger:
  assumes "get_user_usage now user s = (usage, s')"
  shows "usage_of T usage = ledger_of s user T" "ledger_of s' = ledger_of s" "hget (ut_cache s') user = Some usage"
  using assms by (cases "hget (ut_cache s) user"; auto simp: get_user_usage_def ledger_of_def fun_eq_iff Let_def)+

lemma ledger_of_empty [simp]: "ledger_of UsageTracker_new = (\<lambda>_ _. 0)"
  by (simp add: ledger_of_def UsageTracker_new_def)

lemma record_usage_ledger:
  "ledger_of (record_usage now user T amount s) =
     (ledger_of s)(user := (ledger_of s user)(T := wrap_i64 (ledger_of s user T + amount)))"
proof -
  obtain usage s1 where g: "get_user_usage now user s = (usage, s1)" by (cases "get_user_usage now user s")
  note l = get_user_usage_ledger [OF g]
  have "record_usage now user T amount s =
      s1\<lparr> ut_cache := hput user ((add_usage T amount usage)\<lparr> uu_last_updated := now \<rparr>) (ut_cache s1) \<rparr>"
    by (simp add: record_usage_def g Let_def)
  then show ?thesis using l(1,2) by (auto simp: ledger_of_put fun_eq_iff)
qed

lemma check_quota_ledger:
  assumes "check_quota now user T amount s = (r, s')"
  shows "qr_allowed r \<longleftrightarrow> wrap_i64 (ledger_of s user T + amount) \<le> ledger_limit T" "ledger_of s' = ledger_of s"
proof -
  obtain usage s1 where g: "get_user_usage now user s = (usage, s1)" by (cases "get_user_usage now user s")
  note l = get_user_usage_ledger [OF g]
  show "qr_allowed r \<longleftrightarrow> wrap_i64 (ledger_of s user T + amount) \<le> ledger_limit T" "ledger_of s' = ledger_of s"
    using assms l(1,2) by (auto simp: check_quota_def g Let_def)
qed

lemma enforce_ledger:
  assumes "enforce now user T amount s = (r, s')"
  shows "qr_allowed r \<longleftrightarrow> wrap_i64 (ledger_of s user T + amount) \<le> ledger_limit T"
    and "ledger_of s' = (if qr_allowed r
       then (ledger_of s)(user := (ledger_of s user)(T := wrap_i64 (ledger_of s user T + amount))) else ledger_of s)"
proof -
  obtain r1 s1 where c: "check_quota now user T amount s = (r1, s1)" by (cases "check_quota now user T amount s")
  note l = check_quota_ledger [OF c]
  show "qr_allowed r \<longleftrightarrow> wrap_i64 (ledger_of s user T + amount) \<le> ledger_limit T"
    using assms l by (auto simp: enforce_def c)
  show "ledger_of s' = (if qr_allowed r
       then (ledger_of s)(user := (ledger_of s user)(T := wrap_i64 (ledger_of s user T + amount))) else ledger_of s)"
    using assms l by (auto simp: enforce_def c record_usage_ledger)
qed

lemma reset_usage_ledger: "ledger_of (reset_usage now user s) = (ledger_of s)(user := (\<lambda>_. 0))"
proof -
  have z: "usage_of T (usage\<lparr> api_calls_count := 0, tunnels_created_count := 0, dns_operations_count := 0,
               active_tunnels_count := 0, data_transferred_mb := 0, certificates_issued_count := 0,
               uu_period_start := now \<rparr>) = 0" for T usage
    by (cases T) (simp_all add: usage_of_def)
  show ?thesis
  proof (cases "hget (ut_cache s) user")
    case None
    then show ?thesis by (auto simp: reset_usage_def ledger_of_def fun_eq_iff)
  next
    case (Some usage)
    then show ?thesis by (simp add: reset_usage_def ledger_of_put z)
  qed
qed

lemma ledger_limit_range: "0 \<le> ledger_limit T" "ledger_limit T \<le> 1024"
  by (cases T; simp add: ledger_limit_def)+

lemma enforce_admits:
  assumes q: "0 \<le> ledger_of s user T" "ledger_of s user T \<le> ledger_limit T"
    and a: "0 \<le> amount" "amount < 2 ^ 62"
    and e: "enforce now user T amount s = (r, s')"
  shows "admit user T amount (ledger_of s) = (qr_allowed r, ledger_of s')"
proof -
  have "wrap_i64 (ledger_of s user T + amount) = ledger_of s user T + amount"
    using q a ledger_limit_range [of T] by (intro wrap_i64_small) auto
  then show ?thesis using enforce_ledger [OF e] by (simp add: admit_def)
qed

lemma transfer_mb:
  assumes "0 \<le> bytes" and "bytes < 2 ^ 63"
  shows "i64_div (i64_div bytes 1024) 1024 = bytes div 1048576" "0 \<le> bytes div 1048576" "bytes div 1048576 < 2 ^ 62"
  using assms by (simp_all add: i64_div_def div_mult2_eq [symmetric] zdiv_zmult2_eq [symmetric])

definition ledger_ok :: "ledger \<Rightarrow> bool" where
  "ledger_ok q = (\<forall>user T. 0 \<le> q user T \<and> q user T \<le> ledger_limit T)"

lemma ledger_ok_admit:
  assumes "ledger_ok q" and "0 \<le> amount"
  shows "ledger_ok (snd (admit user T amount q))"
  using assms by (auto simp: ledger_ok_def admit_def)

lemma ledger_ok_step:
  assumes "ledger_ok q" and "sane_op op"
  shows "ledger_ok (snd (ledger_step user op q))"
proof (cases op)
  case (Transfer bytes)
  then show ?thesis
    using assms transfer_mb(2) [of bytes] ledger_ok_admit by (simp add: ledger_step_def sane_op_def)
next
  case Reset
  then show ?thesis using assms ledger_limit_range by (simp add: ledger_step_def ledger_ok_def)
qed (use assms ledger_ok_admit in \<open>simp_all add: ledger_step_def\<close>)

lemma quota_step_refines:
  assumes ok: "ledger_ok (ledger_of s)" and sane: "sane_op op"
  shows "ledger_step user op (ledger_of s) = map_prod id ledger_of (quota_step user (op, now) s)"
proof -
  have q: "0 \<le> ledger_of s user T" "ledger_of s user T \<le> ledger_limit T" for T
    using ok by (simp_all add: ledger_ok_def)
  have adm: "admit user T amount (ledger_of s) = (qr_allowed (fst (enforce now user T amount s)), ledger_of (snd (enforce now user T amount s)))"
    if "0 \<le> amount" "amount < 2 ^ 62" for T amount
    using enforce_admits [OF q that prod.collapse [symmetric]] by simp
  note one = adm [of 1]
  note defs = ledger_step_def quota_step_def case_prod_beta Let_def
  show ?thesis
  proof (cases op)
    case ApiCall
    then show ?thesis using one by (simp add: defs can_make_api_call_def enforce_api_quota_def)
  next
    case CreateTunnel
    then show ?thesis using one by (simp add: defs can_create_tunnel_def enforce_tunnel_creation_quota_def)
  next
    case DnsOperation
    then show ?thesis using one by (simp add: defs can_perform_dns_operation_def enforce_dns_quota_def)
  next
    case IssueCertificate
    then show ?thesis using one by (simp add: defs enforce_certificate_quota_def)
  next
    case (Transfer bytes)
    then have b: "0 \<le> bytes" "bytes < 2 ^ 63" using sane by (simp_all add: sane_op_def)
    show ?thesis
      using adm [OF transfer_mb(2,3) [OF b], of DataTransfer] Transfer
      by (simp add: defs enforce_data_transfer_quota_def transfer_mb(1) [OF b])
  next
    case (Concurrent n)
    then have n: "0 \<le> n" "n < 2 ^ 62" using sane by (simp_all add: sane_op_def)
    have "wrap_i64 (ledger_of s user ConcurrentTunnels + n) = ledger_of s user ConcurrentTunnels + n"
      using q [of ConcurrentTunnels] n ledger_limit_range [of ConcurrentTunnels] by (intro wrap_i64_small) auto
    then show ?thesis
      using Concurrent check_quota_ledger [OF prod.collapse [symmetric], of now user ConcurrentTunnels n s]
      by (simp add: defs enforce_concurrent_tunnels_quota_def)
  next
    case Info
    then show ?thesis
      using get_user_usage_ledger(2) [OF prod.collapse [symmetric], of now user s]
      by (simp add: defs get_quota_info_def)
  next
    case Reset
    then show ?thesis by (simp add: defs reset_usage_ledger)
  qed
qed

lemma quota_run_refines:
  assumes "ledger_ok (ledger_of s)" and "list_all (\<lambda>(user, op, now). sane_op op) ops"
  shows "ledger_run ops (ledger_of s) = map_prod id ledger_of (quota_run ops s) \<and> ledger_ok (ledger_of (snd (quota_run ops s)))"
  using assms
proof (induction ops arbitrary: s)
  case (Cons x ops)
  obtain user op now where x: "x = (user, op, now)" by (cases x)
  obtain a s1 where st: "quota_step user (op, now) s = (a, s1)" by (cases "quota_step user (op, now) s")
  have sane: "sane_op op" using Cons.prems(2) x by simp
  have r: "ledger_step user op (ledger_of s) = (a, ledger_of s1)"
    using quota_step_refines [OF Cons.prems(1) sane, of user now] st by simp
  have "ledger_ok (ledger_of s1)" using ledger_ok_step [OF Cons.prems(1) sane, of user] r by simp
  from Cons.IH [OF this] Cons.prems(2) show ?case by (simp add: x st r case_prod_beta Let_def)
qed simp

text \<open>
  The check and the recording are separate calls of the tracker.  Two enforcements that are both checked
  before either is recorded are both admitted one step below the limit, and take the counter beyond it.
\<close>

lemma interleaved_checks_overrun:
  assumes "ledger_of s user T = ledger_limit T - 1"
    and "check_quota now user T 1 s = (r1, s1)" and "check_quota now' user T 1 s1 = (r2, s2)"
  shows "qr_allowed r1 \<and> qr_allowed r2
    \<and> ledger_of (record_usage now' user T 1 (record_usage now user T 1 s2)) user T = ledger_limit T + 1"
  using assms(1) check_quota_ledger [OF assms(2)] check_quota_ledger [OF assms(3)] ledger_limit_range [of T]
  by (simp add: record_usage_ledger wrap_i64_small)

text \<open>One user's operations leave every other user's usage alone.\<close>

definition quota_entry :: "UsageTracker \<Rightarrow> string \<Rightarrow> UserUsage option" where
  "quota_entry s user = hget (ut_cache s) user"

lemma get_user_usage_other: "user' \<noteq> user \<Longrightarrow> hget (ut_cache (snd (get_user_usage now user s))) user' = hget (ut_cache s) user'"
  by (simp add: get_user_usage_def Let_def split: option.split)

lemma enforce_other: "user' \<noteq> user \<Longrightarrow> hget (ut_cache (snd (enforce now user T amount s))) user' = hget (ut_cache s) user'"
  using get_user_usage_other by (simp add: enforce_def check_quota_def record_usage_def case_prod_beta Let_def)

interpretation qt: keyed_state "\<lambda>user x s. snd (quota_step user x s)" quota_entry
proof (unfold_locales, goal_cases)
  case (1 user' user x s)
  obtain op now where x: "x = (op, now)" by (cases x)
  show ?case
    using 1 get_user_usage_other [OF 1] enforce_other [OF 1]
    by (cases op) (simp_all add: x quota_step_def quota_entry_def can_make_api_call_def enforce_api_quota_def
        can_create_tunnel_def enforce_tunnel_creation_quota_def can_perform_dns_operation_def enforce_dns_quota_def
        enforce_certificate_quota_def enforce_data_transfer_quota_def enforce_concurrent_tunnels_quota_def
        check_quota_def get_quota_info_def reset_usage_def case_prod_beta Let_def split: option.split)
qed

lemma quota_run_fold: "snd (quota_run ops s) = fold (\<lambda>(user, x). (\<lambda>s. snd (quota_step user x s))) ops s"
proof (induction ops arbitrary: s)
  case (Cons x ops)
  then show ?case by (cases x) (simp add: case_prod_beta Let_def)
qed simp

section \<open>Properties\<close>



end
