(* ===== verification/Window_Counter.thy ===== *)
theory Window_Counter
  imports Prelude
begin

text \<open>
  Counting in fixed windows, as the certificate authority and the API do per client: an entry holds the
  number of hits since the start of its window, a hit after the window opens a new one, and a full window
  admits nothing.  The invariant \<open>window_ok\<close> relates the entry to the times of all hits; it gives the bound
  that matters, at most twice the limit in any stretch as long as a window.
\<close>

definition hits :: "(instant \<Rightarrow> bool) \<Rightarrow> instant list \<Rightarrow> nat" where
  "hits P ts = length (filter P ts)"

lemma hits_simps [simp]: "hits P [] = 0" "hits P (t # ts) = (if P t then Suc (hits P ts) else hits P ts)"
  "hits P (ts @ us) = hits P ts + hits P us"
  by (simp_all add: hits_def)

lemma hits_mono: "(\<And>t. t \<in> set ts \<Longrightarrow> P t \<Longrightarrow> Q t) \<Longrightarrow> hits P ts \<le> hits Q ts"
  by (induction ts) auto

lemma hits_none: "(\<And>t. t \<in> set ts \<Longrightarrow> \<not> P t) \<Longrightarrow> hits P ts = 0"
  by (induction ts) auto

lemma hits_split: "hits P ts = hits (\<lambda>t. P t \<and> Q t) ts + hits (\<lambda>t. P t \<and> \<not> Q t) ts"
  by (induction ts) auto

text \<open>
  What the entry of a client says of the times \<open>ts\<close> of its hits, for windows of length \<open>W\<close> and limit \<open>L\<close>:
  the hits of the current window are counted and within the limit, so were those of the stretch before
  the window, and no stretch of that length holds more than twice the limit.  A client without an entry
  has no recent hit.
\<close>

definition window_ok :: "int \<Rightarrow> nat \<Rightarrow> instant list \<Rightarrow> (nat \<times> instant) option \<Rightarrow> instant \<Rightarrow> bool" where
  "window_ok W L ts e now \<longleftrightarrow>
     (\<forall>x. hits (\<lambda>t. x \<le> t \<and> t < x + W) ts \<le> 2 * L) \<and>
     (case e of
        None \<Rightarrow> (\<forall>t \<in> set ts. t + W < now)
      | Some (count, w) \<Rightarrow>
          count = hits (\<lambda>t. w \<le> t) ts \<and> count \<le> L \<and> w \<le> now \<and> (\<forall>t \<in> set ts. t \<le> now \<and> t < w + W)
          \<and> hits (\<lambda>t. w - W \<le> t \<and> t < w) ts \<le> L)"

lemma window_ok_start: "window_ok W L [] None now"
  by (simp add: window_ok_def)

lemma window_ok_later: "window_ok W L ts e now \<Longrightarrow> now \<le> now' \<Longrightarrow> window_ok W L ts e now'"
  by (force simp: window_ok_def split: option.splits)

lemma window_ok_bound: "window_ok W L ts e now \<Longrightarrow> hits (\<lambda>t. x \<le> t \<and> t < x + W) ts \<le> 2 * L"
  by (simp add: window_ok_def)

text \<open>Forgetting an entry two window lengths after its start does no harm.\<close>

lemma window_ok_drop:
  assumes "window_ok W L ts (Some (count, w)) now" and "w + 2 * W \<le> now"
  shows "window_ok W L ts None now"
  using assms by (force simp: window_ok_def)

text \<open>The entry after a hit at \<open>t\<close>.\<close>

definition next_entry :: "int \<Rightarrow> instant \<Rightarrow> (nat \<times> instant) option \<Rightarrow> nat \<times> instant" where
  "next_entry W t e =
     (case e of None \<Rightarrow> (1, t) | Some (count, w) \<Rightarrow> if t - w \<ge> W then (1, t) else (count + 1, w))"

lemma window_ok_open:
  assumes ok: "\<forall>x. hits (\<lambda>t. x \<le> t \<and> t < x + W) ts \<le> 2 * L" and past: "\<forall>u \<in> set ts. u < t"
    and before: "hits (\<lambda>u. t - W \<le> u) ts \<le> L" and W: "0 < W" and L: "1 \<le> L"
  shows "window_ok W L (ts @ [t]) (Some (1, t)) t"
proof -
  have "hits (\<lambda>u. x \<le> u \<and> u < x + W) (ts @ [t]) \<le> 2 * L" for x
  proof (cases "x \<le> t \<and> t < x + W")
    case True
    have "hits (\<lambda>u. x \<le> u \<and> u < x + W) ts \<le> hits (\<lambda>u. t - W \<le> u) ts" using True by (intro hits_mono) auto
    then show ?thesis using True before L by simp
  next
    case False
    then show ?thesis using ok [rule_format, of x] by auto
  qed
  moreover have "hits (\<lambda>u. t \<le> u) ts = 0" using past by (intro hits_none) auto
  moreover have "hits (\<lambda>u. t - W \<le> u \<and> u < t) ts \<le> L"
    using before hits_mono [of ts "\<lambda>u. t - W \<le> u \<and> u < t" "\<lambda>u. t - W \<le> u"] by simp
  ultimately show ?thesis using past W L by (auto simp: window_ok_def)
qed

lemma window_ok_count:
  assumes ok: "window_ok W L ts (Some (count, w)) now" and t: "now \<le> t" "t < w + W" and free: "count + 1 \<le> L"
  shows "window_ok W L (ts @ [t]) (Some (count + 1, w)) t"
proof -
  have i: "count = hits (\<lambda>t. w \<le> t) ts" "w \<le> now" "\<forall>u \<in> set ts. u \<le> now \<and> u < w + W"
    "hits (\<lambda>t. w - W \<le> t \<and> t < w) ts \<le> L" "\<And>x. hits (\<lambda>t. x \<le> t \<and> t < x + W) ts \<le> 2 * L"
    using ok by (auto simp: window_ok_def)
  have "hits (\<lambda>u. x \<le> u \<and> u < x + W) (ts @ [t]) \<le> 2 * L" for x
  proof (cases "x \<le> t \<and> t < x + W")
    case True
    have "hits (\<lambda>u. (x \<le> u \<and> u < x + W) \<and> w \<le> u) ts \<le> hits (\<lambda>u. w \<le> u) ts" by (intro hits_mono) auto
    moreover have "hits (\<lambda>u. (x \<le> u \<and> u < x + W) \<and> \<not> w \<le> u) ts \<le> hits (\<lambda>u. w - W \<le> u \<and> u < w) ts"
      using i(2) t True by (intro hits_mono) auto
    ultimately show ?thesis
      using True i(1,4) free hits_split [of "\<lambda>u. x \<le> u \<and> u < x + W" ts "\<lambda>u. w \<le> u"] by simp
  next
    case False
    then show ?thesis using i(5) [of x] by auto
  qed
  then show ?thesis using i t free by (force simp: window_ok_def)
qed

text \<open>An empty window may be opened once the last one is over.\<close>

lemma window_ok_empty:
  assumes ok: "window_ok W L ts e now" and t: "now \<le> t" and W: "0 < W"
    and over: "\<And>count w. e = Some (count, w) \<Longrightarrow> W \<le> t - w"
  shows "window_ok W L ts (Some (0, t)) t"
proof -
  have ok': "\<forall>x. hits (\<lambda>t. x \<le> t \<and> t < x + W) ts \<le> 2 * L" using ok by (simp add: window_ok_def)
  have past: "\<forall>u \<in> set ts. u < t" and before: "hits (\<lambda>u. t - W \<le> u \<and> u < t) ts \<le> L"
  proof -
    show "\<forall>u \<in> set ts. u < t" using ok t W over by (force simp: window_ok_def split: option.splits)
    show "hits (\<lambda>u. t - W \<le> u \<and> u < t) ts \<le> L"
    proof (cases e)
      case None
      then have "hits (\<lambda>u. t - W \<le> u \<and> u < t) ts = 0" using ok t by (intro hits_none) (force simp: window_ok_def)
      then show ?thesis by simp
    next
      case (Some cw)
      obtain count w where e: "e = Some (count, w)" using Some by (cases cw) auto
      have "hits (\<lambda>u. t - W \<le> u \<and> u < t) ts \<le> hits (\<lambda>u. w \<le> u) ts" using over [OF e] by (intro hits_mono) auto
      then show ?thesis using ok e by (simp add: window_ok_def)
    qed
  qed
  have "hits (\<lambda>u. t \<le> u) ts = 0" using past by (intro hits_none) auto
  then show ?thesis using ok' past before W by (force simp: window_ok_def)
qed

lemma window_ok_hit:
  assumes ok: "window_ok W L ts e now" and t: "now \<le> t" and W: "0 < W" and L: "1 \<le> L"
    and free: "\<And>count w. e = Some (count, w) \<Longrightarrow> t - w < W \<Longrightarrow> count + 1 \<le> L"
  shows "window_ok W L (ts @ [t]) (Some (next_entry W t e)) t"
proof (cases e)
  case None
  then have past: "\<forall>u \<in> set ts. u + W < t" and ok': "\<forall>x. hits (\<lambda>t. x \<le> t \<and> t < x + W) ts \<le> 2 * L"
    using ok t by (force simp: window_ok_def)+
  have "hits (\<lambda>u. t - W \<le> u) ts = 0" using past by (intro hits_none) auto
  then show ?thesis using window_ok_open [OF ok' _ _ W L, of t] past W None by (force simp: next_entry_def)
next
  case (Some cw)
  obtain count w where e: "e = Some (count, w)" using Some by (cases cw) auto
  show ?thesis
  proof (cases "t - w \<ge> W")
    case True
    have i: "count = hits (\<lambda>t. w \<le> t) ts" "count \<le> L" "\<forall>u \<in> set ts. u < w + W" "\<forall>x. hits (\<lambda>t. x \<le> t \<and> t < x + W) ts \<le> 2 * L"
      using ok e by (auto simp: window_ok_def)
    have "hits (\<lambda>u. t - W \<le> u) ts \<le> hits (\<lambda>t. w \<le> t) ts" using True by (intro hits_mono) auto
    then show ?thesis using window_ok_open [OF i(4) _ _ W L, of t] i True by (force simp: e next_entry_def)
  next
    case False
    then show ?thesis using window_ok_count [OF ok [unfolded e] t] free [OF e] by (simp add: e next_entry_def)
  qed
qed

end
