(* ===== verification/Cert_Authority.thy ===== *)
theory Cert_Authority
  imports Redis_Store Tunnel_Types Window_Counter
begin

text \<open>
  The certificate authority (\<open>crates/edf-ca/src/lib.rs\<close>, \<open>ca.rs\<close> and \<open>certificate.rs\<close>): configuration,
  issuance requests, the certificate registry with its Redis copy, the hourly issuance limit, issuance,
  validation, revocation and clean-up.  Parameters: the X.509 library (a record \<open>rcgen\<close>), PEM parsing and
  SHA-256, the JSON form of a registry record, fresh keys and serial numbers, and the clock \<open>clk\<close>, read at
  the positions \<open>clk 0\<close>, \<open>clk 1\<close>, ... of one call.  The Redis server is the one of \<open>Redis_Store\<close>; a registry
  without a store has \<open>None\<close> for it.  Loading and saving the certificate of the authority itself is not
  modelled.
\<close>

section \<open>Certificates\<close>

record CertificateMetadata =
  cm_serial_number :: string
  cm_subject :: string
  cm_issuer :: string
  cm_issued_at :: instant
  cm_expires_at :: instant
  cm_fingerprint :: string

datatype KeyUsage = DigitalSignature | KeyEncipherment | KeyAgreement | CertSign | CrlSign

datatype ExtendedKeyUsage = ServerAuth | ClientAuth | CodeSigning | EmailProtection | TimeStamping

record CertificateRequest =
  cr_common_name :: string
  cr_subject_alt_names :: "string list"
  cr_key_usage :: "KeyUsage list"
  cr_extended_key_usage :: "ExtendedKeyUsage list"
  cr_validity_duration :: int
  cr_attributes :: "(string, string) hmap"

definition for_tunnel_client :: "string \<Rightarrow> int \<Rightarrow> CertificateRequest" where
  "for_tunnel_client client validity =
     \<lparr> cr_common_name = ''tunnel-client-'' @ client,
       cr_subject_alt_names = [],
       cr_key_usage = [DigitalSignature, KeyEncipherment],
       cr_extended_key_usage = [ClientAuth],
       cr_validity_duration = validity,
       cr_attributes = [(''client_id'', client), (''purpose'', ''ssh-tunnel'')] \<rparr>"

definition for_server :: "string \<Rightarrow> int \<Rightarrow> CertificateRequest" where
  "for_server fqdn validity =
     \<lparr> cr_common_name = fqdn,
       cr_subject_alt_names = [fqdn],
       cr_key_usage = [DigitalSignature, KeyEncipherment],
       cr_extended_key_usage = [ServerAuth],
       cr_validity_duration = validity,
       cr_attributes = [(''fqdn'', fqdn), (''purpose'', ''tls-server'')] \<rparr>"

definition cr_with_san :: "CertificateRequest \<Rightarrow> string \<Rightarrow> CertificateRequest" where
  "cr_with_san r san = r\<lparr> cr_subject_alt_names := cr_subject_alt_names r @ [san] \<rparr>"

definition cr_with_attribute :: "CertificateRequest \<Rightarrow> string \<Rightarrow> string \<Rightarrow> CertificateRequest" where
  "cr_with_attribute r key v = r\<lparr> cr_attributes := hput key v (cr_attributes r) \<rparr>"

record EphemeralCertificate =
  ec_certificate_pem :: string
  ec_private_key_pem :: string
  ec_metadata :: CertificateMetadata
  ec_ca_chain_pem :: string

definition ec_is_valid :: "instant \<Rightarrow> EphemeralCertificate \<Rightarrow> bool" where
  "ec_is_valid now c = (cm_expires_at (ec_metadata c) > now)"

definition time_until_expiry :: "instant \<Rightarrow> EphemeralCertificate \<Rightarrow> int" where
  "time_until_expiry now c = cm_expires_at (ec_metadata c) - now"

text \<open>The parameters the X.509 library is given, and the builder that fills them.\<close>

datatype DnType = CommonName | OrganizationName | OrganizationalUnitName

datatype KeyUsagePurpose = Purpose_DigitalSignature | Purpose_KeyEncipherment | Purpose_KeyAgreement
  | Purpose_KeyCertSign | Purpose_CrlSign

datatype ExtendedKeyUsagePurpose = Purpose_ServerAuth | Purpose_ClientAuth | Purpose_CodeSigning
  | Purpose_EmailProtection | Purpose_TimeStamping

record 'k CertificateParams =
  cp_distinguished_name :: "(DnType \<times> string) list"
  cp_subject_alt_names :: "string list"
  cp_not_before :: instant
  cp_not_after :: instant
  cp_key_usages :: "KeyUsagePurpose list"
  cp_extended_key_usages :: "ExtendedKeyUsagePurpose list"
  cp_key_pair :: "'k option"

definition CertificateBuilder_new :: "instant \<Rightarrow> instant \<Rightarrow> 'k CertificateParams" where
  "CertificateBuilder_new default_not_before default_not_after =
     \<lparr> cp_distinguished_name = [(OrganizationName, ''FleetingDNS''), (OrganizationalUnitName, ''Tunnel Services'')],
       cp_subject_alt_names = [], cp_not_before = default_not_before, cp_not_after = default_not_after,
       cp_key_usages = [], cp_extended_key_usages = [], cp_key_pair = None \<rparr>"

definition cb_common_name :: "string \<Rightarrow> 'k CertificateParams \<Rightarrow> 'k CertificateParams" where
  "cb_common_name cn p = p\<lparr> cp_distinguished_name := cp_distinguished_name p @ [(CommonName, cn)] \<rparr>"

definition cb_key_pair :: "'k \<Rightarrow> 'k CertificateParams \<Rightarrow> 'k CertificateParams" where
  "cb_key_pair k p = p\<lparr> cp_key_pair := Some k \<rparr>"

definition cb_subject_alt_names :: "string list \<Rightarrow> 'k CertificateParams \<Rightarrow> 'k CertificateParams" where
  "cb_subject_alt_names sans p = p\<lparr> cp_subject_alt_names := cp_subject_alt_names p @ sans \<rparr>"

definition cb_validity_duration :: "instant \<Rightarrow> int \<Rightarrow> 'k CertificateParams \<Rightarrow> 'k CertificateParams" where
  "cb_validity_duration now validity p =
     p\<lparr> cp_not_before := now, cp_not_after := now + chrono_seconds (num_seconds validity) \<rparr>"

primrec key_usage_purpose :: "KeyUsage \<Rightarrow> KeyUsagePurpose" where
  "key_usage_purpose DigitalSignature = Purpose_DigitalSignature"
| "key_usage_purpose KeyEncipherment = Purpose_KeyEncipherment"
| "key_usage_purpose KeyAgreement = Purpose_KeyAgreement"
| "key_usage_purpose CertSign = Purpose_KeyCertSign"
| "key_usage_purpose CrlSign = Purpose_CrlSign"

definition cb_key_usage :: "KeyUsage list \<Rightarrow> 'k CertificateParams \<Rightarrow> 'k CertificateParams" where
  "cb_key_usage usage p = p\<lparr> cp_key_usages := cp_key_usages p @ map key_usage_purpose usage \<rparr>"

primrec extended_key_usage_purpose :: "ExtendedKeyUsage \<Rightarrow> ExtendedKeyUsagePurpose" where
  "extended_key_usage_purpose ServerAuth = Purpose_ServerAuth"
| "extended_key_usage_purpose ClientAuth = Purpose_ClientAuth"
| "extended_key_usage_purpose CodeSigning = Purpose_CodeSigning"
| "extended_key_usage_purpose EmailProtection = Purpose_EmailProtection"
| "extended_key_usage_purpose TimeStamping = Purpose_TimeStamping"

definition cb_extended_key_usage :: "ExtendedKeyUsage list \<Rightarrow> 'k CertificateParams \<Rightarrow> 'k CertificateParams" where
  "cb_extended_key_usage usage p = p\<lparr> cp_extended_key_usages := map extended_key_usage_purpose usage \<rparr>"

text \<open>
  The X.509 library with the certificate of the authority: a certificate from parameters, its PEM form
  signed by the authority, the PEM form of its key, the PEM form of the authority's own certificate, the
  validity the library gives parameters by default, PEM parsing into DER values and SHA-256.
\<close>

record ('k, 'c) rcgen =
  rc_from_params :: "'k CertificateParams \<Rightarrow> string + 'c"
  rc_signed_pem :: "'c \<Rightarrow> string + string"
  rc_key_pem :: "'c \<Rightarrow> string"
  rc_ca_pem :: "string + string"
  rc_default_validity :: "instant \<times> instant"
  rc_pem_certs :: "string \<Rightarrow> string + string list"
  rc_sha256 :: "string \<Rightarrow> string"

definition generation_failed :: "string \<Rightarrow> FleetingDnsError" where
  "generation_failed e = Fd_CertificateError (''Certificate generation failed: '' @ e)"

definition hex_upper :: "nat \<Rightarrow> char" where
  "hex_upper d = ''0123456789ABCDEF'' ! d"

fun join_colon :: "string list \<Rightarrow> string" where
  "join_colon [] = []"
| "join_colon [x] = x"
| "join_colon (x # y # ys) = x @ '':'' @ join_colon (y # ys)"

definition calculate_fingerprint :: "('k, 'c) rcgen \<Rightarrow> string \<Rightarrow> FleetingDnsError + string" where
  "calculate_fingerprint X cert_pem =
     (case rc_pem_certs X cert_pem of
        Inl e \<Rightarrow> Inl (Fd_DeserializationError (''PEM parsing error: '' @ e))
      | Inr [] \<Rightarrow> Inl (Fd_DeserializationError ''No certificate found in PEM'')
      | Inr (cert_der # _) \<Rightarrow>
          Inr (join_colon (map (\<lambda>b. [hex_upper (byte_of b div 16), hex_upper (byte_of b mod 16)]) (rc_sha256 X cert_der))))"

section \<open>Requests and registry records\<close>

record CaConfig =
  cc_ca_name :: string
  cc_organization :: string
  cc_organizational_unit :: string
  cc_default_ttl :: int
  cc_max_ttl :: int
  cc_ca_key_path :: "string option"
  cc_ca_cert_path :: "string option"
  cc_certs_per_hour_per_client :: u32

definition DEFAULT_CERT_TTL :: int where
  "DEFAULT_CERT_TTL = chrono_seconds (30 * 60)"

definition MAX_CERT_TTL :: int where
  "MAX_CERT_TTL = chrono_seconds (2 * 3600)"

definition CaConfig_default :: CaConfig where
  "CaConfig_default =
     \<lparr> cc_ca_name = ''FleetingDNS-CA'', cc_organization = ''FleetingDNS'',
       cc_organizational_unit = ''Tunnel Services'', cc_default_ttl = DEFAULT_CERT_TTL, cc_max_ttl = MAX_CERT_TTL,
       cc_ca_key_path = None, cc_ca_cert_path = None, cc_certs_per_hour_per_client = 10 \<rparr>"

record IssuanceRequest =
  ir_request_id :: string
  ir_common_name :: string
  ir_subject_alt_names :: "string list"
  ir_ttl :: "int option"
  ir_client_id :: string
  ir_metadata :: "(string, string) hmap"

definition IssuanceRequest_new :: "string \<Rightarrow> string \<Rightarrow> string \<Rightarrow> IssuanceRequest" where
  "IssuanceRequest_new fresh_id common_name client =
     \<lparr> ir_request_id = fresh_id, ir_common_name = common_name, ir_subject_alt_names = [], ir_ttl = None,
       ir_client_id = client, ir_metadata = [] \<rparr>"

definition ir_with_san :: "IssuanceRequest \<Rightarrow> string \<Rightarrow> IssuanceRequest" where
  "ir_with_san r san = r\<lparr> ir_subject_alt_names := ir_subject_alt_names r @ [san] \<rparr>"

definition ir_with_ttl :: "IssuanceRequest \<Rightarrow> int \<Rightarrow> IssuanceRequest" where
  "ir_with_ttl r ttl = r\<lparr> ir_ttl := Some ttl \<rparr>"

definition ir_with_metadata :: "IssuanceRequest \<Rightarrow> string \<Rightarrow> string \<Rightarrow> IssuanceRequest" where
  "ir_with_metadata r key v = r\<lparr> ir_metadata := hput key v (ir_metadata r) \<rparr>"

record IssuanceResponse =
  is_request_id :: string
  is_certificate_pem :: string
  is_metadata :: CertificateMetadata
  is_ca_chain_pem :: string

record ActiveCertificate =
  ac_metadata :: CertificateMetadata
  ac_certificate_pem :: string
  ac_client_id :: string
  ac_issued_at :: instant

text \<open>The JSON form of a registry record.\<close>

record cert_codec =
  ser_cert :: "ActiveCertificate \<Rightarrow> string + string"
  de_cert :: "string \<Rightarrow> string + ActiveCertificate"

definition cert_key :: "string \<Rightarrow> string" where
  "cert_key serial = ''edf-ca:cert'' @ '':'' @ serial"

section \<open>Rate limiter\<close>

record RateLimiter =
  rl_limit :: u32
  rl_client_counts :: "(string, u32 \<times> instant) hmap"
  rl_total_issued :: u64

definition RateLimiter_new :: "u32 \<Rightarrow> RateLimiter" where
  "RateLimiter_new limit = \<lparr> rl_limit = limit, rl_client_counts = [], rl_total_issued = 0 \<rparr>"

definition one_hour :: int where
  "one_hour = chrono_seconds 3600"

definition is_rate_limited :: "instant \<Rightarrow> string \<Rightarrow> RateLimiter \<Rightarrow> bool" where
  "is_rate_limited now client l =
     (case hget (rl_client_counts l) client of
        Some (count, last_reset) \<Rightarrow> (if now - last_reset < one_hour then count \<ge> rl_limit l else False)
      | None \<Rightarrow> False)"

definition record_issuance :: "instant \<Rightarrow> string \<Rightarrow> RateLimiter \<Rightarrow> RateLimiter" where
  "record_issuance now client l =
     (let entry = hget_or (0, now) (rl_client_counts l) client;
          entry' = (if now - snd entry \<ge> one_hour then (0, now) else entry)
      in l\<lparr> rl_client_counts := hput client (fst entry' + 1, snd entry') (rl_client_counts l),
            rl_total_issued := rl_total_issued l + 1 \<rparr>)"

section \<open>Registry\<close>

text \<open>The state of the authority: the in-memory registry, the limiter, and the state of the Redis server.\<close>

record 's ca =
  ca_active :: "(string, ActiveCertificate) hmap"
  ca_limiter :: RateLimiter
  ca_redis :: 's

definition ca_new :: "CaConfig \<Rightarrow> 's \<Rightarrow> 's ca" where
  "ca_new cfg s = \<lparr> ca_active = [], ca_limiter = RateLimiter_new (cc_certs_per_hour_per_client cfg), ca_redis = s \<rparr>"

definition register_certificate ::
    "'s redis option \<Rightarrow> cert_codec \<Rightarrow> instant \<Rightarrow> ActiveCertificate \<Rightarrow> 's ca \<Rightarrow> 's ca" where
  "register_certificate store J now cert st =
     (let serial = cm_serial_number (ac_metadata cert);
          ttl = num_seconds (cm_expires_at (ac_metadata cert) - now);
          redis' = (case store of
              None \<Rightarrow> ca_redis st
            | Some R \<Rightarrow>
                if ttl > 0 then
                  (case ser_cert J cert of
                     Inl _ \<Rightarrow> ca_redis st
                   | Inr json \<Rightarrow> snd (set_string_ex R now (cert_key serial) json (as_u64 ttl) (ca_redis st)))
                else ca_redis st)
      in st\<lparr> ca_redis := redis', ca_active := hput serial cert (ca_active st) \<rparr>)"

definition get_certificate ::
    "'s redis option \<Rightarrow> cert_codec \<Rightarrow> instant \<Rightarrow> string \<Rightarrow> 's ca \<Rightarrow> ActiveCertificate option \<times> 's ca" where
  "get_certificate store J now serial st =
     (case hget (ca_active st) serial of
        Some cert \<Rightarrow> (Some cert, st)
      | None \<Rightarrow>
          (case store of
             None \<Rightarrow> (None, st)
           | Some R \<Rightarrow>
               (case get_string R now (cert_key serial) (ca_redis st) of
                  (Inr (Some json), s') \<Rightarrow>
                    (case de_cert J json of
                       Inr cert \<Rightarrow> (Some cert, st\<lparr> ca_redis := s', ca_active := hput serial cert (ca_active st) \<rparr>)
                     | Inl _ \<Rightarrow> (None, st\<lparr> ca_redis := s' \<rparr>))
                | (_, s') \<Rightarrow> (None, st\<lparr> ca_redis := s' \<rparr>))))"

definition is_certificate_valid ::
    "'s redis option \<Rightarrow> cert_codec \<Rightarrow> instant \<Rightarrow> instant \<Rightarrow> string \<Rightarrow> 's ca \<Rightarrow> bool \<times> 's ca" where
  "is_certificate_valid store J now now' serial st =
     (case get_certificate store J now serial st of
        (Some cert, st') \<Rightarrow> (cm_expires_at (ac_metadata cert) > now', st')
      | (None, st') \<Rightarrow> (False, st'))"

definition remove_certificate :: "'s redis option \<Rightarrow> instant \<Rightarrow> string \<Rightarrow> 's ca \<Rightarrow> bool \<times> 's ca" where
  "remove_certificate store now serial st =
     (let redis' = (case store of None \<Rightarrow> ca_redis st | Some R \<Rightarrow> snd (del_key R now (cert_key serial) (ca_redis st)))
      in (hget (ca_active st) serial \<noteq> None,
          st\<lparr> ca_redis := redis', ca_active := hdel serial (ca_active st) \<rparr>))"

definition cleanup_expired :: "instant \<Rightarrow> 's ca \<Rightarrow> nat \<times> 's ca" where
  "cleanup_expired now st =
     (let certs = hretain (\<lambda>_ cert. cm_expires_at (ac_metadata cert) > now) (ca_active st)
      in (length (ca_active st) - length certs, st\<lparr> ca_active := certs \<rparr>))"

definition active_count :: "'s ca \<Rightarrow> nat" where
  "active_count st = length (ca_active st)"

definition get_client_certificates :: "string \<Rightarrow> 's ca \<Rightarrow> ActiveCertificate list" where
  "get_client_certificates client st = filter (\<lambda>cert. ac_client_id cert = client) (map snd (ca_active st))"

section \<open>Certificate authority\<close>

definition validate_request :: "IssuanceRequest \<Rightarrow> FleetingDnsError + unit" where
  "validate_request request =
     (if ir_common_name request = [] then Inl (Fd_BadRequest ''Common name cannot be empty'')
      else if ir_client_id request = [] then Inl (Fd_BadRequest ''Client ID cannot be empty'')
      else Inr ())"

definition check_rate_limits :: "instant \<Rightarrow> string \<Rightarrow> RateLimiter \<Rightarrow> FleetingDnsError + unit" where
  "check_rate_limits now client l =
     (if is_rate_limited now client l then
        Inl (Fd_RateLimitExceeded (''Rate limit exceeded for client '' @ client @ '': ''
          @ dec (unat (rl_limit l)) @ '' certificates per hour''))
      else Inr ())"

definition num_minutes :: "int \<Rightarrow> int" where
  "num_minutes d = (let s = num_seconds d in if s < 0 then - ((- s) div 60) else s div 60)"

definition check_ttl :: "CaConfig \<Rightarrow> int \<Rightarrow> FleetingDnsError + unit" where
  "check_ttl cfg ttl =
     (if ttl > cc_max_ttl cfg then
        Inl (Fd_ValidationError (''TTL validation error: requested '' @ int_to_string (num_minutes ttl)
          @ '' minutes, max allowed '' @ int_to_string (num_minutes (cc_max_ttl cfg)) @ '' minutes''))
      else Inr ())"

text \<open>\<open>key\<close> is the outcome of the key generation, \<open>serial\<close> the fresh serial number.\<close>

definition generate_certificate ::
    "CaConfig \<Rightarrow> ('k, 'c) rcgen \<Rightarrow> string + 'k \<Rightarrow> string \<Rightarrow> (nat \<Rightarrow> instant) \<Rightarrow> CertificateRequest
      \<Rightarrow> FleetingDnsError + EphemeralCertificate" where
  "generate_certificate cfg X key serial clk request =
     (case key of
        Inl e \<Rightarrow> Inl (generation_failed e)
      | Inr key_pair \<Rightarrow>
          (let params = cb_key_pair key_pair (cb_extended_key_usage (cr_extended_key_usage request)
                 (cb_key_usage (cr_key_usage request) (cb_validity_duration (clk 1) (cr_validity_duration request)
                   (cb_subject_alt_names (cr_subject_alt_names request) (cb_common_name (cr_common_name request)
                     (case rc_default_validity X of (b, a) \<Rightarrow> CertificateBuilder_new b a)))))) in
           case rc_from_params X params of
             Inl e \<Rightarrow> Inl (generation_failed e)
           | Inr cert \<Rightarrow>
               (case rc_signed_pem X cert of
                  Inl e \<Rightarrow> Inl (generation_failed e)
                | Inr cert_pem \<Rightarrow>
                    (case calculate_fingerprint X cert_pem of
                       Inl e \<Rightarrow> Inl e
                     | Inr fingerprint \<Rightarrow>
                         (case rc_ca_pem X of
                            Inl e \<Rightarrow> Inl (generation_failed e)
                          | Inr ca_chain_pem \<Rightarrow>
                              Inr \<lparr> ec_certificate_pem = cert_pem, ec_private_key_pem = rc_key_pem X cert,
                                    ec_metadata =
                                      \<lparr> cm_serial_number = serial, cm_subject = ''CN='' @ cr_common_name request,
                                        cm_issuer = ''CN='' @ cc_ca_name cfg, cm_issued_at = clk 2,
                                        cm_expires_at = clk 2 + cr_validity_duration request,
                                        cm_fingerprint = fingerprint \<rparr>,
                                    ec_ca_chain_pem = ca_chain_pem \<rparr>)))))"

text \<open>The part the two kinds of issuance share, after the validation of the request: limit, lifetime, generation, registration.\<close>

definition issue_for ::
    "CaConfig \<Rightarrow> 's redis option \<Rightarrow> cert_codec \<Rightarrow> ('k, 'c) rcgen \<Rightarrow> string + 'k \<Rightarrow> string \<Rightarrow> (nat \<Rightarrow> instant)
      \<Rightarrow> string \<Rightarrow> int option \<Rightarrow> (int \<Rightarrow> CertificateRequest) \<Rightarrow> ('s ca, FleetingDnsError, EphemeralCertificate) act" where
  "issue_for cfg store J X key serial clk client ttl_opt request_of st =
     (case check_rate_limits (clk 0) client (ca_limiter st) of
        Inl e \<Rightarrow> (Inl e, st)
      | Inr _ \<Rightarrow>
          (let ttl = (case ttl_opt of Some t \<Rightarrow> t | None \<Rightarrow> cc_default_ttl cfg) in
           case check_ttl cfg ttl of
             Inl e \<Rightarrow> (Inl e, st)
           | Inr _ \<Rightarrow>
               (case generate_certificate cfg X key serial clk (request_of ttl) of
                  Inl e \<Rightarrow> (Inl e, st)
                | Inr ephemeral_cert \<Rightarrow>
                    (let active_cert = \<lparr> ac_metadata = ec_metadata ephemeral_cert,
                           ac_certificate_pem = ec_certificate_pem ephemeral_cert,
                           ac_client_id = client, ac_issued_at = clk 3 \<rparr>;
                         st1 = register_certificate store J (clk 4) active_cert st
                     in (Inr ephemeral_cert, st1\<lparr> ca_limiter := record_issuance (clk 5) client (ca_limiter st1) \<rparr>)))))"

definition issue_client_certificate ::
    "CaConfig \<Rightarrow> 's redis option \<Rightarrow> cert_codec \<Rightarrow> ('k, 'c) rcgen \<Rightarrow> string + 'k \<Rightarrow> string \<Rightarrow> (nat \<Rightarrow> instant)
      \<Rightarrow> IssuanceRequest \<Rightarrow> ('s ca, FleetingDnsError, EphemeralCertificate) act" where
  "issue_client_certificate cfg store J X key serial clk request st =
     (case validate_request request of
        Inl e \<Rightarrow> (Inl e, st)
      | Inr _ \<Rightarrow>
          issue_for cfg store J X key serial clk (ir_client_id request) (ir_ttl request)
            (\<lambda>ttl. cr_with_san (for_tunnel_client (ir_client_id request) ttl) (ir_common_name request)) st)"

definition issue_certificate ::
    "CaConfig \<Rightarrow> 's redis option \<Rightarrow> cert_codec \<Rightarrow> ('k, 'c) rcgen \<Rightarrow> string + 'k \<Rightarrow> string \<Rightarrow> (nat \<Rightarrow> instant)
      \<Rightarrow> IssuanceRequest \<Rightarrow> ('s ca, FleetingDnsError, IssuanceResponse) act" where
  "issue_certificate cfg store J X key serial clk request st =
     (case issue_client_certificate cfg store J X key serial clk request st of
        (Inl e, st') \<Rightarrow> (Inl e, st')
      | (Inr c, st') \<Rightarrow>
          (Inr \<lparr> is_request_id = ir_request_id request, is_certificate_pem = ec_certificate_pem c,
                 is_metadata = ec_metadata c, is_ca_chain_pem = ec_ca_chain_pem c \<rparr>, st'))"

definition issue_server_certificate ::
    "CaConfig \<Rightarrow> 's redis option \<Rightarrow> cert_codec \<Rightarrow> ('k, 'c) rcgen \<Rightarrow> string + 'k \<Rightarrow> string \<Rightarrow> (nat \<Rightarrow> instant)
      \<Rightarrow> string \<Rightarrow> string list \<Rightarrow> int option \<Rightarrow> ('s ca, FleetingDnsError, EphemeralCertificate) act" where
  "issue_server_certificate cfg store J X key serial clk fqdn extra_sans ttl_opt st =
     (if fqdn = [] then (Inl (Fd_BadRequest ''FQDN cannot be empty''), st)
      else issue_for cfg store J X key serial clk fqdn ttl_opt
             (\<lambda>ttl. foldl cr_with_san (for_server fqdn ttl) extra_sans) st)"

definition validate_certificate ::
    "'s redis option \<Rightarrow> cert_codec \<Rightarrow> instant \<Rightarrow> instant \<Rightarrow> string \<Rightarrow> ('s ca, FleetingDnsError, bool) act" where
  "validate_certificate store J now now' serial st =
     (case is_certificate_valid store J now now' serial st of (b, st') \<Rightarrow> (Inr b, st'))"

definition cert_not_found :: "string \<Rightarrow> FleetingDnsError" where
  "cert_not_found serial = Fd_NotFound (''Certificate not found: serial '' @ serial)"

definition get_certificate_info ::
    "'s redis option \<Rightarrow> cert_codec \<Rightarrow> instant \<Rightarrow> string \<Rightarrow> ('s ca, FleetingDnsError, ActiveCertificate) act" where
  "get_certificate_info store J now serial st =
     (case get_certificate store J now serial st of
        (Some cert, st') \<Rightarrow> (Inr cert, st')
      | (None, st') \<Rightarrow> (Inl (cert_not_found serial), st'))"

definition revoke_certificate ::
    "'s redis option \<Rightarrow> cert_codec \<Rightarrow> instant \<Rightarrow> instant \<Rightarrow> string \<Rightarrow> ('s ca, FleetingDnsError, unit) act" where
  "revoke_certificate store J now now' serial st =
     (let (found, st1) = get_certificate store J now serial st;
          (removed, st2) = remove_certificate store now' serial st1
      in (if found \<noteq> None \<or> removed then Inr () else Inl (cert_not_found serial), st2))"

definition cleanup_expired_certificates :: "instant \<Rightarrow> 's ca \<Rightarrow> nat \<times> 's ca" where
  "cleanup_expired_certificates now st = cleanup_expired now st"

definition get_statistics :: "'s ca \<Rightarrow> nat \<times> u64" where
  "get_statistics st = (active_count st, rl_total_issued (ca_limiter st))"

text \<open>A restart of the process: memory is lost, the Redis server is not.\<close>

definition ca_restart :: "CaConfig \<Rightarrow> 's ca \<Rightarrow> 's ca" where
  "ca_restart cfg st = ca_new cfg (ca_redis st)"

section \<open>Runs\<close>

datatype 'k ca_op =
    IssueClient IssuanceRequest "string + 'k" string
  | IssueServer string "string list" "int option" "string + 'k" string
  | Validate string
  | Lookup string
  | Revoke string
  | Cleanup
  | Restart

text \<open>One call; the log names the client of an issued certificate and the time it was counted.\<close>

definition ca_step ::
    "CaConfig \<Rightarrow> 's redis option \<Rightarrow> cert_codec \<Rightarrow> ('k, 'c) rcgen \<Rightarrow> 'k ca_op \<times> (nat \<Rightarrow> instant) \<Rightarrow> 's ca
      \<Rightarrow> (string \<times> instant) list \<times> 's ca" where
  "ca_step cfg store J X = (\<lambda>(op, clk) st.
     case op of
       IssueClient request key serial \<Rightarrow>
         (case issue_client_certificate cfg store J X key serial clk request st of
            (Inl _, st') \<Rightarrow> ([], st') | (Inr _, st') \<Rightarrow> ([(ir_client_id request, clk 5)], st'))
     | IssueServer fqdn extra_sans ttl_opt key serial \<Rightarrow>
         (case issue_server_certificate cfg store J X key serial clk fqdn extra_sans ttl_opt st of
            (Inl _, st') \<Rightarrow> ([], st') | (Inr _, st') \<Rightarrow> ([(fqdn, clk 5)], st'))
     | Validate serial \<Rightarrow> ([], snd (validate_certificate store J (clk 0) (clk 1) serial st))
     | Lookup serial \<Rightarrow> ([], snd (get_certificate_info store J (clk 0) serial st))
     | Revoke serial \<Rightarrow> ([], snd (revoke_certificate store J (clk 0) (clk 1) serial st))
     | Cleanup \<Rightarrow> ([], snd (cleanup_expired_certificates (clk 0) st))
     | Restart \<Rightarrow> ([], ca_restart cfg st))"

fun ca_run ::
    "CaConfig \<Rightarrow> 's redis option \<Rightarrow> cert_codec \<Rightarrow> ('k, 'c) rcgen \<Rightarrow> ('k ca_op \<times> (nat \<Rightarrow> instant)) list \<Rightarrow> 's ca
      \<Rightarrow> (string \<times> instant) list \<times> 's ca" where
  "ca_run cfg store J X [] st = ([], st)"
| "ca_run cfg store J X (x # xs) st =
     (let (log1, st1) = ca_step cfg store J X x st; (log2, st2) = ca_run cfg store J X xs st1 in (log1 @ log2, st2))"

text \<open>The clock does not run backwards, within a call and from a call to the next.\<close>

fun clocks_ordered :: "instant \<Rightarrow> (nat \<Rightarrow> instant) list \<Rightarrow> bool" where
  "clocks_ordered t0 [] = True"
| "clocks_ordered t0 (c # cs) = (t0 \<le> c 0 \<and> (\<forall>i < 5. c i \<le> c (Suc i)) \<and> clocks_ordered (c 5) cs)"

section \<open>The hourly limit\<close>

text \<open>A call for a certificate counts for the client exactly when it succeeds, and then the limit allowed it.\<close>

definition counted :: "(nat \<Rightarrow> instant) \<Rightarrow> string \<Rightarrow> 's ca \<Rightarrow> 'e + 'a \<Rightarrow> 's ca \<Rightarrow> bool" where
  "counted clk client st r st' =
     (case r of
        Inl _ \<Rightarrow> ca_limiter st' = ca_limiter st
      | Inr _ \<Rightarrow> \<not> is_rate_limited (clk 0) client (ca_limiter st)
          \<and> ca_limiter st' = record_issuance (clk 5) client (ca_limiter st))"

lemma issue_for_counted:
  assumes "issue_for cfg store J X key serial clk client ttl_opt req st = (r, st')"
  shows "counted clk client st r st'"
  using assms
  by (auto simp: issue_for_def check_rate_limits_def register_certificate_def counted_def Let_def
      split: sum.splits if_splits)

lemma issue_counted:
  "issue_client_certificate cfg store J X key serial clk request st = (r, st') \<Longrightarrow>
     counted clk (ir_client_id request) st r st'"
  "issue_server_certificate cfg store J X key serial clk fqdn extra_sans ttl_opt st = (r, st') \<Longrightarrow>
     counted clk fqdn st r st'"
proof -
  have unchanged: "counted clk c st (Inl e) st" for clk c e and st :: "'s ca" by (simp add: counted_def)
  show "issue_client_certificate cfg store J X key serial clk request st = (r, st') \<Longrightarrow>
     counted clk (ir_client_id request) st r st'"
    using unchanged by (auto simp: issue_client_certificate_def split: sum.splits dest: issue_for_counted)
  show "issue_server_certificate cfg store J X key serial clk fqdn extra_sans ttl_opt st = (r, st') \<Longrightarrow>
     counted clk fqdn st r st'"
    using unchanged by (auto simp: issue_server_certificate_def split: if_splits dest: issue_for_counted)
qed

lemma get_certificate_limiter [simp]: "ca_limiter (snd (get_certificate store J now serial st)) = ca_limiter st"
  by (auto simp: get_certificate_def split: option.splits prod.splits sum.splits)

lemma registry_limiter [simp]:
  "ca_limiter (snd (is_certificate_valid store J now now' serial st)) = ca_limiter st"
  "ca_limiter (snd (remove_certificate store now serial st)) = ca_limiter st"
  "ca_limiter (snd (cleanup_expired now st)) = ca_limiter st"
  using get_certificate_limiter [of store J now serial st]
  by (auto simp: is_certificate_valid_def remove_certificate_def cleanup_expired_def Let_def
      split: prod.splits option.splits simp del: get_certificate_limiter)

text \<open>The entry of a client as a window counter.\<close>

definition window_of :: "u32 \<times> instant \<Rightarrow> nat \<times> instant" where
  "window_of e = (unat (fst e), snd e)"

definition entry_ok :: "nat \<Rightarrow> instant list \<Rightarrow> (u32 \<times> instant) option \<Rightarrow> instant \<Rightarrow> bool" where
  "entry_ok L ts e now = window_ok one_hour L ts (map_option window_of e) now"

lemma one_hour_pos: "0 < one_hour"
  by (simp add: one_hour_def chrono_seconds_def)

lemma entry_ok_later: "entry_ok L ts e now \<Longrightarrow> now \<le> now' \<Longrightarrow> entry_ok L ts e now'"
  unfolding entry_ok_def by (rule window_ok_later)

lemma entry_ok_record:
  assumes ok: "entry_ok L ts (hget (rl_client_counts l) client) now" and now: "now \<le> t0" and t: "t0 \<le> t"
    and L: "L = max 1 (unat (rl_limit l))" and free: "\<not> is_rate_limited t0 client l"
  shows "entry_ok L (ts @ [t]) (hget (rl_client_counts (record_issuance t client l)) client) t"
proof -
  let ?e = "hget (rl_client_counts l) client"
  have room: "count < rl_limit l" if "?e = Some (count, w)" "t - w < one_hour" for count w
    using free that t by (auto simp: is_rate_limited_def not_le)
  have "unat (fst c) + 1 \<le> L" if "?e = Some c" "t - snd c < one_hour" for c
    using room [of "fst c" "snd c"] that L by (simp add: word_less_nat_alt)
  then have "window_ok one_hour L (ts @ [t]) (Some (next_entry one_hour t (map_option window_of ?e))) t"
    using window_ok_hit [OF ok [unfolded entry_ok_def] order.trans [OF now t] one_hour_pos] L
    by (force simp: window_of_def)
  moreover have "map_option window_of (hget (rl_client_counts (record_issuance t client l)) client) =
      Some (next_entry one_hour t (map_option window_of ?e))"
    using room unat_word_inc one_hour_pos
    by (cases ?e) (auto simp: record_issuance_def hget_or_def next_entry_def window_of_def Let_def not_le)
  ultimately show ?thesis unfolding entry_ok_def by (simp only:)
qed

lemma record_issuance_other:
  "client' \<noteq> client \<Longrightarrow> hget (rl_client_counts (record_issuance t client l)) client' = hget (rl_client_counts l) client'"
  by (simp add: record_issuance_def Let_def)

lemma record_issuance_limit [simp]: "rl_limit (record_issuance t client l) = rl_limit l"
  by (simp add: record_issuance_def Let_def)

interpretation rl: keyed_state "\<lambda>client t l. record_issuance t client l" "\<lambda>l. hget (rl_client_counts l)"
  by unfold_locales (rule record_issuance_other)

definition times_of :: "string \<Rightarrow> (string \<times> instant) list \<Rightarrow> instant list" where
  "times_of client log = map snd (filter (\<lambda>(c, _). c = client) log)"

lemma times_of_simps [simp]: "times_of client [] = []" "times_of client (log @ log') = times_of client log @ times_of client log'"
  "times_of client [(c, t)] = (if c = client then [t] else [])"
  by (simp_all add: times_of_def)

definition limiter_ok :: "u32 \<Rightarrow> (string \<times> instant) list \<Rightarrow> RateLimiter \<Rightarrow> instant \<Rightarrow> bool" where
  "limiter_ok n log l now =
     (rl_limit l = n \<and> (\<forall>client. entry_ok (max 1 (unat n)) (times_of client log) (hget (rl_client_counts l) client) now))"

lemma limiter_ok_issue:
  assumes ok: "limiter_ok n log l now" and "now \<le> t0" and "t0 \<le> t" and free: "\<not> is_rate_limited t0 client l"
  shows "limiter_ok n (log @ [(client, t)]) (record_issuance t client l) t"
proof -
  have n: "rl_limit l = n" using ok by (simp add: limiter_ok_def)
  have "entry_ok (max 1 (unat n)) (times_of c (log @ [(client, t)]))
      (hget (rl_client_counts (record_issuance t client l)) c) t" for c
  proof (cases "c = client")
    case True
    then show ?thesis
      using entry_ok_record [OF ok [unfolded limiter_ok_def, THEN conjunct2, THEN spec, of client] assms(2,3) _ free] n by simp
  next
    case False
    have "entry_ok (max 1 (unat n)) (times_of c log) (hget (rl_client_counts l) c) now"
      using ok by (simp add: limiter_ok_def)
    from entry_ok_later [OF this order.trans [OF assms(2,3)]] False
    show ?thesis using rl.step_other [OF False] by auto
  qed
  then show ?thesis using n by (simp add: limiter_ok_def)
qed

lemma limiter_ok_later: "limiter_ok n log l now \<Longrightarrow> now \<le> t \<Longrightarrow> limiter_ok n log l t"
  unfolding limiter_ok_def using entry_ok_later by blast

lemma clocks_ordered_up:
  assumes "\<forall>i < 5. clk i \<le> clk (Suc i)"
  shows "clk 0 \<le> (clk 5 :: instant)"
  using assms [rule_format, of 0] assms [rule_format, of 1] assms [rule_format, of 2]
    assms [rule_format, of 3] assms [rule_format, of 4] by (simp add: numeral_eq_Suc)

lemma ca_step_limiter:
  assumes step: "ca_step cfg store J X (op, clk) st = (log1, st1)" and op: "op \<noteq> Restart"
    and ok: "limiter_ok n log (ca_limiter st) now" and clk: "now \<le> clk 0" "\<forall>i < 5. clk i \<le> clk (Suc i)"
  shows "limiter_ok n (log @ log1) (ca_limiter st1) (clk 5)"
proof -
  note up = clocks_ordered_up [OF clk(2)]
  note later = limiter_ok_later [OF ok order.trans [OF clk(1) up]]
  note issue = limiter_ok_issue [OF ok clk(1) up]
  show ?thesis
  proof (cases op)
    case (IssueClient request key serial)
    obtain r st' where i: "issue_client_certificate cfg store J X key serial clk request st = (r, st')"
      by (cases "issue_client_certificate cfg store J X key serial clk request st")
    show ?thesis
      using step issue_counted(1) [OF i] later issue by (cases r) (auto simp: ca_step_def IssueClient i counted_def)
  next
    case (IssueServer fqdn extra_sans ttl_opt key serial)
    obtain r st' where i: "issue_server_certificate cfg store J X key serial clk fqdn extra_sans ttl_opt st = (r, st')"
      by (cases "issue_server_certificate cfg store J X key serial clk fqdn extra_sans ttl_opt st")
    show ?thesis
      using step issue_counted(2) [OF i] later issue by (cases r) (auto simp: ca_step_def IssueServer i counted_def)
  next
    case (Validate serial)
    then have "ca_limiter st1 = ca_limiter st" "log1 = []"
      using step by (auto simp: ca_step_def validate_certificate_def case_prod_beta)
    then show ?thesis using later by simp
  next
    case (Lookup serial)
    then have "ca_limiter st1 = ca_limiter st" "log1 = []"
      using step by (auto simp: ca_step_def get_certificate_info_def case_prod_beta split: option.split)
    then show ?thesis using later by simp
  next
    case (Revoke serial)
    have "ca_limiter (snd (revoke_certificate store J (clk 0) (clk 1) serial st)) = ca_limiter st"
      by (simp add: revoke_certificate_def case_prod_beta Let_def)
    then have "ca_limiter st1 = ca_limiter st" "log1 = []" using step by (auto simp: ca_step_def Revoke)
    then show ?thesis using later by simp
  next
    case Cleanup
    then have "ca_limiter st1 = ca_limiter st" "log1 = []"
      using step by (auto simp: ca_step_def cleanup_expired_certificates_def)
    then show ?thesis using later by simp
  qed (use op in simp)
qed

lemma ca_run_limiter:
  assumes "clocks_ordered now (map snd ops)" and "Restart \<notin> fst ` set ops" and "limiter_ok n log (ca_limiter st) now"
  shows "\<exists>t. limiter_ok n (log @ fst (ca_run cfg store J X ops st)) (ca_limiter (snd (ca_run cfg store J X ops st))) t"
  using assms
proof (induction ops arbitrary: now log st)
  case (Cons x ops)
  obtain op clk where x: "x = (op, clk)" by (cases x)
  obtain log1 st1 where s1: "ca_step cfg store J X (op, clk) st = (log1, st1)" by (cases "ca_step cfg store J X (op, clk) st")
  have "op \<noteq> Restart" "now \<le> clk 0" "\<forall>i < 5. clk i \<le> clk (Suc i)" "clocks_ordered (clk 5) (map snd ops)"
    "Restart \<notin> fst ` set ops"
    using Cons.prems(1,2) x by auto
  with ca_step_limiter [OF s1 _ Cons.prems(3)] have "limiter_ok n (log @ log1) (ca_limiter st1) (clk 5)" by blast
  from Cons.IH [OF \<open>clocks_ordered (clk 5) (map snd ops)\<close> \<open>Restart \<notin> fst ` set ops\<close> this]
  show ?case by (simp add: x s1 case_prod_beta Let_def)
qed auto

section \<open>Registry and store\<close>

lemma issue_for_outcome:
  assumes "issue_for cfg store J X key serial clk client ttl_opt req st = (Inr cert, st')"
  defines "ttl \<equiv> (case ttl_opt of Some t \<Rightarrow> t | None \<Rightarrow> cc_default_ttl cfg)"
  shows "ttl \<le> cc_max_ttl cfg"
    and "cm_serial_number (ec_metadata cert) = serial"
    and "cm_expires_at (ec_metadata cert) = clk 2 + cr_validity_duration (req ttl)"
    and "\<exists>l. st' = (register_certificate store J (clk 4) \<lparr> ac_metadata = ec_metadata cert,
       ac_certificate_pem = ec_certificate_pem cert, ac_client_id = client, ac_issued_at = clk 3 \<rparr> st)\<lparr> ca_limiter := l \<rparr>"
proof -
  have ok: "check_ttl cfg ttl = Inr ()" and gen: "generate_certificate cfg X key serial clk (req ttl) = Inr cert"
    and st': "\<exists>l. st' = (register_certificate store J (clk 4) \<lparr> ac_metadata = ec_metadata cert,
       ac_certificate_pem = ec_certificate_pem cert, ac_client_id = client, ac_issued_at = clk 3 \<rparr> st)\<lparr> ca_limiter := l \<rparr>"
    using assms by (auto simp: issue_for_def Let_def split: sum.splits)
  show "ttl \<le> cc_max_ttl cfg" using ok by (simp add: check_ttl_def split: if_splits)
  show "cm_serial_number (ec_metadata cert) = serial"
    and "cm_expires_at (ec_metadata cert) = clk 2 + cr_validity_duration (req ttl)"
    using gen by (auto simp: generate_certificate_def Let_def split: sum.splits prod.splits)
  show "\<exists>l. st' = (register_certificate store J (clk 4) \<lparr> ac_metadata = ec_metadata cert,
       ac_certificate_pem = ec_certificate_pem cert, ac_client_id = client, ac_issued_at = clk 3 \<rparr> st)\<lparr> ca_limiter := l \<rparr>"
    by (rule st')
qed

text \<open>A certificate that is gone: neither in memory nor, from now on, in the store.\<close>

definition cert_gone :: "('s \<Rightarrow> view) \<Rightarrow> string \<Rightarrow> instant \<Rightarrow> 's ca \<Rightarrow> bool" where
  "cert_gone view serial now st \<longleftrightarrow>
     hget (ca_active st) serial = None \<and> (\<forall>t \<ge> now. view (ca_redis st) t (cert_key serial) = None)"

lemma cert_gone_later: "cert_gone view serial now st \<Longrightarrow> now \<le> t \<Longrightarrow> cert_gone view serial t st"
  by (auto simp: cert_gone_def)

context redis_server
begin

lemma stored_string:
  "set_string_ex R t k v ttl s = (Inr u, s1) \<Longrightarrow> get_string R t' k s1 = (Inr w, s2) \<Longrightarrow> t \<le> t' \<Longrightarrow>
   w = live_until (after_secs t (unat ttl)) v t'"
  by (rule cache.fetch_after_put)

end

text \<open>A server whose failing reads leave the data alone.\<close>

locale reading_server = redis_server +
  assumes get_failed: "r_get R t k s = (Inl e, s') \<Longrightarrow> same_from t (view s) (view s')"
begin

lemma get_string_reads:
  assumes "get_string R now k s = (r, s')"
  shows "same_from now (view s) (view s') \<and> (case r of Inl _ \<Rightarrow> True | Inr w \<Rightarrow> w = view s now k)"
proof (cases r)
  case (Inl e)
  obtain r1 s1 where c: "connect R s = (r1, s1)" by (cases "connect R s")
  have v: "view s1 = view s" using connect_view [OF c] .
  show ?thesis
  proof (cases r1)
    case e1: (Inl e1)
    then show ?thesis using assms c v Inl by (auto simp: get_string_def seq_act_def bind_act_def)
  next
    case (Inr u)
    obtain r2 s2 where g: "r_get R now k s1 = (r2, s2)" by (cases "r_get R now k s1")
    obtain e2 where "s2 = s'" "r2 = Inl e2"
      using assms c Inr g Inl by (auto simp: get_string_def seq_act_def bind_act_def map_err_def split: sum.splits)
    then have "same_from now (view s1) (view s')" using get_failed g by blast
    then show ?thesis using v Inl by simp
  qed
next
  case (Inr w)
  then show ?thesis using cache.fetch_law assms by auto
qed

lemma get_certificate_gone:
  assumes gone: "cert_gone view serial now st" and t: "now \<le> t"
    and get: "get_certificate (Some R) J t serial' st = (r, st')"
  shows "cert_gone view serial t st' \<and> (serial' = serial \<longrightarrow> r = None)"
proof (cases "hget (ca_active st) serial'")
  case (Some c)
  then show ?thesis using gone get cert_gone_later [OF gone t] by (auto simp: get_certificate_def cert_gone_def)
next
  case None
  obtain x s' where g: "get_string R t (cert_key serial') (ca_redis st) = (x, s')"
    by (cases "get_string R t (cert_key serial') (ca_redis st)")
  note gr = get_string_reads [OF g]
  have keep: "view s' u (cert_key serial) = None" if "t \<le> u" for u
    using gr gone t that same_fromD [of t "view (ca_redis st)" "view s'" u "cert_key serial"] by (auto simp: cert_gone_def)
  have hit: "serial' \<noteq> serial" if "x = Inr (Some json)" for json
    using gr that gone t by (auto simp: cert_gone_def)
  show ?thesis
    using get None g gone keep hit by (auto simp: get_certificate_def cert_gone_def split: sum.splits option.splits)
qed

lemma revoked_gone:
  assumes ack: "\<forall>s. is_ok (fst (del_key R n' (cert_key serial) s))"
    and rev: "revoke_certificate (Some R) J n n' serial st = (r, st')"
  shows "cert_gone view serial n' st'"
proof -
  obtain f st1 where g: "get_certificate (Some R) J n serial st = (f, st1)" by (cases "get_certificate (Some R) J n serial st")
  obtain x s' where d: "del_key R n' (cert_key serial) (ca_redis st1) = (x, s')"
    by (cases "del_key R n' (cert_key serial) (ca_redis st1)")
  obtain u where x: "x = Inr u" using ack [rule_format, of "ca_redis st1"] d by (cases x) auto
  have "st' = st1\<lparr> ca_redis := s', ca_active := hdel serial (ca_active st1) \<rparr>"
    using rev by (simp add: revoke_certificate_def remove_certificate_def g d Let_def)
  then show ?thesis using cache.remove_law [OF d [unfolded x]] by (simp add: cert_gone_def)
qed

lemma read_step_gone:
  assumes gone: "cert_gone view serial now st" and t: "now \<le> clk 0" "clk 0 \<le> clk 5"
    and op: "op \<in> range Validate \<union> range Lookup \<union> {Cleanup, Restart}"
  shows "cert_gone view serial (clk 5) (snd (ca_step cfg (Some R) J X (op, clk) st))"
proof -
  have get: "cert_gone view serial (clk 5) (snd (get_certificate (Some R) J (clk 0) s st))" for s
    using get_certificate_gone [OF gone t(1) prod.collapse [symmetric]] cert_gone_later t(2) by blast
  have kept: "hget (hretain P m) serial = None" if "hget m serial = None" for P and m :: "(string, ActiveCertificate) hmap"
    using that by (auto simp: hget_def hretain_def map_of_eq_None_iff)
  from op consider (v) s where "op = Validate s" | (l) s where "op = Lookup s" | (c) "op = Cleanup" | (r) "op = Restart" by blast
  then show ?thesis
  proof cases
    case (v s)
    have "snd (is_certificate_valid (Some R) J (clk 0) (clk 1) s st) = snd (get_certificate (Some R) J (clk 0) s st)"
      by (simp add: is_certificate_valid_def case_prod_beta split: option.split)
    then show ?thesis using get by (simp add: v ca_step_def validate_certificate_def case_prod_beta)
  next
    case (l s)
    then show ?thesis using get by (simp add: ca_step_def get_certificate_info_def case_prod_beta split: option.split)
  next
    case c
    then show ?thesis
      using cert_gone_later [OF gone order.trans [OF t]] kept
      by (simp add: ca_step_def cleanup_expired_certificates_def cleanup_expired_def cert_gone_def Let_def)
  next
    case r
    then show ?thesis
      using cert_gone_later [OF gone order.trans [OF t]] by (simp add: ca_step_def ca_restart_def ca_new_def cert_gone_def)
  qed
qed

lemma read_run_gone:
  assumes "cert_gone view serial now st" and "clocks_ordered now (map snd ops @ [c])"
    and "fst ` set ops \<subseteq> range Validate \<union> range Lookup \<union> {Cleanup, Restart}"
  shows "cert_gone view serial (c 0) (snd (ca_run cfg (Some R) J X ops st))"
  using assms
proof (induction ops arbitrary: now st)
  case (Cons x ops)
  obtain op clk where x: "x = (op, clk)" by (cases x)
  have o: "now \<le> clk 0" "clk 0 \<le> clk 5" "clocks_ordered (clk 5) (map snd ops @ [c])"
    using Cons.prems(2) x clocks_ordered_up by auto
  have "op \<in> range Validate \<union> range Lookup \<union> {Cleanup, Restart}" using Cons.prems(3) x by auto
  from read_step_gone [OF Cons.prems(1) o(1,2) this]
  have "cert_gone view serial (clk 5) (snd (ca_step cfg (Some R) J X (op, clk) st))" .
  from Cons.IH [OF this o(3)] Cons.prems(3) show ?case by (simp add: x case_prod_beta Let_def)
qed (use cert_gone_later in auto)

end

interpretation mem_reads: reading_server mem_redis mem_view
  by unfold_locales (simp add: mem_ops)

section \<open>Properties\<close>


definition demo_rcgen :: "(unit, unit) rcgen" where
  "demo_rcgen = \<lparr> rc_from_params = (\<lambda>_. Inr ()), rc_signed_pem = (\<lambda>_. Inr ''pem''), rc_key_pem = (\<lambda>_. ''key''),
     rc_ca_pem = Inr ''ca'', rc_default_validity = (0, 0), rc_pem_certs = (\<lambda>_. Inr [''der'']), rc_sha256 = (\<lambda>_. ''h'') \<rparr>"

definition demo_cert_codec :: "ActiveCertificate list \<Rightarrow> cert_codec" where
  "demo_cert_codec cs = \<lparr> ser_cert = tab_ser cs, de_cert = tab_de cs \<rparr>"

lemma demo_issue:
  "\<exists>c st. issue_client_certificate CaConfig_default None J demo_rcgen (Inr ()) ''s1'' (\<lambda>_. 0)
     (IssuanceRequest_new ''r'' ''tunnel-client-7'' ''7'') (ca_new CaConfig_default s) = (Inr c, st)"
  by (simp add: issue_client_certificate_def issue_for_def validate_request_def IssuanceRequest_new_def check_rate_limits_def
      is_rate_limited_def ca_new_def RateLimiter_new_def check_ttl_def CaConfig_default_def DEFAULT_CERT_TTL_def
      MAX_CERT_TTL_def chrono_seconds_def generate_certificate_def demo_rcgen_def calculate_fingerprint_def Let_def)



definition demo_metadata :: CertificateMetadata where
  "demo_metadata = \<lparr> cm_serial_number = ''s1'', cm_subject = ''CN=tunnel-client-7'', cm_issuer = ''CN=FleetingDNS-CA'',
     cm_issued_at = 0, cm_expires_at = 1800000000000, cm_fingerprint = ''68'' \<rparr>"

definition demo_active :: ActiveCertificate where
  "demo_active = \<lparr> ac_metadata = demo_metadata, ac_certificate_pem = ''pem'', ac_client_id = ''7'', ac_issued_at = 0 \<rparr>"

definition demo_certificate :: EphemeralCertificate where
  "demo_certificate = \<lparr> ec_certificate_pem = ''pem'', ec_private_key_pem = ''key'', ec_metadata = demo_metadata,
     ec_ca_chain_pem = ''ca'' \<rparr>"

lemma demo_stored_certificate:
  defines "J \<equiv> demo_cert_codec [demo_active]"
  shows "ser_cert J demo_active = Inr (dec 0)"
    and "\<exists>st. issue_client_certificate CaConfig_default (Some mem_redis) J demo_rcgen (Inr ()) ''s1'' (\<lambda>_. 0)
        (IssuanceRequest_new ''r'' ''tunnel-client-7'' ''7'') (ca_new CaConfig_default []) = (Inr demo_certificate, st)
        \<and> set_string_ex mem_redis 0 (cert_key ''s1'') (dec 0) (as_u64 1800) [] = (Inr (), ca_redis st)"
proof -
  show ser: "ser_cert J demo_active = Inr (dec 0)" by (simp add: J_def demo_cert_codec_def tab_ser_def)
  have gen: "generate_certificate CaConfig_default demo_rcgen (Inr ()) ''s1'' (\<lambda>_. 0)
      (cr_with_san (for_tunnel_client ''7'' DEFAULT_CERT_TTL) ''tunnel-client-7'') = Inr demo_certificate"
    by (simp add: generate_certificate_def demo_rcgen_def calculate_fingerprint_def Let_def cr_with_san_def
        for_tunnel_client_def demo_certificate_def demo_metadata_def CaConfig_default_def hex_upper_def
        DEFAULT_CERT_TTL_def chrono_seconds_def)
  have put: "set_string_ex mem_redis 0 (cert_key ''s1'') (dec 0) (as_u64 1800) [] =
      (Inr (), hput (cert_key ''s1'') (dec 0, Some (after_secs 0 1800)) [])"
    by (simp add: set_string_ex_def connect_def mem_eval as_u64_def)
  have reg: "ca_redis (register_certificate (Some mem_redis) J 0 demo_active (ca_new CaConfig_default [])) =
      hput (cert_key ''s1'') (dec 0, Some (after_secs 0 1800)) []"
    using put ser by (simp add: register_certificate_def demo_active_def demo_metadata_def ca_new_def num_seconds_def Let_def)
  have fresh: "check_rate_limits 0 ''7'' (ca_limiter (ca_new CaConfig_default ([] :: mem_state))) = Inr ()"
    by (simp add: check_rate_limits_def is_rate_limited_def ca_new_def RateLimiter_new_def)
  have ttl: "check_ttl CaConfig_default DEFAULT_CERT_TTL = Inr ()"
    by (simp add: check_ttl_def CaConfig_default_def DEFAULT_CERT_TTL_def MAX_CERT_TTL_def chrono_seconds_def)
  have active: "\<lparr> ac_metadata = ec_metadata demo_certificate, ac_certificate_pem = ec_certificate_pem demo_certificate,
      ac_client_id = ''7'', ac_issued_at = 0 \<rparr> = demo_active"
    by (simp add: demo_certificate_def demo_active_def)
  have "cc_default_ttl CaConfig_default = DEFAULT_CERT_TTL" by (simp add: CaConfig_default_def)
  then show "\<exists>st. issue_client_certificate CaConfig_default (Some mem_redis) J demo_rcgen (Inr ()) ''s1'' (\<lambda>_. 0)
        (IssuanceRequest_new ''r'' ''tunnel-client-7'' ''7'') (ca_new CaConfig_default []) = (Inr demo_certificate, st)
        \<and> set_string_ex mem_redis 0 (cert_key ''s1'') (dec 0) (as_u64 1800) [] = (Inr (), ca_redis st)"
    using gen put reg fresh ttl active
    by (simp add: issue_client_certificate_def issue_for_def validate_request_def IssuanceRequest_new_def Let_def)
qed


text \<open>
  C14: a revoked certificate does not validate again: once Redis has acknowledged the deletion of its record,
  no sequence of validations, lookups, clean-ups and restarts brings it back.
\<close>

theorem revocation_is_final:
  assumes server: "reading_server R view"
    and ack: "\<forall>s. is_ok (fst (del_key R n' (cert_key serial) s))"
    and revoke: "revoke_certificate (Some R) J n n' serial st = (r, st1)"
    and clocks: "clocks_ordered n' (map snd ops @ [c])"
    and ops: "fst ` set ops \<subseteq> range Validate \<union> range Lookup \<union> {Cleanup, Restart}"
  shows "fst (validate_certificate (Some R) J (c 0) (c 1) serial (snd (ca_run cfg (Some R) J X ops st1))) = Inr False"
proof -
  note gone = reading_server.read_run_gone [OF server reading_server.revoked_gone [OF server ack revoke] clocks ops]
  have "fst (get_certificate (Some R) J (c 0) serial (snd (ca_run cfg (Some R) J X ops st1))) = None"
    using reading_server.get_certificate_gone [OF server gone order_refl prod.collapse [symmetric]] by blast
  then show ?thesis by (auto simp: validate_certificate_def is_certificate_valid_def split: prod.splits)
qed

theorem revocation_is_final_witness:
  "let st = (ca_new CaConfig_default [])\<lparr> ca_active := [(''s1'', demo_active)] \<rparr>;
       store = Some mem_redis; J = demo_cert_codec [demo_active]
   in fst (validate_certificate store J 0 0 ''s1'' st) = Inr True
      \<and> fst (validate_certificate store J 2 2 ''s1''
          (snd (ca_run CaConfig_default store J demo_rcgen [(Lookup ''s1'', \<lambda>_. 1), (Restart, \<lambda>_. 1)]
            (snd (revoke_certificate store J 0 0 ''s1'' st))))) = Inr False"
proof -
  have ack: "\<forall>s. is_ok (fst (del_key mem_redis 0 (cert_key ''s1'') s))" by (simp add: del_key_def connect_def mem_eval)
  show ?thesis
    using revocation_is_final [OF mem_reads.reading_server_axioms ack prod.collapse [symmetric],
        of "[(Lookup ''s1'', \<lambda>_. 1), (Restart, \<lambda>_. 1)]" "\<lambda>_. 2"]
    by (simp add: Let_def validate_certificate_def is_certificate_valid_def get_certificate_def demo_active_def demo_metadata_def)
qed

end
