(* ===== verification/Wildcard_Certs.thy ===== *)
theory Wildcard_Certs
  imports Cert_Authority
begin

text \<open>
  The users of the certificate authority inside the hub: the start-up of an authority
  (\<open>crates/edf-ca/src/ca.rs\<close>), the manager of the router's wildcard certificate
  (\<open>crates/edgehub/src/certificate_manager.rs\<close>) and the batch processor
  (\<open>crates/edf-ca/src/batch_operations.rs\<close>).  The file system and the X.509 and TLS libraries are
  parameters (\<open>ca_host\<close>, \<open>rcgen\<close>, \<open>rustls\<close>); floating point division is the parameter \<open>fdiv\<close>.
\<close>

section \<open>Start-up of an authority\<close>

record CaParams =
  cap_distinguished_name :: "(DnType \<times> string) list"
  cap_is_ca :: bool
  cap_key_usages :: "KeyUsagePurpose list"
  cap_not_before :: instant
  cap_not_after :: instant

text \<open>The host of an authority: a self-signed certificate from parameters, its PEM forms, and the files.\<close>

record ('f, 'r) ca_host =
  ch_from_params :: "CaParams \<Rightarrow> string + 'r"
  ch_pem :: "'r \<Rightarrow> string + string"
  ch_key_pem :: "'r \<Rightarrow> string"
  ch_exists :: "'f \<Rightarrow> string \<Rightarrow> bool"
  ch_write :: "string \<Rightarrow> string \<Rightarrow> ('f, string, unit) act"

definition ca_validity :: int where
  "ca_validity = chrono_seconds (3650 * 86400)"

definition generate_ca_certificate :: "('f, 'r) ca_host \<Rightarrow> instant \<Rightarrow> CaConfig \<Rightarrow> FleetingDnsError + 'r" where
  "generate_ca_certificate H now cfg =
     map_err_res generation_failed (ch_from_params H
       \<lparr> cap_distinguished_name = [(CommonName, cc_ca_name cfg), (OrganizationName, cc_organization cfg),
           (OrganizationalUnitName, cc_organizational_unit cfg)],
         cap_is_ca = True, cap_key_usages = [Purpose_KeyCertSign, Purpose_CrlSign],
         cap_not_before = now, cap_not_after = now + ca_validity \<rparr>)"

definition load_ca_certificate :: "('f, 'r) ca_host \<Rightarrow> instant \<Rightarrow> string \<Rightarrow> string \<Rightarrow> FleetingDnsError + 'r" where
  "load_ca_certificate H now cert_path key_path = generate_ca_certificate H now CaConfig_default"

definition save_ca_certificate :: "('f, 'r) ca_host \<Rightarrow> 'r \<Rightarrow> string \<Rightarrow> string \<Rightarrow> ('f, FleetingDnsError, unit) act" where
  "save_ca_certificate H cert cert_path key_path =
     bind_act (lift_res (map_err_res generation_failed (ch_pem H cert))) (\<lambda>cert_pem.
     seq_act (map_err Fd_Io (ch_write H cert_path cert_pem))
       (map_err Fd_Io (ch_write H key_path (ch_key_pem H cert))))"

definition load_or_generate_ca_certificate :: "('f, 'r) ca_host \<Rightarrow> instant \<Rightarrow> CaConfig \<Rightarrow> ('f, FleetingDnsError, 'r) act" where
  "load_or_generate_ca_certificate H now cfg fs =
     (case (cc_ca_cert_path cfg, cc_ca_key_path cfg) of
        (Some cert_path, Some key_path) \<Rightarrow>
          if ch_exists H fs cert_path \<and> ch_exists H fs key_path
          then (load_ca_certificate H now cert_path key_path, fs)
          else bind_act (lift_res (generate_ca_certificate H now cfg)) (\<lambda>ca_cert.
               seq_act (save_ca_certificate H ca_cert cert_path key_path) (ret ca_cert)) fs
      | _ \<Rightarrow> (generate_ca_certificate H now cfg, fs))"

text \<open>\<open>new\<close> and \<open>with_store\<close> differ in the registry's store, a parameter of the later operations.\<close>

definition ca_build :: "('f, 'r) ca_host \<Rightarrow> instant \<Rightarrow> CaConfig \<Rightarrow> 's \<Rightarrow> ('f, FleetingDnsError, 'r \<times> 's ca) act" where
  "ca_build H now cfg s =
     bind_act (load_or_generate_ca_certificate H now cfg) (\<lambda>ca_certificate. ret (ca_certificate, ca_new cfg s))"

definition get_ca_certificate_pem :: "('k, 'c) rcgen \<Rightarrow> FleetingDnsError + string" where
  "get_ca_certificate_pem X = map_err_res generation_failed (rc_ca_pem X)"

section \<open>The wildcard certificate\<close>

record CertificateConfig =
  wc_root_domain :: string
  wc_validity_duration :: int
  wc_renew_before :: int
  wc_include_localhost :: bool

definition CertificateConfig_default :: CertificateConfig where
  "CertificateConfig_default =
     \<lparr> wc_root_domain = ''fleetingdns.run'', wc_validity_duration = chrono_seconds 3600,
       wc_renew_before = chrono_seconds 600, wc_include_localhost = True \<rparr>"

record CertificateInfo =
  ci_subject_alt_names :: "string list"
  ci_certificate :: string
  ci_private_key :: string
  ci_expires_at :: instant
  ci_serial_number :: string

record 's CertificateManager =
  mg_config :: CertificateConfig
  mg_ca_config :: CaConfig
  mg_ca :: "'s ca"
  mg_cached :: "CertificateInfo option"

definition manager_with_ca :: "CertificateConfig \<Rightarrow> CaConfig \<Rightarrow> 's ca \<Rightarrow> 's CertificateManager" where
  "manager_with_ca config ca_config ca =
     \<lparr> mg_config = config, mg_ca_config = ca_config, mg_ca = ca, mg_cached = None \<rparr>"

definition manager_ca_config :: "CertificateConfig \<Rightarrow> CaConfig" where
  "manager_ca_config config = CaConfig_default\<lparr> cc_default_ttl := wc_validity_duration config,
     cc_max_ttl := max (wc_validity_duration config) (cc_max_ttl CaConfig_default) \<rparr>"

definition manager_new ::
    "('f, 'r) ca_host \<Rightarrow> instant \<Rightarrow> CertificateConfig \<Rightarrow> 's \<Rightarrow> ('f, string, 'r \<times> 's CertificateManager) act" where
  "manager_new H now config s =
     bind_act (map_err (\<lambda>e. ''failed to initialise certificate authority: '' @ fd_to_string e)
         (ca_build H now (manager_ca_config config) s))
       (\<lambda>(ca_certificate, ca). ret (ca_certificate, manager_with_ca config (manager_ca_config config) ca))"

definition subject_alt_names :: "CertificateConfig \<Rightarrow> string list" where
  "subject_alt_names config =
     [''*.'' @ wc_root_domain config, wc_root_domain config]
       @ (if wc_include_localhost config then [''localhost''] else [])"

definition needs_renewal :: "instant \<Rightarrow> CertificateConfig \<Rightarrow> CertificateInfo \<Rightarrow> bool" where
  "needs_renewal now config cert \<longleftrightarrow> ci_expires_at cert - now \<le> wc_renew_before config"

definition issue_wildcard ::
    "'s redis option \<Rightarrow> cert_codec \<Rightarrow> ('k, 'c) rcgen \<Rightarrow> string + 'k \<Rightarrow> string \<Rightarrow> (nat \<Rightarrow> instant)
      \<Rightarrow> ('s CertificateManager, string, CertificateInfo) act" where
  "issue_wildcard store J X key serial clk m =
     (let sans = subject_alt_names (mg_config m); primary = hd sans; extra = tl sans in
      case issue_server_certificate (mg_ca_config m) store J X key serial clk primary extra
             (Some (wc_validity_duration (mg_config m))) (mg_ca m) of
        (Inl e, ca) \<Rightarrow>
          (Inl (''CA failed to issue wildcard certificate for '' @ primary @ '': '' @ fd_to_string e), m\<lparr> mg_ca := ca \<rparr>)
      | (Inr ephemeral, ca) \<Rightarrow>
          (Inr \<lparr> ci_subject_alt_names = sans, ci_certificate = ec_certificate_pem ephemeral,
                 ci_private_key = ec_private_key_pem ephemeral,
                 ci_expires_at = cm_expires_at (ec_metadata ephemeral),
                 ci_serial_number = cm_serial_number (ec_metadata ephemeral) \<rparr>, m\<lparr> mg_ca := ca \<rparr>))"

definition manager_certificate ::
    "'s redis option \<Rightarrow> cert_codec \<Rightarrow> ('k, 'c) rcgen \<Rightarrow> string + 'k \<Rightarrow> string \<Rightarrow> (nat \<Rightarrow> instant)
      \<Rightarrow> ('s CertificateManager, string, CertificateInfo) act" where
  "manager_certificate store J X key serial clk m =
     (let renew = (case issue_wildcard store J X key serial (\<lambda>i. clk (1 + i)) m of
                     (Inl e, m') \<Rightarrow> (Inl e, m')
                   | (Inr fresh, m') \<Rightarrow> (Inr fresh, m'\<lparr> mg_cached := Some fresh \<rparr>)) in
      case mg_cached m of
        Some current \<Rightarrow> if \<not> needs_renewal (clk 0) (mg_config m) current then (Inr current, m) else renew
      | None \<Rightarrow> renew)"

text \<open>The TLS library: PEM parsing and the check that a key belongs to a certificate chain.\<close>

record ('d, 'p) rustls =
  ru_certs :: "string \<Rightarrow> string + 'd list"
  ru_private_key :: "string \<Rightarrow> string + 'p option"
  ru_single_cert :: "'d list \<Rightarrow> 'p \<Rightarrow> string + unit"

record ('d, 'p) ServerConfig =
  sv_chain :: "'d list"
  sv_key :: 'p
  sv_alpn_protocols :: "string list"

definition to_rustls_certificate :: "('d, 'p) rustls \<Rightarrow> CertificateInfo \<Rightarrow> string + 'd list \<times> 'p" where
  "to_rustls_certificate U cert_info =
     (case ru_certs U (ci_certificate cert_info) of
        Inl e \<Rightarrow> Inl (''certificate PEM parse error: '' @ e)
      | Inr certs \<Rightarrow>
          if certs = [] then Inl ''no certificate found in issued PEM''
          else (case ru_private_key U (ci_private_key cert_info) of
                  Inl e \<Rightarrow> Inl (''private key PEM parse error: '' @ e)
                | Inr None \<Rightarrow> Inl ''no private key found in issued PEM''
                | Inr (Some key) \<Rightarrow> Inr (certs, key)))"

definition server_config ::
    "'s redis option \<Rightarrow> cert_codec \<Rightarrow> ('k, 'c) rcgen \<Rightarrow> ('d, 'p) rustls \<Rightarrow> string + 'k \<Rightarrow> string \<Rightarrow> (nat \<Rightarrow> instant)
      \<Rightarrow> string list \<Rightarrow> ('s CertificateManager, string, ('d, 'p) ServerConfig) act" where
  "server_config store J X U key serial clk alpn =
     bind_act (manager_certificate store J X key serial clk) (\<lambda>info.
     bind_act (lift_res (to_rustls_certificate U info)) (\<lambda>(chain, pkey).
     seq_act (lift_res (map_err_res (\<lambda>e. ''failed to build rustls server config: '' @ e) (ru_single_cert U chain pkey)))
       (ret \<lparr> sv_chain = chain, sv_key = pkey, sv_alpn_protocols = alpn \<rparr>)))"

definition manager_ca_certificate_pem :: "('k, 'c) rcgen \<Rightarrow> string + string" where
  "manager_ca_certificate_pem X =
     map_err_res (\<lambda>e. ''failed to read CA certificate: '' @ fd_to_string e) (get_ca_certificate_pem X)"

text \<open>
  A run of a manager: requests for the certificate, each with the outcome of the key generation, the
  fresh serial and the clock readings, and other uses of the shared authority in between.
\<close>

datatype ('s, 'k) manager_event = Ask "string + 'k" string "nat \<Rightarrow> instant" | SharedUse "'s ca"

fun manager_run ::
    "'s redis option \<Rightarrow> cert_codec \<Rightarrow> ('k, 'c) rcgen \<Rightarrow> ('s, 'k) manager_event list \<Rightarrow> 's CertificateManager
      \<Rightarrow> ((nat \<Rightarrow> instant) \<times> (string + CertificateInfo)) list \<times> 's CertificateManager" where
  "manager_run store J X [] m = ([], m)"
| "manager_run store J X (Ask key serial clk # es) m =
     (case manager_certificate store J X key serial clk m of
        (r, m') \<Rightarrow> (case manager_run store J X es m' of (rs, m'') \<Rightarrow> ((clk, r) # rs, m'')))"
| "manager_run store J X (SharedUse ca # es) m = manager_run store J X es (m\<lparr> mg_ca := ca \<rparr>)"

section \<open>Batches\<close>

record BatchConfig =
  bc_max_batch_size :: nat
  bc_max_batch_wait_ms :: u64
  bc_max_processing_time_ms :: u64
  bc_enable_stats :: bool

definition BatchConfig_default :: BatchConfig where
  "BatchConfig_default = \<lparr> bc_max_batch_size = 10, bc_max_batch_wait_ms = 100, bc_max_processing_time_ms = 500,
     bc_enable_stats = True \<rparr>"

record 'f BatchStats =
  bs_total_batches :: u64
  bs_total_operations :: u64
  bs_avg_batch_size :: 'f
  bs_avg_processing_time_ms :: 'f
  bs_successful_operations :: u64
  bs_failed_operations :: u64

definition BatchStats_default :: "'f \<Rightarrow> 'f BatchStats" where
  "BatchStats_default zero = \<lparr> bs_total_batches = 0, bs_total_operations = 0, bs_avg_batch_size = zero,
     bs_avg_processing_time_ms = zero, bs_successful_operations = 0, bs_failed_operations = 0 \<rparr>"

text \<open>\<open>po_sender\<close> names the one-shot channel of the caller.\<close>

record PendingOperation =
  po_request :: IssuanceRequest
  po_sender :: nat
  po_timestamp :: instant

text \<open>
  The processor with its channel: the batches in transit, whether the receiver is alive, and the answers
  already sent, in order.
\<close>

record 'f CertificateBatchProcessor =
  bp_config :: BatchConfig
  bp_pending :: "PendingOperation list"
  bp_stats :: "'f BatchStats"
  bp_channel :: "PendingOperation list list"
  bp_receiver_alive :: bool
  bp_answers :: "(nat \<times> (FleetingDnsError + IssuanceResponse)) list"

definition batch_processor_new :: "'f \<Rightarrow> BatchConfig \<Rightarrow> 'f CertificateBatchProcessor" where
  "batch_processor_new zero config =
     \<lparr> bp_config = config, bp_pending = [], bp_stats = BatchStats_default zero, bp_channel = [],
       bp_receiver_alive = True, bp_answers = [] \<rparr>"

definition submit_operation ::
    "CaConfig \<Rightarrow> 's redis option \<Rightarrow> cert_codec \<Rightarrow> ('k, 'c) rcgen \<Rightarrow> string + 'k \<Rightarrow> string \<Rightarrow> (nat \<Rightarrow> instant)
      \<Rightarrow> IssuanceRequest \<Rightarrow> ('s ca, FleetingDnsError, IssuanceResponse) act" where
  "submit_operation cfg store J X key serial clk request = issue_certificate cfg store J X key serial clk request"

definition process_batch :: "'f CertificateBatchProcessor \<Rightarrow> (FleetingDnsError + unit) \<times> 'f CertificateBatchProcessor" where
  "process_batch p =
     (if bp_pending p = [] then (Inr (), p)
      else let batch_size = min (length (bp_pending p)) (bc_max_batch_size (bp_config p));
               operations = take batch_size (bp_pending p);
               p' = p\<lparr> bp_pending := drop batch_size (bp_pending p) \<rparr>
           in if bp_receiver_alive p then (Inr (), p'\<lparr> bp_channel := bp_channel p @ [operations] \<rparr>)
              else (Inl (Fd_InternalError ''Batch processing failed''), p'))"

definition get_stats :: "'f CertificateBatchProcessor \<Rightarrow> 'f BatchStats" where
  "get_stats p = bp_stats p"

definition reset_stats :: "'f \<Rightarrow> 'f CertificateBatchProcessor \<Rightarrow> 'f CertificateBatchProcessor" where
  "reset_stats zero p = p\<lparr> bp_stats := BatchStats_default zero \<rparr>"

text \<open>The operations of a batch, one after the other; \<open>gen\<close> has key, serial and clock of each issuance.\<close>

fun issue_all ::
    "CaConfig \<Rightarrow> 's redis option \<Rightarrow> cert_codec \<Rightarrow> ('k, 'c) rcgen \<Rightarrow> (nat \<Rightarrow> (string + 'k) \<times> string \<times> (nat \<Rightarrow> instant))
      \<Rightarrow> PendingOperation list \<Rightarrow> 's ca \<Rightarrow> (nat \<times> (FleetingDnsError + IssuanceResponse)) list \<times> 's ca" where
  "issue_all cfg store J X gen [] ca = ([], ca)"
| "issue_all cfg store J X gen (op # ops) ca =
     (case gen (po_sender op) of (key, serial, clk) \<Rightarrow>
        (case issue_certificate cfg store J X key serial clk (po_request op) ca of
           (result, ca1) \<Rightarrow>
             (case issue_all cfg store J X gen ops ca1 of (rs, ca2) \<Rightarrow> ((po_sender op, result) # rs, ca2))))"

definition successes :: "('i \<times> ('e + 'a)) list \<Rightarrow> nat" where
  "successes rs = length (filter (\<lambda>(i, r). is_ok r) rs)"

text \<open>\<open>fdiv\<close> is the division of two integers as floating point numbers, \<open>elapsed\<close> the batch's time in milliseconds.\<close>

definition batch_stats :: "(nat \<Rightarrow> u64 \<Rightarrow> 'f) \<Rightarrow> nat \<Rightarrow> nat \<Rightarrow> nat \<Rightarrow> nat \<Rightarrow> 'f BatchStats \<Rightarrow> 'f BatchStats" where
  "batch_stats fdiv elapsed batch_size successful failed s =
     (let batches = bs_total_batches s + 1; operations = bs_total_operations s + of_nat batch_size;
          s1 = s\<lparr> bs_total_batches := batches, bs_total_operations := operations,
                  bs_successful_operations := bs_successful_operations s + of_nat successful,
                  bs_failed_operations := bs_failed_operations s + of_nat failed \<rparr>
      in if batches > 0
         then s1\<lparr> bs_avg_batch_size := fdiv (unat operations) batches,
                  bs_avg_processing_time_ms := fdiv elapsed batches \<rparr>
         else s1)"

text \<open>One turn of the background task: the next batch, if there is one.\<close>

definition receive_batch ::
    "CaConfig \<Rightarrow> 's redis option \<Rightarrow> cert_codec \<Rightarrow> ('k, 'c) rcgen \<Rightarrow> (nat \<Rightarrow> (string + 'k) \<times> string \<times> (nat \<Rightarrow> instant))
      \<Rightarrow> (nat \<Rightarrow> u64 \<Rightarrow> 'f) \<Rightarrow> nat \<Rightarrow> 'f CertificateBatchProcessor \<Rightarrow> 's ca \<Rightarrow> 'f CertificateBatchProcessor \<times> 's ca" where
  "receive_batch cfg store J X gen fdiv elapsed p ca =
     (case bp_channel p of
        [] \<Rightarrow> (p, ca)
      | batch # rest \<Rightarrow>
          (case issue_all cfg store J X gen batch ca of
             (rs, ca') \<Rightarrow>
               (p\<lparr> bp_channel := rest, bp_answers := bp_answers p @ rs,
                   bp_stats := batch_stats fdiv elapsed (length batch) (successes rs) (length rs - successes rs)
                     (bp_stats p) \<rparr>, ca')))"

datatype batch_event = ProcessBatch | ReceiveBatch nat

fun batch_run ::
    "CaConfig \<Rightarrow> 's redis option \<Rightarrow> cert_codec \<Rightarrow> ('k, 'c) rcgen \<Rightarrow> (nat \<Rightarrow> (string + 'k) \<times> string \<times> (nat \<Rightarrow> instant))
      \<Rightarrow> (nat \<Rightarrow> u64 \<Rightarrow> 'f) \<Rightarrow> batch_event list \<Rightarrow> 'f CertificateBatchProcessor \<Rightarrow> 's ca
      \<Rightarrow> 'f CertificateBatchProcessor \<times> 's ca" where
  "batch_run cfg store J X gen fdiv [] p ca = (p, ca)"
| "batch_run cfg store J X gen fdiv (ProcessBatch # es) p ca = batch_run cfg store J X gen fdiv es (snd (process_batch p)) ca"
| "batch_run cfg store J X gen fdiv (ReceiveBatch elapsed # es) p ca =
     (case receive_batch cfg store J X gen fdiv elapsed p ca of (p', ca') \<Rightarrow> batch_run cfg store J X gen fdiv es p' ca')"

section \<open>What a fresh certificate carries\<close>

text \<open>A certificate and key made from one key pair, valid for the given names as a server.\<close>

definition server_pair :: "('k, 'c) rcgen \<Rightarrow> string + 'k \<Rightarrow> string list \<Rightarrow> string \<Rightarrow> string \<Rightarrow> bool" where
  "server_pair X key names cert_pem key_pem \<longleftrightarrow>
     (\<exists>k p c. key = Inr k \<and> rc_from_params X p = Inr c \<and> cp_key_pair p = Some k \<and> cp_subject_alt_names p = names
        \<and> cp_extended_key_usages p = [Purpose_ServerAuth] \<and> rc_signed_pem X c = Inr cert_pem \<and> key_pem = rc_key_pem X c)"

lemma generate_certificate_pair:
  assumes "generate_certificate cfg X key serial clk request = Inr cert" and "cr_extended_key_usage request = [ServerAuth]"
  shows "server_pair X key (cr_subject_alt_names request) (ec_certificate_pem cert) (ec_private_key_pem cert)"
proof -
  obtain k where k: "key = Inr k" using assms by (cases key) (simp_all add: generate_certificate_def)
  let ?p = "cb_key_pair k (cb_extended_key_usage (cr_extended_key_usage request)
                 (cb_key_usage (cr_key_usage request) (cb_validity_duration (clk 1) (cr_validity_duration request)
                   (cb_subject_alt_names (cr_subject_alt_names request) (cb_common_name (cr_common_name request)
                     (case rc_default_validity X of (b, a) \<Rightarrow> CertificateBuilder_new b a))))))"
  have p: "cp_key_pair ?p = Some k" "cp_subject_alt_names ?p = cr_subject_alt_names request"
    "cp_extended_key_usages ?p = [Purpose_ServerAuth]"
    using assms(2)
    by (simp_all add: cb_key_pair_def cb_extended_key_usage_def cb_key_usage_def cb_validity_duration_def
        cb_subject_alt_names_def cb_common_name_def CertificateBuilder_new_def split: prod.split)
  obtain c where "rc_from_params X ?p = Inr c" "rc_signed_pem X c = Inr (ec_certificate_pem cert)"
    "ec_private_key_pem cert = rc_key_pem X c"
    using assms(1) unfolding generate_certificate_def k sum.case Let_def by (auto split: sum.splits)
  with k p show ?thesis unfolding server_pair_def by blast
qed

lemma with_sans:
  "cr_subject_alt_names (foldl cr_with_san r ns) = cr_subject_alt_names r @ ns"
  "cr_extended_key_usage (foldl cr_with_san r ns) = cr_extended_key_usage r"
  "cr_validity_duration (foldl cr_with_san r ns) = cr_validity_duration r"
  by (induction ns arbitrary: r) (simp_all add: cr_with_san_def)

lemma issue_server_certificate_ok:
  assumes "issue_server_certificate cfg store J X key serial clk fqdn extra (Some ttl) st = (Inr cert, st')"
  shows "server_pair X key (fqdn # extra) (ec_certificate_pem cert) (ec_private_key_pem cert)"
    and "cm_expires_at (ec_metadata cert) = clk 2 + ttl" and "ttl \<le> cc_max_ttl cfg"
    and "cm_serial_number (ec_metadata cert) = serial"
proof -
  have iss: "issue_for cfg store J X key serial clk fqdn (Some ttl) (\<lambda>ttl. foldl cr_with_san (for_server fqdn ttl) extra) st
      = (Inr cert, st')"
    using assms by (simp add: issue_server_certificate_def split: if_splits)
  then have gen: "generate_certificate cfg X key serial clk (foldl cr_with_san (for_server fqdn ttl) extra) = Inr cert"
    by (simp add: issue_for_def Let_def split: sum.splits)
  show "server_pair X key (fqdn # extra) (ec_certificate_pem cert) (ec_private_key_pem cert)"
    using generate_certificate_pair [OF gen] by (simp add: with_sans for_server_def)
  show "cm_expires_at (ec_metadata cert) = clk 2 + ttl" "ttl \<le> cc_max_ttl cfg" "cm_serial_number (ec_metadata cert) = serial"
    using issue_for_outcome(1-3) [OF iss] by (simp_all add: with_sans for_server_def)
qed

section \<open>The cached certificate\<close>

text \<open>What a manager with a configuration may hand out: a server pair for the wildcard names.\<close>

definition good_info :: "('k, 'c) rcgen \<Rightarrow> CertificateConfig \<Rightarrow> CertificateInfo \<Rightarrow> bool" where
  "good_info X config info \<longleftrightarrow>
     ci_subject_alt_names info = subject_alt_names config
     \<and> (\<exists>key. server_pair X key (subject_alt_names config) (ci_certificate info) (ci_private_key info))"

definition manager_ok :: "('k, 'c) rcgen \<Rightarrow> CertificateConfig \<Rightarrow> 's CertificateManager \<Rightarrow> bool" where
  "manager_ok X config m \<longleftrightarrow>
     mg_config m = config \<and> (case mg_cached m of Some info \<Rightarrow> good_info X config info | None \<Rightarrow> True)"

lemma issue_wildcard_ok:
  assumes "issue_wildcard store J X key serial clk m = (Inr info, m')"
  shows "good_info X (mg_config m) info" and "ci_expires_at info = clk 2 + wc_validity_duration (mg_config m)"
    and "\<exists>ca. m' = m\<lparr> mg_ca := ca \<rparr>"
proof -
  let ?s = "subject_alt_names (mg_config m)"
  obtain cert ca where c: "issue_server_certificate (mg_ca_config m) store J X key serial clk (hd ?s) (tl ?s)
      (Some (wc_validity_duration (mg_config m))) (mg_ca m) = (Inr cert, ca)"
    and info: "info = \<lparr> ci_subject_alt_names = ?s, ci_certificate = ec_certificate_pem cert, ci_private_key = ec_private_key_pem cert,
       ci_expires_at = cm_expires_at (ec_metadata cert), ci_serial_number = cm_serial_number (ec_metadata cert) \<rparr>"
    and m': "m' = m\<lparr> mg_ca := ca \<rparr>"
    using assms by (auto simp: issue_wildcard_def Let_def split: prod.splits sum.splits)
  have "hd ?s # tl ?s = ?s" by (simp add: subject_alt_names_def)
  with issue_server_certificate_ok(1,2) [OF c] show "good_info X (mg_config m) info"
    and "ci_expires_at info = clk 2 + wc_validity_duration (mg_config m)" "\<exists>ca. m' = m\<lparr> mg_ca := ca \<rparr>"
    using m' by (auto simp: info good_info_def)
qed

lemma issue_wildcard_frame: "issue_wildcard store J X key serial clk m = (r, m') \<Longrightarrow> \<exists>ca. m' = m\<lparr> mg_ca := ca \<rparr>"
  by (auto simp: issue_wildcard_def Let_def split: prod.splits sum.splits)

lemma manager_certificate_ok:
  assumes ok: "manager_ok X config m" and r: "manager_certificate store J X key serial clk m = (r, m')"
  shows "manager_ok X config m'"
    and "r = Inr info \<Longrightarrow> good_info X config info \<and> mg_cached m' = Some info
           \<and> (clk 0 + wc_renew_before config < ci_expires_at info \<or> ci_expires_at info = clk 3 + wc_validity_duration config)"
    and "\<And>c. mg_cached m = Some c \<Longrightarrow> clk 0 + wc_renew_before config < ci_expires_at c \<Longrightarrow> r = Inr c \<and> m' = m"
proof -
  note cfg = ok [unfolded manager_ok_def, THEN conjunct1]
  let ?kept = "\<exists>c. mg_cached m = Some c \<and> \<not> needs_renewal (clk 0) config c"
  obtain q m1 where iss: "issue_wildcard store J X key serial (\<lambda>i. clk (1 + i)) m = (q, m1)"
    by (cases "issue_wildcard store J X key serial (\<lambda>i. clk (1 + i)) m")
  obtain ca where m1: "m1 = m\<lparr> mg_ca := ca \<rparr>" using issue_wildcard_frame [OF iss] by blast
  have fresh: "good_info X config i \<and> ci_expires_at i = clk 3 + wc_validity_duration config" if "q = Inr i" for i
    using issue_wildcard_ok(1,2) [OF iss [unfolded that]] cfg by (simp add: eval_nat_numeral)
  have cases: "if ?kept then r = Inr (the (mg_cached m)) \<and> m' = m
      else case q of Inl e \<Rightarrow> r = Inl e \<and> m' = m1 | Inr i \<Rightarrow> r = Inr i \<and> m' = m1\<lparr> mg_cached := Some i \<rparr>"
    using r cfg by (auto simp: manager_certificate_def iss [simplified] Let_def split: option.splits sum.splits if_splits)
  show "manager_ok X config m'"
    using cases ok fresh by (cases q) (auto simp: manager_ok_def m1 split: if_splits option.splits)
  show "r = Inr info \<Longrightarrow> good_info X config info \<and> mg_cached m' = Some info
           \<and> (clk 0 + wc_renew_before config < ci_expires_at info \<or> ci_expires_at info = clk 3 + wc_validity_duration config)"
    using cases ok fresh by (cases q) (auto simp: manager_ok_def m1 needs_renewal_def split: if_splits option.splits)
  show "\<And>c. mg_cached m = Some c \<Longrightarrow> clk 0 + wc_renew_before config < ci_expires_at c \<Longrightarrow> r = Inr c \<and> m' = m"
    using r cfg by (auto simp: manager_certificate_def needs_renewal_def)
qed

lemma manager_run_ok:
  assumes "manager_ok X config m" and "manager_run store J X es m = (rs, m')" and "(clk, Inr info) \<in> set rs"
  shows "good_info X config info
    \<and> (clk 0 + wc_renew_before config < ci_expires_at info \<or> ci_expires_at info = clk 3 + wc_validity_duration config)"
  using assms
proof (induction es arbitrary: m rs m')
  case (Cons e es)
  show ?case
  proof (cases e)
    case (Ask key serial clk')
    obtain r m1 where r: "manager_certificate store J X key serial clk' m = (r, m1)"
      by (cases "manager_certificate store J X key serial clk' m")
    obtain rs1 m2 where rs: "manager_run store J X es m1 = (rs1, m2)" by (cases "manager_run store J X es m1")
    have "rs = (clk', r) # rs1" using Cons.prems(2) by (simp add: Ask r rs)
    then consider "clk = clk'" "r = Inr info" | "(clk, Inr info) \<in> set rs1" using Cons.prems(3) by auto
    then show ?thesis
      using manager_certificate_ok(2) [OF Cons.prems(1) r] Cons.IH [OF manager_certificate_ok(1) [OF Cons.prems(1) r] rs]
      by cases blast+
  next
    case (SharedUse ca)
    have "manager_ok X config (m\<lparr> mg_ca := ca \<rparr>)" using Cons.prems(1) by (simp add: manager_ok_def)
    from Cons.IH [OF this] Cons.prems(2,3) show ?thesis by (simp add: SharedUse)
  qed
qed simp

section \<open>Batches are sequential issuance\<close>

lemma issue_all_append:
  "issue_all cfg store J X gen (xs @ ys) ca =
     (case issue_all cfg store J X gen xs ca of (rs, ca1) \<Rightarrow>
        (case issue_all cfg store J X gen ys ca1 of (rs', ca2) \<Rightarrow> (rs @ rs', ca2)))"
  by (induction xs arbitrary: ca) (auto split: prod.splits)

lemma issue_all_length: "issue_all cfg store J X gen ops ca = (rs, ca') \<Longrightarrow> map fst rs = map po_sender ops"
  by (induction ops arbitrary: ca rs) (auto split: prod.splits)

text \<open>The operations that still wait for an answer, oldest first.\<close>

definition waiting :: "'f CertificateBatchProcessor \<Rightarrow> PendingOperation list" where
  "waiting p = concat (bp_channel p) @ bp_pending p"

lemma process_batch_waiting:
  assumes "bp_receiver_alive p"
  shows "waiting (snd (process_batch p)) = waiting p" and "bp_receiver_alive (snd (process_batch p))"
    and "bp_answers (snd (process_batch p)) = bp_answers p" and "bp_stats (snd (process_batch p)) = bp_stats p"
  using assms by (simp_all add: process_batch_def waiting_def Let_def)

definition counts_add :: "nat \<Rightarrow> 'f BatchStats \<Rightarrow> 'f BatchStats \<Rightarrow> bool" where
  "counts_add k s s' \<longleftrightarrow>
     bs_total_operations s' = bs_total_operations s + of_nat k
     \<and> bs_successful_operations s' + bs_failed_operations s' = bs_successful_operations s + bs_failed_operations s + of_nat k"

lemma successes_le: "successes rs \<le> length rs"
  by (simp add: successes_def)

lemma batch_stats_fields:
  "bs_total_operations (batch_stats fdiv elapsed n i j s) = bs_total_operations s + of_nat n"
  "bs_successful_operations (batch_stats fdiv elapsed n i j s) = bs_successful_operations s + of_nat i"
  "bs_failed_operations (batch_stats fdiv elapsed n i j s) = bs_failed_operations s + of_nat j"
  by (simp_all add: batch_stats_def Let_def)

lemma batch_stats_counts:
  assumes "length rs = k"
  shows "counts_add k s (batch_stats fdiv elapsed k (successes rs) (length rs - successes rs) s)"
proof -
  let ?i = "of_nat (successes rs) :: u64" and ?j = "of_nat (length rs - successes rs) :: u64"
  have sum: "?i + ?j = of_nat k" using successes_le [of rs] assms by (simp only: of_nat_add [symmetric] le_add_diff_inverse)
  have "(a + ?i) + (b + ?j) = a + b + of_nat k" for a b unfolding sum [symmetric] by (simp only: ac_simps)
  then show ?thesis unfolding counts_add_def batch_stats_fields by (intro conjI refl)
qed

lemma receive_batch_waiting:
  assumes "receive_batch cfg store J X gen fdiv elapsed p ca = (p', ca')"
  obtains k rs where "issue_all cfg store J X gen (take k (waiting p)) ca = (rs, ca')"
    and "k \<le> length (waiting p)" and "waiting p' = drop k (waiting p)" and "bp_answers p' = bp_answers p @ rs"
    and "counts_add k (bp_stats p) (bp_stats p')" and "bp_receiver_alive p' = bp_receiver_alive p"
proof (cases "bp_channel p")
  case Nil
  then have "p' = p" "ca' = ca" using assms by (simp_all add: receive_batch_def)
  then show thesis by (intro that [of 0 "[]"]) (simp_all add: counts_add_def)
next
  case (Cons batch rest)
  obtain rs ca1 where rs: "issue_all cfg store J X gen batch ca = (rs, ca1)" by (cases "issue_all cfg store J X gen batch ca")
  have len: "length rs = length batch" using issue_all_length [OF rs] by (metis length_map)
  have p': "ca' = ca1" "p' = p\<lparr> bp_channel := rest, bp_answers := bp_answers p @ rs,
      bp_stats := batch_stats fdiv elapsed (length batch) (successes rs) (length rs - successes rs) (bp_stats p) \<rparr>"
    using assms rs by (simp_all add: receive_batch_def Cons)
  have w: "waiting p = batch @ waiting p'" by (simp add: waiting_def p' Cons)
  show thesis
    by (rule that [of "length batch" rs, unfolded w])
      (simp_all add: rs p'(1), simp_all add: p'(2) batch_stats_counts [OF len])
qed

text \<open>
  The batch processor neither loses, reorders nor duplicates an operation while its background task runs:
  whatever the interleaving of batching and processing, the answers sent so far are those of issuing the
  requests one by one in the order of the queue, and the counters account for each of them.
\<close>

lemma batches_are_sequential:
  assumes "bp_receiver_alive p" and "batch_run cfg store J X gen fdiv es p ca = (p', ca')"
  shows "\<exists>k rs. issue_all cfg store J X gen (take k (waiting p)) ca = (rs, ca') \<and> k \<le> length (waiting p)
    \<and> waiting p' = drop k (waiting p) \<and> bp_answers p' = bp_answers p @ rs \<and> counts_add k (bp_stats p) (bp_stats p')"
  using assms
proof (induction es arbitrary: p ca)
  case Nil
  then show ?case by (intro exI [of _ 0] exI [of _ "[]"]) (simp add: counts_add_def)
next
  case (Cons e es)
  show ?case
  proof (cases e)
    case ProcessBatch
    show ?thesis
      using Cons.IH [of "snd (process_batch p)" ca] Cons.prems(2) process_batch_waiting [OF Cons.prems(1)] by (simp add: ProcessBatch)
  next
    case (ReceiveBatch elapsed)
    obtain p1 ca1 where r: "receive_batch cfg store J X gen fdiv elapsed p ca = (p1, ca1)"
      by (cases "receive_batch cfg store J X gen fdiv elapsed p ca")
    obtain i rs where one: "issue_all cfg store J X gen (take i (waiting p)) ca = (rs, ca1)" "i \<le> length (waiting p)"
      "waiting p1 = drop i (waiting p)" "bp_answers p1 = bp_answers p @ rs" "counts_add i (bp_stats p) (bp_stats p1)"
      "bp_receiver_alive p1 = bp_receiver_alive p"
      by (rule receive_batch_waiting [OF r])
    have "batch_run cfg store J X gen fdiv es p1 ca1 = (p', ca')" using Cons.prems(2) by (simp add: ReceiveBatch r)
    from Cons.IH [OF _ this] one(6) Cons.prems(1)
    obtain k rs' where rest: "issue_all cfg store J X gen (take k (waiting p1)) ca1 = (rs', ca')" "k \<le> length (waiting p1)"
      "waiting p' = drop k (waiting p1)" "bp_answers p' = bp_answers p1 @ rs'" "counts_add k (bp_stats p1) (bp_stats p')"
      by blast
    have "issue_all cfg store J X gen (take (i + k) (waiting p)) ca = (rs @ rs', ca')"
      using one(1) rest(1) by (simp add: take_add issue_all_append one(3))
    then show ?thesis
      using one rest by (intro exI [of _ "i + k"] exI [of _ "rs @ rs'"]) (simp add: counts_add_def add.assoc add.commute)
  qed
qed

section \<open>Properties\<close>

text \<open>
  C22: the router never presents a stale or mismatched wildcard certificate.  In every run of the manager,
  with other users of the same authority in between, a certificate it hands out covers exactly the wildcard
  name, the apex and, if configured, localhost; certificate and key were made from one key pair for server
  use; and more than the renewal margin is left of its lifetime.
\<close>

theorem wildcard_never_stale:
  assumes run: "manager_run store J X es (manager_with_ca config ca_config ca) = (rs, m')"
    and answer: "(clk, Inr info) \<in> set rs" and clock: "clk 0 \<le> clk 3"
    and margin: "wc_renew_before config < wc_validity_duration config"
  shows "clk 0 + wc_renew_before config < ci_expires_at info
    \<and> ci_subject_alt_names info = subject_alt_names config
    \<and> (\<exists>key. server_pair X key (subject_alt_names config) (ci_certificate info) (ci_private_key info))"
proof -
  have "manager_ok X config (manager_with_ca config ca_config ca)" by (simp add: manager_ok_def manager_with_ca_def)
  from manager_run_ok [OF this run answer] show ?thesis using clock margin by (auto simp: good_info_def)
qed

lemma demo_wildcard:
  "\<exists>info m. manager_certificate None (demo_cert_codec []) demo_rcgen (Inr ()) ''s1'' (\<lambda>_. 0)
     (manager_with_ca CertificateConfig_default (manager_ca_config CertificateConfig_default)
        (ca_new (manager_ca_config CertificateConfig_default) ())) = (Inr info, m)"
  by (simp add: manager_certificate_def manager_with_ca_def issue_wildcard_def subject_alt_names_def CertificateConfig_default_def
      manager_ca_config_def issue_server_certificate_def issue_for_def check_rate_limits_def is_rate_limited_def ca_new_def
      RateLimiter_new_def check_ttl_def CaConfig_default_def DEFAULT_CERT_TTL_def MAX_CERT_TTL_def chrono_seconds_def
      generate_certificate_def demo_rcgen_def calculate_fingerprint_def Let_def)

theorem wildcard_never_stale_witness:
  "\<exists>info m. manager_run None (demo_cert_codec []) demo_rcgen [Ask (Inr ()) ''s1'' (\<lambda>_. 0)]
     (manager_with_ca CertificateConfig_default (manager_ca_config CertificateConfig_default)
        (ca_new (manager_ca_config CertificateConfig_default) ())) = ([(\<lambda>_. 0, Inr info)], m)
     \<and> 600000000000 < ci_expires_at info
     \<and> ci_subject_alt_names info = [''*.fleetingdns.run'', ''fleetingdns.run'', ''localhost'']"
proof -
  let ?c = CertificateConfig_default
  obtain info m where r: "manager_run None (demo_cert_codec []) demo_rcgen [Ask (Inr ()) ''s1'' (\<lambda>_. 0)]
     (manager_with_ca ?c (manager_ca_config ?c) (ca_new (manager_ca_config ?c) ())) = ([(\<lambda>_. 0, Inr info)], m)"
    using demo_wildcard by auto
  have c: "wc_renew_before ?c = 600000000000" "wc_validity_duration ?c = 3600000000000"
    "subject_alt_names ?c = [''*.fleetingdns.run'', ''fleetingdns.run'', ''localhost'']"
    by (simp_all add: CertificateConfig_default_def chrono_seconds_def subject_alt_names_def)
  show ?thesis
    using wildcard_never_stale [OF r, where clk = "\<lambda>_. 0" and info = info] r by (simp add: c)
qed

end
