(* ===== verification/Shutdown_Flow.thy ===== *)
theory Shutdown_Flow
  imports Prelude
begin

text \<open>
  The shutdown coordinator of the daemons (\<open>crates/common/src/shutdown.rs\<close>) and the way the two
  binaries set it up (\<open>cmd/dnsd-bin\<close>, \<open>cmd/edgehub-bin\<close>).  The coordinator keeps a state, a counter of
  active connections and a broadcast channel; requests to stop come from a call, from a Unix signal or
  from the control socket; at the end the daemon waits, for a time that depends on the state, until the
  connections are gone.

  The channel of the runtime is the parameter \<open>send\<close>, the JSON text of commands and answers is the
  parameter \<open>control_codec\<close>; the outcomes of system calls, the environment variables and the lateness
  of the timers are arguments.  A task that waits for a Unix signal once is an entry of \<open>gs_armed\<close>.
\<close>

section \<open>Types\<close>

datatype AppError = Io string | SerdeJson string | Message string

datatype ShutdownSignal = Graceful | Immediate | Force

datatype ShutdownState = Running | Draining | Stopping | Stopped

datatype ControlCommand = Shutdown ShutdownSignal | Status | Ping | Reload

record ControlResponse =
  rp_status :: string
  rp_uptime :: duration
  rp_active_connections :: u64
  rp_shutdown_state :: ShutdownState
  rp_component :: string

record ShutdownConfig =
  sc_control_socket_path :: string
  sc_graceful_timeout :: duration
  sc_immediate_timeout :: duration
  sc_force_timeout :: duration
  sc_component_name :: string

datatype os_signal = SIGTERM | SIGINT | SIGUSR1 | SIGUSR2

record 'ch GracefulShutdown =
  gs_config :: ShutdownConfig
  gs_state :: ShutdownState
  gs_tx :: 'ch
  gs_connections :: u64
  gs_start_time :: instant
  gs_armed :: "os_signal list"
  gs_listening :: bool

record control_codec =
  de_command :: "string \<Rightarrow> string + ControlCommand"
  ser_response :: "ControlResponse \<Rightarrow> string + string"

type_synonym 'ch sender = "ShutdownSignal \<Rightarrow> 'ch \<Rightarrow> (string + nat) \<times> 'ch"

section \<open>Construction\<close>

text \<open>The default socket path on Linux, from the environment variables and the user.\<close>

definition get_default_socket_path :: "(string \<Rightarrow> string option) \<Rightarrow> bool \<Rightarrow> string \<Rightarrow> string" where
  "get_default_socket_path env is_root component =
     (case env ''FLEETINGDNS_CONTROL_SOCKET'' of
        Some path \<Rightarrow> path
      | None \<Rightarrow>
          if is_root then ''/run/fleetingdns/'' @ component @ ''.sock''
          else (case env ''XDG_RUNTIME_DIR'' of
              Some xdg_runtime \<Rightarrow> xdg_runtime @ ''/fleetingdns/'' @ component @ ''.sock''
            | None \<Rightarrow> (case env ''HOME'' of
                  Some home \<Rightarrow> home @ ''/.local/run/fleetingdns/'' @ component @ ''.sock''
                | None \<Rightarrow> ''/tmp/fleetingdns-'' @ component @ ''.sock'')))"

definition ShutdownConfig_default :: "(string \<Rightarrow> string option) \<Rightarrow> bool \<Rightarrow> ShutdownConfig" where
  "ShutdownConfig_default env is_root =
     \<lparr> sc_control_socket_path = get_default_socket_path env is_root ''unknown'',
       sc_graceful_timeout = from_secs 30, sc_immediate_timeout = from_secs 5, sc_force_timeout = from_secs 1,
       sc_component_name = ''unknown'' \<rparr>"

definition with_config :: "ShutdownConfig \<Rightarrow> 'ch \<Rightarrow> instant \<Rightarrow> 'ch GracefulShutdown" where
  "with_config config channel now =
     \<lparr> gs_config = config, gs_state = Running, gs_tx = channel, gs_connections = 0, gs_start_time = now,
       gs_armed = [], gs_listening = False \<rparr>"

definition GracefulShutdown_new ::
    "(string \<Rightarrow> string option) \<Rightarrow> bool \<Rightarrow> string \<Rightarrow> 'ch \<Rightarrow> instant \<Rightarrow> 'ch GracefulShutdown" where
  "GracefulShutdown_new env is_root component =
     with_config ((ShutdownConfig_default env is_root)
       \<lparr> sc_control_socket_path := get_default_socket_path env is_root component, sc_component_name := component \<rparr>)"

text \<open>The coordinator of a daemon, from its command line.\<close>

definition daemon_coordinator ::
    "(string \<Rightarrow> string option) \<Rightarrow> bool \<Rightarrow> string \<Rightarrow> string option \<Rightarrow> u64 \<Rightarrow> 'ch \<Rightarrow> instant \<Rightarrow> 'ch GracefulShutdown" where
  "daemon_coordinator env is_root component control_socket shutdown_timeout =
     (case control_socket of
        Some socket_path \<Rightarrow>
          with_config ((ShutdownConfig_default env is_root)
            \<lparr> sc_control_socket_path := socket_path, sc_component_name := component,
              sc_graceful_timeout := from_secs (unat shutdown_timeout) \<rparr>)
      | None \<Rightarrow> GracefulShutdown_new env is_root component)"

section \<open>Starting\<close>

primrec signal_of :: "os_signal \<Rightarrow> ShutdownSignal" where
  "signal_of SIGTERM = Graceful"
| "signal_of SIGINT = Graceful"
| "signal_of SIGUSR1 = Immediate"
| "signal_of SIGUSR2 = Force"

text \<open>One signal handler: the registration may fail, and then the later ones are not attempted.\<close>

definition arm :: "(os_signal \<Rightarrow> string + unit) \<Rightarrow> os_signal \<Rightarrow> ('ch GracefulShutdown, AppError, unit) act" where
  "arm registration k s =
     (case registration k of
        Inl e \<Rightarrow> (Inl (Io e), s)
      | Inr _ \<Rightarrow> (Inr (), s\<lparr> gs_armed := gs_armed s @ [k] \<rparr>))"

definition start_signal_handlers :: "(os_signal \<Rightarrow> string + unit) \<Rightarrow> ('ch GracefulShutdown, AppError, unit) act" where
  "start_signal_handlers registration =
     seq_act (arm registration SIGTERM)
    (seq_act (arm registration SIGINT)
    (seq_act (arm registration SIGUSR1) (arm registration SIGUSR2)))"

text \<open>
  The control socket: \<open>mkdir\<close> is the outcome of creating the parent directory (a success when there is
  none), \<open>bind\<close> the one of binding the path once an old socket file was removed.
\<close>

definition start_control_socket :: "string + unit \<Rightarrow> string + unit \<Rightarrow> ('ch GracefulShutdown, AppError, unit) act" where
  "start_control_socket mkdir bind s =
     (case mkdir of Inl e \<Rightarrow> (Inl (Io e), s)
      | Inr _ \<Rightarrow> (case bind of Inl e \<Rightarrow> (Inl (Io e), s) | Inr _ \<Rightarrow> (Inr (), s\<lparr> gs_listening := True \<rparr>)))"

definition start :: "(os_signal \<Rightarrow> string + unit) \<Rightarrow> string + unit \<Rightarrow> string + unit \<Rightarrow> ('ch GracefulShutdown, AppError, unit) act" where
  "start registration mkdir bind = seq_act (start_signal_handlers registration) (start_control_socket mkdir bind)"

section \<open>Requests\<close>

definition connection_started :: "'ch GracefulShutdown \<Rightarrow> 'ch GracefulShutdown" where
  "connection_started s = s\<lparr> gs_connections := gs_connections s + 1 \<rparr>"

definition connection_finished :: "'ch GracefulShutdown \<Rightarrow> 'ch GracefulShutdown" where
  "connection_finished s = s\<lparr> gs_connections := gs_connections s - 1 \<rparr>"

text \<open>A failure of the broadcast is logged and ignored by every sender.\<close>

definition broadcast :: "'ch sender \<Rightarrow> ShutdownSignal \<Rightarrow> 'ch GracefulShutdown \<Rightarrow> 'ch GracefulShutdown" where
  "broadcast send signal s = s\<lparr> gs_tx := snd (send signal (gs_tx s)) \<rparr>"

definition shutdown :: "'ch sender \<Rightarrow> ShutdownSignal \<Rightarrow> ('ch GracefulShutdown, AppError, unit) act" where
  "shutdown send signal s =
     (let s1 = s\<lparr> gs_state := (case signal of Force \<Rightarrow> Stopping | _ \<Rightarrow> Draining) \<rparr> in (Inr (), broadcast send signal s1))"

text \<open>Delivery of a Unix signal: the task that waits for it sends once and ends.\<close>

definition on_signal :: "'ch sender \<Rightarrow> os_signal \<Rightarrow> 'ch GracefulShutdown \<Rightarrow> 'ch GracefulShutdown" where
  "on_signal send k s =
     (if k \<in> set (gs_armed s) then (broadcast send (signal_of k) s)\<lparr> gs_armed := filter (\<lambda>k'. k' \<noteq> k) (gs_armed s) \<rparr>
      else s)"

primrec signal_debug :: "ShutdownSignal \<Rightarrow> string" where
  "signal_debug Graceful = ''Graceful''"
| "signal_debug Immediate = ''Immediate''"
| "signal_debug Force = ''Force''"

primrec status_text :: "ControlCommand \<Rightarrow> string" where
  "status_text (Shutdown signal) = ''Shutdown initiated with signal: '' @ signal_debug signal"
| "status_text Status = ''Service running''"
| "status_text Ping = ''Pong''"
| "status_text Reload = ''Reload not implemented yet''"

text \<open>
  One connection to the control socket: \<open>line\<close> is the outcome of reading a line, \<open>sent\<close> the outcome of
  writing the answer.  The second component is the line that was written.
\<close>

definition handle_control_connection ::
    "'ch sender \<Rightarrow> control_codec \<Rightarrow> instant \<Rightarrow> string + string \<Rightarrow> string + unit \<Rightarrow> 'ch GracefulShutdown
      \<Rightarrow> (AppError + unit) \<times> string option \<times> 'ch GracefulShutdown" where
  "handle_control_connection send J now line sent s =
     (case line of
        Inl e \<Rightarrow> (Inl (Io e), None, s)
      | Inr l \<Rightarrow>
          if l = [] then (Inr (), None, s)
          else (case de_command J (trim l) of
              Inl e \<Rightarrow> (Inl (Message (''Invalid command: '' @ e)), None, s)
            | Inr command \<Rightarrow>
                let s1 = (case command of Shutdown signal \<Rightarrow> broadcast send signal s | _ \<Rightarrow> s);
                    response = \<lparr> rp_status = status_text command, rp_uptime = nat (now - gs_start_time s),
                      rp_active_connections = gs_connections s, rp_shutdown_state = gs_state s,
                      rp_component = sc_component_name (gs_config s) \<rparr>
                in (case ser_response J response of
                      Inl e \<Rightarrow> (Inl (SerdeJson e), None, s1)
                    | Inr text \<Rightarrow>
                        (case sent of Inl e \<Rightarrow> (Inl (Io e), None, s1)
                         | Inr _ \<Rightarrow> (Inr (), Some (text @ [CHR 0x0A]), s1)))))"

section \<open>Waiting\<close>

definition poll_interval :: duration where
  "poll_interval = 100000000"

definition drain_timeout :: "'ch GracefulShutdown \<Rightarrow> duration" where
  "drain_timeout s =
     (case gs_state s of
        Draining \<Rightarrow> sc_graceful_timeout (gs_config s)
      | Stopping \<Rightarrow> sc_immediate_timeout (gs_config s)
      | _ \<Rightarrow> sc_force_timeout (gs_config s))"

text \<open>
  The loop under \<open>tokio::time::timeout\<close>, polled at \<open>now\<close>: the body looks at the counter when its sleep is
  over; then the deadline is looked at.  The next poll is when the sleep or the deadline is due, and the
  runtime is late by \<open>late k\<close>.  The result says whether the connections were gone, and when it ended.
\<close>

function drain :: "(instant \<Rightarrow> u64) \<Rightarrow> (nat \<Rightarrow> duration) \<Rightarrow> instant \<Rightarrow> nat \<Rightarrow> instant \<Rightarrow> bool \<times> instant" where
  "drain conns late deadline k now =
     (if conns now = 0 then (True, now)
      else if deadline \<le> now then (False, now)
      else let due = add_dur now poll_interval;
               wake = add_dur (min due deadline) (late k)
           in if wake < due then (False, wake) else drain conns late deadline (Suc k) wake)"
  by pat_completeness auto

termination drain
  by (relation "measure (\<lambda>(conns, late, deadline, k, now). nat (deadline - now))")
    (auto simp: Let_def add_dur_def poll_interval_def)

declare drain.simps [simp del]

text \<open>\<open>conns\<close> is the counter as the other tasks leave it while this one waits.\<close>

definition wait_for_shutdown ::
    "(instant \<Rightarrow> u64) \<Rightarrow> (nat \<Rightarrow> duration) \<Rightarrow> instant \<Rightarrow> 'ch GracefulShutdown
      \<Rightarrow> ((AppError + unit) \<times> 'ch GracefulShutdown) \<times> instant" where
  "wait_for_shutdown conns late now s =
     (case drain conns late (add_dur now (drain_timeout s)) 0 now of
        (_, t) \<Rightarrow> ((Inr (), s\<lparr> gs_state := Stopped, gs_connections := conns t \<rparr>), t))"

section \<open>Events\<close>

datatype shutdown_event =
    Call ShutdownSignal
  | Os os_signal
  | Control instant "string + string" "string + unit"
  | Opened
  | Closed

definition shutdown_step :: "'ch sender \<Rightarrow> control_codec \<Rightarrow> shutdown_event \<Rightarrow> 'ch GracefulShutdown \<Rightarrow> 'ch GracefulShutdown" where
  "shutdown_step send J e s =
     (case e of
        Call signal \<Rightarrow> snd (shutdown send signal s)
      | Os k \<Rightarrow> on_signal send k s
      | Control now line sent \<Rightarrow> snd (snd (handle_control_connection send J now line sent s))
      | Opened \<Rightarrow> connection_started s
      | Closed \<Rightarrow> connection_finished s)"

definition shutdown_run :: "'ch sender \<Rightarrow> control_codec \<Rightarrow> shutdown_event list \<Rightarrow> 'ch GracefulShutdown \<Rightarrow> 'ch GracefulShutdown" where
  "shutdown_run send J es s = fold (shutdown_step send J) es s"

text \<open>What the events ask for: a Unix signal counts the first time, a control line when it is a shutdown command.\<close>

definition asked :: "control_codec \<Rightarrow> os_signal list \<Rightarrow> shutdown_event \<Rightarrow> ShutdownSignal option" where
  "asked J armed e =
     (case e of
        Call signal \<Rightarrow> Some signal
      | Os k \<Rightarrow> (if k \<in> set armed then Some (signal_of k) else None)
      | Control now line sent \<Rightarrow>
          (case line of Inr l \<Rightarrow>
             (if l = [] then None else (case de_command J (trim l) of Inr (Shutdown signal) \<Rightarrow> Some signal | _ \<Rightarrow> None))
           | Inl _ \<Rightarrow> None)
      | _ \<Rightarrow> None)"

fun requests :: "control_codec \<Rightarrow> os_signal list \<Rightarrow> shutdown_event list \<Rightarrow> ShutdownSignal list" where
  "requests J armed [] = []"
| "requests J armed (e # es) =
     (case asked J armed e of None \<Rightarrow> [] | Some signal \<Rightarrow> [signal])
       @ requests J (case e of Os k \<Rightarrow> filter (\<lambda>k'. k' \<noteq> k) armed | _ \<Rightarrow> armed) es"

text \<open>The last direct call.\<close>

fun last_call :: "shutdown_event list \<Rightarrow> ShutdownSignal option" where
  "last_call [] = None"
| "last_call (e # es) =
     (case last_call es of Some signal \<Rightarrow> Some signal | None \<Rightarrow> (case e of Call signal \<Rightarrow> Some signal | _ \<Rightarrow> None))"

definition state_after :: "ShutdownState \<Rightarrow> ShutdownSignal option \<Rightarrow> ShutdownState" where
  "state_after st call = (case call of None \<Rightarrow> st | Some Force \<Rightarrow> Stopping | Some _ \<Rightarrow> Draining)"

section \<open>The loop ends\<close>

text \<open>The three ways one poll can go.\<close>

lemma drain_step:
  "drain conns late deadline k now =
     (let wake = add_dur (min (add_dur now poll_interval) deadline) (late k) in
      if conns now = 0 then (True, now) else if deadline \<le> now then (False, now)
      else if wake < add_dur now poll_interval then (False, wake)
      else drain conns late deadline (Suc k) wake)"
  by (subst drain.simps) (simp add: Let_def)

lemma drain_ends:
  "\<lbrakk>drain conns late deadline k now = (drained, t); \<forall>k. late k \<le> late_max\<rbrakk> \<Longrightarrow>
     now \<le> t \<and> t \<le> max now (deadline + int late_max) \<and> (if drained then conns t = 0 else deadline \<le> t)"
proof (induction conns late deadline k now rule: drain.induct)
  case (1 conns late deadline k now)
  let ?due = "add_dur now poll_interval"
  let ?wake = "add_dur (min ?due deadline) (late k)"
  have l: "int (late k) \<le> int late_max" using 1(3) by simp
  consider "conns now = 0 \<or> deadline \<le> now" | "conns now \<noteq> 0" "now < deadline" "?wake < ?due"
    | "conns now \<noteq> 0" "now < deadline" "?due \<le> ?wake" by linarith
  then show ?case
  proof cases
    case 1
    then show ?thesis using "1.prems"(1) by (auto simp: drain_step [of _ _ _ k now] Let_def split: if_splits)
  next
    case 2
    then have "drained = False" "t = ?wake" using "1.prems"(1) by (simp_all add: drain_step [of _ _ _ k now] Let_def)
    then show ?thesis using 2 l by (simp add: add_dur_def min_def split: if_splits)
  next
    case 3
    then have "drain conns late deadline (Suc k) ?wake = (drained, t)"
      using "1.prems"(1) by (simp add: drain_step [of _ _ _ k now] Let_def)
    moreover have "\<not> deadline \<le> now" "\<not> ?wake < ?due" using 3 by simp_all
    ultimately have "?wake \<le> t \<and> t \<le> max ?wake (deadline + int late_max) \<and> (if drained then conns t = 0 else deadline \<le> t)"
      using "1.IH" [OF 3(1) _ refl refl] "1.prems"(2) by blast
    moreover have "?wake \<le> deadline + int late_max" using l by (simp add: add_dur_def min_def)
    moreover have "now \<le> ?wake" using 3 by (simp add: add_dur_def)
    ultimately show ?thesis by (auto split: if_splits)
  qed
qed

lemma drain_quiet:
  "\<lbrakk>drain conns late deadline k now = (drained, t); \<forall>k. late k \<le> late_max; \<forall>u\<ge>quiet. conns u = 0\<rbrakk> \<Longrightarrow>
     t \<le> max now (quiet + int poll_interval + int late_max) \<and> (quiet + int poll_interval \<le> deadline \<longrightarrow> drained)"
proof (induction conns late deadline k now rule: drain.induct)
  case (1 conns late deadline k now)
  let ?due = "add_dur now poll_interval"
  let ?wake = "add_dur (min ?due deadline) (late k)"
  have l: "int (late k) \<le> int late_max" using "1.prems"(2) by simp
  have early: "now < quiet" if "conns now \<noteq> 0" using that "1.prems"(3) by (meson not_less)
  consider "conns now = 0" | "conns now \<noteq> 0" "deadline \<le> now" | "conns now \<noteq> 0" "now < deadline" "?wake < ?due"
    | "conns now \<noteq> 0" "now < deadline" "?due \<le> ?wake" by linarith
  then show ?case
  proof cases
    case 1
    then show ?thesis using "1.prems"(1) by (simp add: drain_step [of _ _ _ k now] Let_def)
  next
    case 2
    then show ?thesis using "1.prems"(1) early by (simp add: drain_step [of _ _ _ k now] Let_def)
  next
    case 3
    then have "t = ?wake" "deadline < ?due"
      using "1.prems"(1) by (simp_all add: drain_step [of _ _ _ k now] Let_def add_dur_def min_def split: if_splits)
    then show ?thesis using 3 early by (auto simp: add_dur_def)
  next
    case 4
    then have "drain conns late deadline (Suc k) ?wake = (drained, t)"
      using "1.prems"(1) by (simp add: drain_step [of _ _ _ k now] Let_def)
    moreover have "\<not> deadline \<le> now" "\<not> ?wake < ?due" using 4 by simp_all
    ultimately have "t \<le> max ?wake (quiet + int poll_interval + int late_max) \<and> (quiet + int poll_interval \<le> deadline \<longrightarrow> drained)"
      using "1.IH" [OF 4(1) _ refl refl] "1.prems"(2,3) by blast
    moreover have "?wake \<le> quiet + int poll_interval + int late_max"
      using l early [OF 4(1)] by (simp add: add_dur_def min_def)
    ultimately show ?thesis by auto
  qed
qed

section \<open>Requests reach the channel\<close>

lemma broadcast_fields [simp]:
  "gs_tx (broadcast send signal s) = snd (send signal (gs_tx s))" "gs_state (broadcast send signal s) = gs_state s"
  "gs_config (broadcast send signal s) = gs_config s" "gs_armed (broadcast send signal s) = gs_armed s"
  "gs_connections (broadcast send signal s) = gs_connections s"
  by (simp_all add: broadcast_def)

lemma control_state:
  "snd (snd (handle_control_connection send J now line sent s)) =
     (case asked J (gs_armed s) (Control now line sent) of None \<Rightarrow> s | Some signal \<Rightarrow> broadcast send signal s)"
  by (cases line)
    (auto simp: handle_control_connection_def asked_def Let_def split: sum.splits ControlCommand.splits)

lemma step_effect:
  "gs_tx (shutdown_step send J e s) =
     (case asked J (gs_armed s) e of None \<Rightarrow> gs_tx s | Some signal \<Rightarrow> snd (send signal (gs_tx s)))"
  "gs_state (shutdown_step send J e s) = state_after (gs_state s) (case e of Call signal \<Rightarrow> Some signal | _ \<Rightarrow> None)"
  "gs_armed (shutdown_step send J e s) = (case e of Os k \<Rightarrow> filter (\<lambda>k'. k' \<noteq> k) (gs_armed s) | _ \<Rightarrow> gs_armed s)"
  "gs_config (shutdown_step send J e s) = gs_config s"
proof -
  have f: "filter (\<lambda>k'. k' \<noteq> k) xs = xs" if "k \<notin> set xs" for k :: os_signal and xs
    using that by (auto simp: filter_id_conv)
  have "gs_tx (shutdown_step send J e s) =
     (case asked J (gs_armed s) e of None \<Rightarrow> gs_tx s | Some signal \<Rightarrow> snd (send signal (gs_tx s)))
    \<and> gs_state (shutdown_step send J e s) = state_after (gs_state s) (case e of Call signal \<Rightarrow> Some signal | _ \<Rightarrow> None)
    \<and> gs_armed (shutdown_step send J e s) = (case e of Os k \<Rightarrow> filter (\<lambda>k'. k' \<noteq> k) (gs_armed s) | _ \<Rightarrow> gs_armed s)
    \<and> gs_config (shutdown_step send J e s) = gs_config s"
  proof (cases e)
    case (Control now line sent)
    then show ?thesis
      by (cases "asked J (gs_armed s) (Control now line sent)") (simp_all add: shutdown_step_def control_state state_after_def)
  qed (simp_all add: shutdown_step_def shutdown_def on_signal_def connection_started_def connection_finished_def
      asked_def state_after_def Let_def f split: ShutdownSignal.split)
  then show "gs_tx (shutdown_step send J e s) =
     (case asked J (gs_armed s) e of None \<Rightarrow> gs_tx s | Some signal \<Rightarrow> snd (send signal (gs_tx s)))"
    "gs_state (shutdown_step send J e s) = state_after (gs_state s) (case e of Call signal \<Rightarrow> Some signal | _ \<Rightarrow> None)"
    "gs_armed (shutdown_step send J e s) = (case e of Os k \<Rightarrow> filter (\<lambda>k'. k' \<noteq> k) (gs_armed s) | _ \<Rightarrow> gs_armed s)"
    "gs_config (shutdown_step send J e s) = gs_config s"
    by blast+
qed

lemma run_effect:
  "gs_tx (shutdown_run send J es s) = fold (\<lambda>signal ch. snd (send signal ch)) (requests J (gs_armed s) es) (gs_tx s)"
  "gs_state (shutdown_run send J es s) = state_after (gs_state s) (last_call es)"
  "gs_config (shutdown_run send J es s) = gs_config s"
proof -
  have after: "state_after (state_after st a) b = state_after st (case b of None \<Rightarrow> a | Some x \<Rightarrow> b)" for st a b
    by (simp add: state_after_def split: option.split ShutdownSignal.split)
  show "gs_tx (shutdown_run send J es s) = fold (\<lambda>signal ch. snd (send signal ch)) (requests J (gs_armed s) es) (gs_tx s)"
    unfolding shutdown_run_def by (induction es arbitrary: s) (simp_all add: step_effect split: option.split)
  show "gs_state (shutdown_run send J es s) = state_after (gs_state s) (last_call es)"
    unfolding shutdown_run_def
  proof (induction es arbitrary: s)
    case (Cons e es)
    then show ?case by (cases "last_call es") (simp_all add: step_effect after)
  qed (simp add: state_after_def)
  show "gs_config (shutdown_run send J es s) = gs_config s"
    unfolding shutdown_run_def by (induction es arbitrary: s) (simp_all add: step_effect)
qed

lemma start_ok:
  assumes "start registration mkdir bind s = (Inr (), s')"
  shows "s' = s\<lparr> gs_armed := gs_armed s @ [SIGTERM, SIGINT, SIGUSR1, SIGUSR2], gs_listening := True \<rparr>"
  using assms
  by (auto simp: start_def start_signal_handlers_def start_control_socket_def arm_def act_ok split: sum.splits)

lemma daemon_fields:
  "gs_state (daemon_coordinator env is_root component sock timeout ch now) = Running"
  "gs_tx (daemon_coordinator env is_root component sock timeout ch now) = ch"
  "gs_armed (daemon_coordinator env is_root component sock timeout ch now) = []"
  "sc_graceful_timeout (gs_config (daemon_coordinator env is_root component sock timeout ch now)) =
     (if sock = None then from_secs 30 else from_secs (unat timeout))"
  "sc_immediate_timeout (gs_config (daemon_coordinator env is_root component sock timeout ch now)) = from_secs 5"
  "sc_force_timeout (gs_config (daemon_coordinator env is_root component sock timeout ch now)) = from_secs 1"
  by (cases sock; simp add: daemon_coordinator_def GracefulShutdown_new_def with_config_def ShutdownConfig_default_def)+


definition demo_send :: "ShutdownSignal list sender" where
  "demo_send signal ch = (Inr 1, ch @ [signal])"

definition demo_control :: control_codec where
  "demo_control = \<lparr> de_command = (\<lambda>t. if t = ''force'' then Inr (Shutdown Force) else Inl ''unknown''),
     ser_response = (\<lambda>r. Inr (rp_status r)) \<rparr>"


text \<open>
  C26: waiting for the connections always ends, with the state stopped: it ends within the timeout of the
  state plus the lateness of the timers; it ends before the timeout only with no connection left; and when
  the last connection is gone for good, it ends within one poll interval.
\<close>

theorem wait_for_shutdown_ends:
  assumes late: "\<forall>k. late k \<le> late_max"
  shows "case wait_for_shutdown conns late now s of ((r, s'), t) \<Rightarrow>
      r = Inr () \<and> gs_state s' = Stopped \<and> gs_connections s' = conns t
      \<and> now \<le> t \<and> t \<le> now + int (drain_timeout s) + int late_max
      \<and> (t < now + int (drain_timeout s) \<longrightarrow> conns t = 0)
      \<and> (\<forall>quiet\<ge>now. (\<forall>u\<ge>quiet. conns u = 0) \<longrightarrow> t \<le> quiet + int poll_interval + int late_max)"
proof -
  obtain drained t where d: "drain conns late (add_dur now (drain_timeout s)) 0 now = (drained, t)"
    by (cases "drain conns late (add_dur now (drain_timeout s)) 0 now")
  have e: "now \<le> t \<and> t \<le> max now (now + int (drain_timeout s) + int late_max)
      \<and> (if drained then conns t = 0 else now + int (drain_timeout s) \<le> t)"
    using drain_ends [OF d late] unfolding add_dur_def by simp
  moreover have "t \<le> quiet + int poll_interval + int late_max" if "now \<le> quiet" "\<forall>u\<ge>quiet. conns u = 0" for quiet
    using drain_quiet [OF d late that(2)] that(1) by auto
  ultimately show ?thesis by (auto simp: wait_for_shutdown_def d split: if_splits)
qed

definition demo_draining :: "ShutdownSignal list GracefulShutdown" where
  "demo_draining = (with_config (ShutdownConfig_default (\<lambda>_. None) True) [] 0)\<lparr> gs_state := Draining \<rparr>"

definition demo_conns :: "instant \<Rightarrow> u64" where
  "demo_conns t = (if t < 250000000 then 2 else 0)"

theorem wait_for_shutdown_ends_witness:
  "case wait_for_shutdown demo_conns (\<lambda>_. 0) 0 demo_draining of ((r, s'), t) \<Rightarrow> gs_state s' = Stopped \<and> t \<le> 350000000"
proof -
  obtain r s' t where w: "wait_for_shutdown demo_conns (\<lambda>_. 0) 0 demo_draining = ((r, s'), t)" by (metis surj_pair)
  have q: "\<forall>u\<ge>250000000. demo_conns u = 0" by (simp add: demo_conns_def)
  have "gs_state s' = Stopped \<and> (\<forall>quiet\<ge>0. (\<forall>u\<ge>quiet. demo_conns u = 0) \<longrightarrow> t \<le> quiet + int poll_interval)"
    using wait_for_shutdown_ends [of "\<lambda>_. 0" 0 demo_conns 0 demo_draining] unfolding w by simp
  then have "gs_state s' = Stopped" "t \<le> 250000000 + int poll_interval" using q by simp_all
  then show ?thesis unfolding w by (simp add: poll_interval_def)
qed

end
