(* ===== verification/Rate_Limits.thy ===== *)
theory Rate_Limits
  imports Auth_Tokens Ip_Text Window_Counter
begin

text \<open>
  Rate limiting of the API (\<open>crates/backendapi/src/rate_limiting.rs\<close>): user tiers with a limiter per
  token for API calls, tunnel creation and DNS operations, a fixed-window limit per client address with a
  block, and the middleware that puts them before every handler.

  The keyed limiter of the \<open>governor\<close> crate and the floating point arithmetic are parameters
  (\<open>governor\<close>, \<open>f64_ops\<close>).  A panic of the source (\<open>unwrap\<close> of an absent tier or of a zero quota) is the
  value \<open>None\<close>.
\<close>

section \<open>Parameters\<close>

record 'f f64_ops =
  f_lit :: "string \<Rightarrow> 'f"
  f_of_u32 :: "u32 \<Rightarrow> 'f"
  f_as_u32 :: "'f \<Rightarrow> u32"
  f_mul :: "'f \<Rightarrow> 'f \<Rightarrow> 'f"
  f_sub :: "'f \<Rightarrow> 'f \<Rightarrow> 'f"
  f_gt :: "'f \<Rightarrow> 'f \<Rightarrow> bool"
  f_to_string :: "'f \<Rightarrow> string"

text \<open>A limiter with a quota per minute and an optional burst, and the check of a key.\<close>

record 'g governor =
  gv_keyed :: "u32 \<Rightarrow> u32 option \<Rightarrow> 'g"
  gv_check :: "instant \<Rightarrow> string \<Rightarrow> 'g \<Rightarrow> bool \<times> 'g"

section \<open>Configuration\<close>

record 'f RateLimitPolicy =
  rp_requests_per_minute :: u32
  rp_burst :: "u32 option"
  rp_window_seconds :: "u32 option"
  rp_max_request_size :: "u64 option"
  rp_max_connections_per_ip :: "u32 option"
  rp_premium_multiplier :: "'f option"

record 'f UserTier =
  ut_name :: string
  ut_api_requests_per_minute :: u32
  ut_tunnel_requests_per_minute :: u32
  ut_dns_requests_per_minute :: u32
  ut_burst_multiplier :: 'f
  ut_max_concurrent_tunnels :: u32
  ut_bypass_rate_limits :: bool

record ApiDdosProtection =
  dp_max_requests_per_ip_per_minute :: u32
  dp_max_connections_per_ip :: u32
  dp_ip_block_duration_seconds :: u64
  dp_auto_block_abuse_patterns :: bool

record 'f RateLimitConfig =
  rc_default :: "'f RateLimitPolicy"
  rc_per_endpoint :: "(string, 'f RateLimitPolicy) hmap option"
  rc_user_tiers :: "(string, 'f UserTier) hmap"
  rc_ddos_protection :: ApiDdosProtection
  rc_dynamic_adjustment :: bool
  rc_load_threshold :: 'f

definition default_policy :: "'f f64_ops \<Rightarrow> string \<Rightarrow> 'f RateLimitPolicy" where
  "default_policy F multiplier =
     \<lparr> rp_requests_per_minute = 60, rp_burst = Some 10, rp_window_seconds = Some 60,
       rp_max_request_size = Some (1024 * 1024), rp_max_connections_per_ip = Some 10,
       rp_premium_multiplier = Some (f_lit F multiplier) \<rparr>"

definition default_tiers :: "'f f64_ops \<Rightarrow> (string, 'f UserTier) hmap" where
  "default_tiers F =
     [(''Free'', \<lparr> ut_name = ''Free'', ut_api_requests_per_minute = 60, ut_tunnel_requests_per_minute = 10,
         ut_dns_requests_per_minute = 100, ut_burst_multiplier = f_lit F ''1.0'', ut_max_concurrent_tunnels = 1,
         ut_bypass_rate_limits = False \<rparr>),
      (''Pro'', \<lparr> ut_name = ''Pro'', ut_api_requests_per_minute = 300, ut_tunnel_requests_per_minute = 50,
         ut_dns_requests_per_minute = 500, ut_burst_multiplier = f_lit F ''2.0'', ut_max_concurrent_tunnels = 5,
         ut_bypass_rate_limits = False \<rparr>),
      (''Enterprise'', \<lparr> ut_name = ''Enterprise'', ut_api_requests_per_minute = 1000, ut_tunnel_requests_per_minute = 200,
         ut_dns_requests_per_minute = 2000, ut_burst_multiplier = f_lit F ''3.0'', ut_max_concurrent_tunnels = 20,
         ut_bypass_rate_limits = True \<rparr>)]"

definition RateLimitConfig_default :: "'f f64_ops \<Rightarrow> 'f RateLimitConfig" where
  "RateLimitConfig_default F =
     \<lparr> rc_default = default_policy F ''1.5'',
       rc_per_endpoint = Some [(''/api/v1/tunnel'', default_policy F ''2.0'')],
       rc_user_tiers = default_tiers F,
       rc_ddos_protection = \<lparr> dp_max_requests_per_ip_per_minute = 1000, dp_max_connections_per_ip = 50,
         dp_ip_block_duration_seconds = 3600, dp_auto_block_abuse_patterns = True \<rparr>,
       rc_dynamic_adjustment = True, rc_load_threshold = f_lit F ''0.8'' \<rparr>"

section \<open>State\<close>

record IpRateLimit =
  ip_requests :: u32
  ip_last_reset :: instant
  ip_blocked_until :: "instant option"

record ('g, 'f) RateLimitState =
  rs_config :: "'f RateLimitConfig"
  rs_api_limiters :: "(string, 'g) hmap"
  rs_tunnel_limiters :: "(string, 'g) hmap"
  rs_dns_limiters :: "(string, 'g) hmap"
  rs_user_tiers :: "(string, string) hmap"
  rs_bypass_tokens :: "(string, bool) hmap"
  rs_ip_limiters :: "(ipaddr, IpRateLimit) hmap"
  rs_system_load :: "(string, 'f) hmap"
  rs_abuse_patterns :: "(string, u32) hmap"

definition RateLimitState_new :: "'f RateLimitConfig \<Rightarrow> ('g, 'f) RateLimitState" where
  "RateLimitState_new config =
     \<lparr> rs_config = config, rs_api_limiters = [], rs_tunnel_limiters = [], rs_dns_limiters = [], rs_user_tiers = [],
       rs_bypass_tokens = [], rs_ip_limiters = [], rs_system_load = [], rs_abuse_patterns = [] \<rparr>"

definition set_user_tier :: "string \<Rightarrow> string \<Rightarrow> ('g, 'f) RateLimitState \<Rightarrow> ('g, 'f) RateLimitState" where
  "set_user_tier token tier s = s\<lparr> rs_user_tiers := hput token tier (rs_user_tiers s) \<rparr>"

definition add_bypass_token :: "string \<Rightarrow> ('g, 'f) RateLimitState \<Rightarrow> ('g, 'f) RateLimitState" where
  "add_bypass_token token s = s\<lparr> rs_bypass_tokens := hput token True (rs_bypass_tokens s) \<rparr>"

definition remove_bypass_token :: "string \<Rightarrow> ('g, 'f) RateLimitState \<Rightarrow> ('g, 'f) RateLimitState" where
  "remove_bypass_token token s = s\<lparr> rs_bypass_tokens := hdel token (rs_bypass_tokens s) \<rparr>"

definition is_bypass_token :: "string \<Rightarrow> ('g, 'f) RateLimitState \<Rightarrow> bool" where
  "is_bypass_token token s = (hget (rs_bypass_tokens s) token \<noteq> None)"

definition get_user_tier :: "string \<Rightarrow> ('g, 'f) RateLimitState \<Rightarrow> string" where
  "get_user_tier token s = hget_or ''Free'' (rs_user_tiers s) token"

definition update_system_load :: "'f \<Rightarrow> ('g, 'f) RateLimitState \<Rightarrow> ('g, 'f) RateLimitState" where
  "update_system_load load s = s\<lparr> rs_system_load := hput ''current'' load (rs_system_load s) \<rparr>"

definition get_system_load :: "'f f64_ops \<Rightarrow> ('g, 'f) RateLimitState \<Rightarrow> 'f" where
  "get_system_load F s = hget_or (f_lit F ''0.0'') (rs_system_load s) ''current''"

section \<open>The limit per address\<close>

definition one_minute :: duration where
  "one_minute = from_secs 60"

definition check_ip_rate_limit :: "instant \<Rightarrow> ipaddr \<Rightarrow> ('g, 'f) RateLimitState \<Rightarrow> (string + unit) \<times> ('g, 'f) RateLimitState" where
  "check_ip_rate_limit now ip s =
     (let e = hget_or \<lparr> ip_requests = 0, ip_last_reset = now, ip_blocked_until = None \<rparr> (rs_ip_limiters s) ip;
          put = (\<lambda>e'. s\<lparr> rs_ip_limiters := hput ip e' (rs_ip_limiters s) \<rparr>) in
      if (case ip_blocked_until e of Some blocked_until \<Rightarrow> now < blocked_until | None \<Rightarrow> False)
      then (Inl ''IP is temporarily blocked due to abuse'', put e)
      else
        let e1 = e\<lparr> ip_blocked_until := None \<rparr>;
            e2 = (if duration_since now (ip_last_reset e1) > one_minute
                  then e1\<lparr> ip_requests := 0, ip_last_reset := now \<rparr> else e1);
            limits = rc_ddos_protection (rs_config s) in
        if ip_requests e2 \<ge> dp_max_requests_per_ip_per_minute limits
        then (Inl ''IP rate limit exceeded'',
              put (e2\<lparr> ip_blocked_until := Some (add_dur now (from_secs (unat (dp_ip_block_duration_seconds limits)))) \<rparr>))
        else (Inr (), put (e2\<lparr> ip_requests := ip_requests e2 + 1 \<rparr>)))"

section \<open>The limits per token\<close>

text \<open>The configuration of a tier, of the free tier for an unknown one; \<open>None\<close> is the panic when there is no free tier.\<close>

definition tier_config :: "string \<Rightarrow> ('g, 'f) RateLimitState \<Rightarrow> 'f UserTier option" where
  "tier_config tier s =
     (case hget (rc_user_tiers (rs_config s)) tier of
        Some t \<Rightarrow> Some t
      | None \<Rightarrow> hget (rc_user_tiers (rs_config s)) ''Free'')"

text \<open>\<open>NonZeroU32::new(n).unwrap()\<close>.\<close>

definition non_zero :: "u32 \<Rightarrow> u32 option" where
  "non_zero n = (if n = 0 then None else Some n)"

definition adjusted_rate :: "'f f64_ops \<Rightarrow> ('g, 'f) RateLimitState \<Rightarrow> u32 \<Rightarrow> u32" where
  "adjusted_rate F s requests_per_minute =
     (let load = get_system_load F s; threshold = rc_load_threshold (rs_config s) in
      if rc_dynamic_adjustment (rs_config s) \<and> f_gt F load threshold
      then f_as_u32 F (f_mul F (f_of_u32 F requests_per_minute)
             (f_sub F (f_lit F ''1.0'') (f_mul F (f_sub F load threshold) (f_lit F ''0.5''))))
      else requests_per_minute)"

definition create_api_limiter :: "'f f64_ops \<Rightarrow> 'g governor \<Rightarrow> string \<Rightarrow> ('g, 'f) RateLimitState \<Rightarrow> 'g option" where
  "create_api_limiter F G tier s =
     (case tier_config tier s of
        None \<Rightarrow> None
      | Some t \<Rightarrow> map_option (\<lambda>n. gv_keyed G n None) (non_zero (adjusted_rate F s (ut_api_requests_per_minute t))))"

definition create_tunnel_limiter :: "'f f64_ops \<Rightarrow> 'g governor \<Rightarrow> string \<Rightarrow> ('g, 'f) RateLimitState \<Rightarrow> 'g option" where
  "create_tunnel_limiter F G tier s =
     (case tier_config tier s of
        None \<Rightarrow> None
      | Some t \<Rightarrow>
          let requests_per_minute = ut_tunnel_requests_per_minute t;
              burst_quota = f_as_u32 F (f_mul F (f_of_u32 F requests_per_minute) (ut_burst_multiplier t)) in
          (case (non_zero requests_per_minute, non_zero burst_quota) of
             (Some n, Some b) \<Rightarrow> Some (gv_keyed G n (Some b))
           | _ \<Rightarrow> None))"

definition create_dns_limiter :: "'f f64_ops \<Rightarrow> 'g governor \<Rightarrow> string \<Rightarrow> ('g, 'f) RateLimitState \<Rightarrow> 'g option" where
  "create_dns_limiter F G tier s =
     (case tier_config tier s of
        None \<Rightarrow> None
      | Some t \<Rightarrow> map_option (\<lambda>n. gv_keyed G n None) (non_zero (ut_dns_requests_per_minute t)))"

text \<open>
  The body the three token checks share: bypass, tier, the limiter of the token (created at its first
  use) and the check of the key.  \<open>limiters\<close> and \<open>put\<close> select the map of the check.
\<close>

definition check_limiter ::
    "'g governor \<Rightarrow> (string \<Rightarrow> ('g, 'f) RateLimitState \<Rightarrow> 'g option) \<Rightarrow> (('g, 'f) RateLimitState \<Rightarrow> (string, 'g) hmap)
      \<Rightarrow> ((string, 'g) hmap \<Rightarrow> ('g, 'f) RateLimitState \<Rightarrow> ('g, 'f) RateLimitState) \<Rightarrow> string \<Rightarrow> instant \<Rightarrow> string
      \<Rightarrow> ('g, 'f) RateLimitState \<Rightarrow> (string + unit) option \<times> ('g, 'f) RateLimitState" where
  "check_limiter G create limiters put what now token s =
     (if is_bypass_token token s then (Some (Inr ()), s)
      else let tier = get_user_tier token s in
        (case tier_config tier s of
           None \<Rightarrow> (None, s)
         | Some t \<Rightarrow>
             if ut_bypass_rate_limits t then (Some (Inr ()), s)
             else (case (case hget (limiters s) token of Some g \<Rightarrow> Some g | None \<Rightarrow> create tier s) of
                 None \<Rightarrow> (None, s)
               | Some g \<Rightarrow>
                   (case gv_check G now token g of (ok, g') \<Rightarrow>
                     (Some (if ok then Inr () else Inl (what @ '' rate limit exceeded for tier: '' @ tier)),
                      put (hput token g' (limiters s)) s)))))"

definition check_api_rate_limit ::
    "'f f64_ops \<Rightarrow> 'g governor \<Rightarrow> instant \<Rightarrow> string \<Rightarrow> ('g, 'f) RateLimitState \<Rightarrow> (string + unit) option \<times> ('g, 'f) RateLimitState" where
  "check_api_rate_limit F G =
     check_limiter G (create_api_limiter F G) rs_api_limiters (\<lambda>m s. s\<lparr> rs_api_limiters := m \<rparr>) ''API''"

definition check_tunnel_rate_limit ::
    "'f f64_ops \<Rightarrow> 'g governor \<Rightarrow> instant \<Rightarrow> string \<Rightarrow> ('g, 'f) RateLimitState \<Rightarrow> (string + unit) option \<times> ('g, 'f) RateLimitState" where
  "check_tunnel_rate_limit F G =
     check_limiter G (create_tunnel_limiter F G) rs_tunnel_limiters (\<lambda>m s. s\<lparr> rs_tunnel_limiters := m \<rparr>) ''Tunnel creation''"

definition check_dns_rate_limit ::
    "'f f64_ops \<Rightarrow> 'g governor \<Rightarrow> instant \<Rightarrow> string \<Rightarrow> ('g, 'f) RateLimitState \<Rightarrow> (string + unit) option \<times> ('g, 'f) RateLimitState" where
  "check_dns_rate_limit F G =
     check_limiter G (create_dns_limiter F G) rs_dns_limiters (\<lambda>m s. s\<lparr> rs_dns_limiters := m \<rparr>) ''DNS operation''"

section \<open>Clean-up and information\<close>

definition cleanup_old_entries :: "instant \<Rightarrow> ('g, 'f) RateLimitState \<Rightarrow> ('g, 'f) RateLimitState" where
  "cleanup_old_entries now s =
     s\<lparr> rs_api_limiters := (if length (rs_api_limiters s) > 10000 then [] else rs_api_limiters s),
        rs_tunnel_limiters := (if length (rs_tunnel_limiters s) > 10000 then [] else rs_tunnel_limiters s),
        rs_dns_limiters := (if length (rs_dns_limiters s) > 10000 then [] else rs_dns_limiters s),
        rs_ip_limiters := hretain (\<lambda>_ e. duration_since now (ip_last_reset e) < from_secs 3600) (rs_ip_limiters s),
        rs_abuse_patterns := hretain (\<lambda>_ count. count > 0) (rs_abuse_patterns s) \<rparr>"

definition bool_to_string :: "bool \<Rightarrow> string" where
  "bool_to_string b = (if b then ''true'' else ''false'')"

definition get_rate_limit_info :: "'f f64_ops \<Rightarrow> string \<Rightarrow> ('g, 'f) RateLimitState \<Rightarrow> (string, string) hmap option" where
  "get_rate_limit_info F token s =
     (let tier = get_user_tier token s in
      map_option (\<lambda>t.
        [(''tier'', tier),
         (''api_requests_per_minute'', dec (unat (ut_api_requests_per_minute t))),
         (''tunnel_requests_per_minute'', dec (unat (ut_tunnel_requests_per_minute t))),
         (''dns_requests_per_minute'', dec (unat (ut_dns_requests_per_minute t))),
         (''max_concurrent_tunnels'', dec (unat (ut_max_concurrent_tunnels t))),
         (''burst_multiplier'', f_to_string F (ut_burst_multiplier t)),
         (''bypass_rate_limits'', bool_to_string (ut_bypass_rate_limits t)),
         (''system_load'', f_to_string F (get_system_load F s))]) (tier_config tier s))"

section \<open>The middleware\<close>

definition header_text :: "headers \<Rightarrow> string \<Rightarrow> string option" where
  "header_text hs name = (case hs name of Some (Inr v) \<Rightarrow> Some v | _ \<Rightarrow> None)"

definition request_token :: "headers \<Rightarrow> string" where
  "request_token hs =
     (case header_text hs ''authorization'' of
        Some h \<Rightarrow> (case strip_prefix_str h ''Bearer '' of Some token \<Rightarrow> token | None \<Rightarrow> ''anonymous'')
      | None \<Rightarrow> ''anonymous'')"

text \<open>\<open>str::parse::<IpAddr>\<close>: a dotted quad or an IPv6 text.\<close>

definition parse_ip :: "string \<Rightarrow> ipaddr option" where
  "parse_ip t = (case parse_ipv4 t of Some a \<Rightarrow> Some (V4 a) | None \<Rightarrow> map_option V6 (parse_ipv6 t))"

definition loopback :: ipaddr where
  "loopback = V4 0x7F000001"

definition client_ip :: "headers \<Rightarrow> ipaddr" where
  "client_ip hs =
     (let h = (case hs ''x-forwarded-for'' of Some v \<Rightarrow> Some v | None \<Rightarrow> hs ''x-real-ip'') in
      case h of
        Some (Inr v) \<Rightarrow> (case parse_ip (trim (hd (split_on (CHR '','') v))) of Some ip \<Rightarrow> ip | None \<Rightarrow> loopback)
      | _ \<Rightarrow> loopback)"

text \<open>
  The outcome: a refusal with its headers, or what the rest of the stack answers with the headers added
  to it; \<open>header_ok\<close> says which texts are header values.
\<close>

definition limited :: "string \<Rightarrow> ApiError \<times> (string \<times> string) list" where
  "limited seconds =
     (RateLimitExceeded, [(''X-RateLimit-Remaining'', ''0''), (''Retry-After'', seconds), (''X-RateLimit-Reset'', seconds)])"

definition header_or :: "(string \<Rightarrow> bool) \<Rightarrow> string \<Rightarrow> string \<Rightarrow> string" where
  "header_or header_ok v d = (if header_ok v then v else d)"

definition check_request ::
    "'f f64_ops \<Rightarrow> 'g governor \<Rightarrow> instant \<Rightarrow> string \<Rightarrow> string \<Rightarrow> string
      \<Rightarrow> ('g, 'f) RateLimitState \<Rightarrow> (string + unit) option \<times> ('g, 'f) RateLimitState" where
  "check_request F G now path meth token =
     (if contains_seq ''/tunnels'' path \<and> meth = ''POST'' then check_tunnel_rate_limit F G now token
      else if contains_seq ''/dns'' path \<or> contains_seq ''/domains'' path then check_dns_rate_limit F G now token
      else check_api_rate_limit F G now token)"

definition rate_limit_middleware ::
    "'f f64_ops \<Rightarrow> 'g governor \<Rightarrow> (string \<Rightarrow> bool) \<Rightarrow> instant \<Rightarrow> instant \<Rightarrow> headers \<Rightarrow> string \<Rightarrow> string \<Rightarrow> 'r
      \<Rightarrow> ('g, 'f) RateLimitState
      \<Rightarrow> ((ApiError \<times> (string \<times> string) list) + 'r \<times> (string \<times> string) list) option \<times> ('g, 'f) RateLimitState" where
  "rate_limit_middleware F G header_ok now now' hs path meth next_run s =
     (let token = request_token hs in
      case check_ip_rate_limit now (client_ip hs) s of
        (Inl _, s1) \<Rightarrow> (Some (Inl (limited ''3600'')), s1)
      | (Inr _, s1) \<Rightarrow>
          (case check_request F G now' path meth token s1 of
             (None, s2) \<Rightarrow> (None, s2)
           | (Some (Inl _), s2) \<Rightarrow> (Some (Inl (limited ''60'')), s2)
           | (Some (Inr _), s2) \<Rightarrow>
               (case get_rate_limit_info F token s2 of
                  None \<Rightarrow> (None, s2)
                | Some info \<Rightarrow>
                    (Some (Inr (next_run,
                       [(''X-RateLimit-Tier'', header_or header_ok (hget_or ''Free'' info ''tier'') ''Free''),
                        (''X-RateLimit-Limit'', header_or header_ok (hget_or ''60'' info ''api_requests_per_minute'') ''60''),
                        (''X-RateLimit-Remaining'', ''99''), (''X-RateLimit-Reset'', ''60'')])), s2))))"

section \<open>Requests, settings and sweeps in sequence\<close>

datatype 'f rl_event =
    Request instant instant headers string string
  | Sweep instant
  | SetTier string string
  | Load 'f
  | AddBypass string
  | RemoveBypass string

text \<open>A request is recorded with its address, its time and whether it was let past the limit of the address.\<close>

definition rl_step ::
    "'f f64_ops \<Rightarrow> 'g governor \<Rightarrow> 'f rl_event \<Rightarrow> ('g, 'f) RateLimitState
      \<Rightarrow> (ipaddr \<times> instant \<times> bool) list \<times> ('g, 'f) RateLimitState" where
  "rl_step F G e s =
     (case e of
        Request now now' hs path meth \<Rightarrow>
          (case rate_limit_middleware F G (\<lambda>_. True) now now' hs path meth () s of (r, s') \<Rightarrow>
             ([(client_ip hs, now, r \<noteq> Some (Inl (limited ''3600'')))], s'))
      | Sweep now \<Rightarrow> ([], cleanup_old_entries now s)
      | SetTier token tier \<Rightarrow> ([], set_user_tier token tier s)
      | Load load \<Rightarrow> ([], update_system_load load s)
      | AddBypass token \<Rightarrow> ([], add_bypass_token token s)
      | RemoveBypass token \<Rightarrow> ([], remove_bypass_token token s))"

fun rl_run ::
    "'f f64_ops \<Rightarrow> 'g governor \<Rightarrow> 'f rl_event list \<Rightarrow> ('g, 'f) RateLimitState
      \<Rightarrow> (ipaddr \<times> instant \<times> bool) list \<times> ('g, 'f) RateLimitState" where
  "rl_run F G [] s = ([], s)"
| "rl_run F G (e # es) s =
     (case rl_step F G e s of (log, s1) \<Rightarrow> case rl_run F G es s1 of (log', s2) \<Rightarrow> (log @ log', s2))"

primrec event_time :: "instant \<Rightarrow> 'f rl_event \<Rightarrow> instant" where
  "event_time t (Request now now' hs path meth) = now"
| "event_time t (Sweep now) = now"
| "event_time t (SetTier token tier) = t"
| "event_time t (Load load) = t"
| "event_time t (AddBypass token) = t"
| "event_time t (RemoveBypass token) = t"

fun in_order :: "instant \<Rightarrow> 'f rl_event list \<Rightarrow> bool" where
  "in_order t [] = True"
| "in_order t (e # es) = (t \<le> event_time t e \<and> in_order (event_time t e) es)"

section \<open>The address entry as a window counter\<close>

definition minute_window :: int where
  "minute_window = int one_minute + 1"

definition window_of_ip :: "IpRateLimit \<Rightarrow> nat \<times> instant" where
  "window_of_ip e = (unat (ip_requests e), ip_last_reset e)"

abbreviation ip_limit :: "('g, 'f) RateLimitState \<Rightarrow> u32" where
  "ip_limit s \<equiv> dp_max_requests_per_ip_per_minute (rc_ddos_protection (rs_config s))"

abbreviation ip_entry :: "('g, 'f) RateLimitState \<Rightarrow> ipaddr \<Rightarrow> IpRateLimit option" where
  "ip_entry s \<equiv> hget (rs_ip_limiters s)"

lemma minute_passed: "duration_since now w > one_minute \<longleftrightarrow> minute_window \<le> now - w"
  by (auto simp: duration_since_def minute_window_def zless_nat_eq_int_zless)

lemma check_ip_other:
  "ip' \<noteq> ip \<Longrightarrow> ip_entry (snd (check_ip_rate_limit now ip s)) ip' = ip_entry s ip'"
  by (simp add: check_ip_rate_limit_def Let_def)

lemma check_ip_config [simp]: "rs_config (snd (check_ip_rate_limit now ip s)) = rs_config s"
  by (simp add: check_ip_rate_limit_def Let_def)

lemma check_ip_distinct:
  "distinct (hkeys (rs_ip_limiters (snd (check_ip_rate_limit now ip s)))) = distinct (hkeys (rs_ip_limiters s))"
  by (simp add: check_ip_rate_limit_def Let_def)

interpretation ipl: keyed_state "\<lambda>ip now s. snd (check_ip_rate_limit now ip s)" ip_entry
  by unfold_locales (rule check_ip_other)

text \<open>The entry in which the request is counted: the old one, or an empty window.\<close>

definition current_entry :: "instant \<Rightarrow> IpRateLimit option \<Rightarrow> IpRateLimit" where
  "current_entry now e =
     (case e of
        None \<Rightarrow> \<lparr> ip_requests = 0, ip_last_reset = now, ip_blocked_until = None \<rparr>
      | Some e \<Rightarrow> (if minute_window \<le> now - ip_last_reset e
                   then \<lparr> ip_requests = 0, ip_last_reset = now, ip_blocked_until = None \<rparr>
                   else e\<lparr> ip_blocked_until := None \<rparr>))"

lemma check_ip_cases:
  assumes "check_ip_rate_limit now ip s = (r, s')"
  obtains (blocked) e b m where "ip_entry s ip = Some e" "ip_blocked_until e = Some b" "now < b" "r = Inl m"
      "ip_entry s' ip = Some e"
  | (exceeded) "ip_limit s \<le> ip_requests (current_entry now (ip_entry s ip))" "r = Inl ''IP rate limit exceeded''"
      "ip_entry s' ip = Some ((current_entry now (ip_entry s ip))\<lparr> ip_blocked_until :=
         Some (add_dur now (from_secs (unat (dp_ip_block_duration_seconds (rc_ddos_protection (rs_config s)))))) \<rparr>)"
  | (admitted) "ip_requests (current_entry now (ip_entry s ip)) < ip_limit s" "r = Inr ()"
      "ip_entry s' ip = Some ((current_entry now (ip_entry s ip))
         \<lparr> ip_requests := ip_requests (current_entry now (ip_entry s ip)) + 1 \<rparr>)"
proof (cases "ip_entry s ip")
  case None
  then show ?thesis
    using assms exceeded admitted
    by (auto simp: check_ip_rate_limit_def Let_def hget_or_def current_entry_def duration_since_def one_minute_def
        not_le from_secs_def word_gt_0 split: if_splits)
next
  case (Some e)
  show ?thesis
  proof (cases "\<exists>b. ip_blocked_until e = Some b \<and> now < b")
    case True
    then show ?thesis
      using assms Some blocked by (auto simp: check_ip_rate_limit_def Let_def hget_or_def)
  next
    case False
    then have nb: "\<not> (case ip_blocked_until e of Some b \<Rightarrow> now < b | None \<Rightarrow> False)" by (auto split: option.splits)
    have cur: "(if duration_since now (ip_last_reset (e\<lparr> ip_blocked_until := None \<rparr>)) > one_minute
         then e\<lparr> ip_blocked_until := None, ip_requests := 0, ip_last_reset := now \<rparr>
         else e\<lparr> ip_blocked_until := None \<rparr>) = current_entry now (Some e)"
      by (simp add: current_entry_def minute_passed)
    have "check_ip_rate_limit now ip s =
        (if ip_limit s \<le> ip_requests (current_entry now (Some e))
         then (Inl ''IP rate limit exceeded'', s\<lparr> rs_ip_limiters := hput ip ((current_entry now (Some e))\<lparr> ip_blocked_until :=
           Some (add_dur now (from_secs (unat (dp_ip_block_duration_seconds (rc_ddos_protection (rs_config s)))))) \<rparr>)
             (rs_ip_limiters s) \<rparr>)
         else (Inr (), s\<lparr> rs_ip_limiters := hput ip ((current_entry now (Some e))
           \<lparr> ip_requests := ip_requests (current_entry now (Some e)) + 1 \<rparr>) (rs_ip_limiters s) \<rparr>))"
      unfolding check_ip_rate_limit_def Let_def hget_or_def Some option.case cur using nb by simp
    then show ?thesis using assms exceeded admitted Some by (auto simp: not_le split: if_splits)
  qed
qed

lemma minute_window_pos: "0 < minute_window"
  by (simp add: minute_window_def)

lemma current_window:
  assumes ok: "window_ok minute_window L ts (map_option window_of_ip e) now0" and now: "now0 \<le> now"
  shows "window_ok minute_window L ts (Some (window_of_ip (current_entry now e))) now"
    and "now < ip_last_reset (current_entry now e) + minute_window"
proof -
  have fresh: "window_ok minute_window L ts (Some (0, now)) now"
    if "\<And>e'. e = Some e' \<Longrightarrow> minute_window \<le> now - ip_last_reset e'"
    by (rule window_ok_empty [OF ok now minute_window_pos]) (use that in \<open>auto simp: window_of_ip_def\<close>)
  show "window_ok minute_window L ts (Some (window_of_ip (current_entry now e))) now"
    using fresh window_ok_later [OF ok now]
    by (cases e) (auto simp: current_entry_def window_of_ip_def)
  show "now < ip_last_reset (current_entry now e) + minute_window"
    using minute_window_pos by (cases e) (auto simp: current_entry_def)
qed

lemma check_ip_window:
  assumes ok: "window_ok minute_window (unat (ip_limit s)) ts (map_option window_of_ip (ip_entry s ip)) now0"
    and now: "now0 \<le> now" and check: "check_ip_rate_limit now ip s = (r, s')"
  shows "window_ok minute_window (unat (ip_limit s)) (ts @ (if r = Inr () then [now] else []))
    (map_option window_of_ip (ip_entry s' ip)) now"
proof -
  note cur = current_window [OF ok now]
  from check show ?thesis
  proof (cases rule: check_ip_cases)
    case (blocked e b m)
    then show ?thesis using window_ok_later [OF ok now] by simp
  next
    case exceeded
    then show ?thesis using cur(1) by (simp add: window_of_ip_def)
  next
    case admitted
    let ?c = "current_entry now (ip_entry s ip)"
    have "unat (ip_requests ?c) + 1 \<le> unat (ip_limit s)" using admitted(1) by (simp add: word_less_nat_alt)
    from window_ok_count [OF cur(1) [unfolded window_of_ip_def] order.refl cur(2) this]
    show ?thesis using admitted unat_word_inc [OF admitted(1)] by (simp add: window_of_ip_def)
  qed
qed

lemma check_request_frame:
  assumes "check_request F G now path meth token s = (r, s')"
  shows "rs_ip_limiters s' = rs_ip_limiters s" "rs_config s' = rs_config s"
  using assms
  by (auto simp: check_request_def check_tunnel_rate_limit_def check_dns_rate_limit_def check_api_rate_limit_def
      check_limiter_def Let_def split: if_splits option.splits prod.splits)

lemma middleware_ip:
  assumes check: "check_ip_rate_limit now (client_ip hs) s = (r, s1)"
    and mw: "rate_limit_middleware F G hok now now' hs path meth next_run s = (a, s')"
  shows "rs_ip_limiters s' = rs_ip_limiters s1" "rs_config s' = rs_config s"
    "a \<noteq> Some (Inl (limited ''3600'')) \<longleftrightarrow> r = Inr ()"
proof -
  obtain q s2 where q: "check_request F G now' path meth (request_token hs) s1 = (q, s2)"
    by (cases "check_request F G now' path meth (request_token hs) s1")
  have c: "rs_config s1 = rs_config s" using check check_ip_config [of now "client_ip hs" s] by simp
  show "rs_ip_limiters s' = rs_ip_limiters s1" "rs_config s' = rs_config s"
    "a \<noteq> Some (Inl (limited ''3600'')) \<longleftrightarrow> r = Inr ()"
    using mw check_request_frame [OF q] c
    by (auto simp: rate_limit_middleware_def Let_def check q limited_def split: sum.splits option.splits)
qed

section \<open>Over a run\<close>

definition times_of_ip :: "ipaddr \<Rightarrow> (ipaddr \<times> instant \<times> bool) list \<Rightarrow> instant list" where
  "times_of_ip ip log = map (\<lambda>(i, t, ok). t) (filter (\<lambda>(i, t, ok). i = ip \<and> ok) log)"

lemma times_of_ip_simps [simp]:
  "times_of_ip ip [] = []" "times_of_ip ip (log @ log') = times_of_ip ip log @ times_of_ip ip log'"
  "times_of_ip ip [(i, t, ok)] = (if i = ip \<and> ok then [t] else [])"
  by (simp_all add: times_of_ip_def)

definition ips_ok :: "u32 \<Rightarrow> (ipaddr \<times> instant \<times> bool) list \<Rightarrow> ('g, 'f) RateLimitState \<Rightarrow> instant \<Rightarrow> bool" where
  "ips_ok n log s now \<longleftrightarrow>
     ip_limit s = n \<and> distinct (hkeys (rs_ip_limiters s))
     \<and> (\<forall>ip. window_ok minute_window (unat n) (times_of_ip ip log) (map_option window_of_ip (ip_entry s ip)) now)"

lemma ips_ok_cong:
  "\<lbrakk>rs_ip_limiters s' = rs_ip_limiters s; rs_config s' = rs_config s; ips_ok n log s now\<rbrakk> \<Longrightarrow> ips_ok n log s' now"
  by (simp add: ips_ok_def)

lemma ips_ok_later: "ips_ok n log s now \<Longrightarrow> now \<le> t \<Longrightarrow> ips_ok n log s t"
  unfolding ips_ok_def by (blast intro: window_ok_later)

lemma ips_ok_request:
  assumes ok: "ips_ok n log s now0" and now: "now0 \<le> now" and check: "check_ip_rate_limit now ip s = (r, s1)"
  shows "ips_ok n (log @ [(ip, now, r = Inr ())]) s1 now"
proof -
  have s1: "s1 = snd (check_ip_rate_limit now ip s)" using check by simp
  have n: "ip_limit s = n" using ok by (simp add: ips_ok_def)
  have w: "window_ok minute_window (unat n) (times_of_ip i log) (map_option window_of_ip (ip_entry s i)) now0" for i
    using ok by (simp add: ips_ok_def)
  have "window_ok minute_window (unat n) (times_of_ip i (log @ [(ip, now, r = Inr ())])) (map_option window_of_ip (ip_entry s1 i)) now" for i
  proof (cases "i = ip")
    case True
    then show ?thesis using check_ip_window [OF w [of ip, folded n] now check] n by auto
  next
    case False
    then show ?thesis using window_ok_later [OF w [of i] now] ipl.step_other [OF False, of now s] by (auto simp: s1)
  qed
  then show ?thesis using ok by (simp add: ips_ok_def s1 check_ip_distinct)
qed

lemma ips_ok_sweep:
  assumes ok: "ips_ok n log s now0" and now: "now0 \<le> now"
  shows "ips_ok n log (cleanup_old_entries now s) now"
proof -
  have d: "distinct (hkeys (rs_ip_limiters s))" using ok by (simp add: ips_ok_def)
  have "window_ok minute_window (unat n) (times_of_ip ip log)
      (map_option window_of_ip (ip_entry (cleanup_old_entries now s) ip)) now" for ip
  proof -
    have w: "window_ok minute_window (unat n) (times_of_ip ip log) (map_option window_of_ip (ip_entry s ip)) now"
      using ips_ok_later [OF ok now] by (simp add: ips_ok_def)
    show ?thesis
    proof (cases "ip_entry s ip")
      case None
      then show ?thesis using w by (simp add: cleanup_old_entries_def hget_hretain [OF d])
    next
      case (Some e)
      have "window_ok minute_window (unat n) (times_of_ip ip log) None now"
        if "\<not> duration_since now (ip_last_reset e) < from_secs 3600"
      proof (rule window_ok_drop)
        show "window_ok minute_window (unat n) (times_of_ip ip log) (Some (unat (ip_requests e), ip_last_reset e)) now"
          using w Some by (simp add: window_of_ip_def)
        show "ip_last_reset e + 2 * minute_window \<le> now"
          using that by (simp add: duration_since_def from_secs_def nanos_per_sec_def minute_window_def one_minute_def)
      qed
      then show ?thesis using w Some by (simp add: cleanup_old_entries_def hget_hretain [OF d])
    qed
  qed
  then show ?thesis using ok by (simp add: ips_ok_def cleanup_old_entries_def distinct_hretain)
qed

lemma ips_ok_step:
  assumes ok: "ips_ok n log s now" and time: "now \<le> event_time now e" and step: "rl_step F G e s = (log1, s1)"
  shows "ips_ok n (log @ log1) s1 (event_time now e)"
proof (cases e)
  case (Request t t' hs path meth)
  obtain r s' where c: "check_ip_rate_limit t (client_ip hs) s = (r, s')" by (cases "check_ip_rate_limit t (client_ip hs) s")
  obtain a s2 where m: "rate_limit_middleware F G (\<lambda>_. True) t t' hs path meth () s = (a, s2)"
    by (cases "rate_limit_middleware F G (\<lambda>_. True) t t' hs path meth () s")
  have s1: "s1 = s2" "log1 = [(client_ip hs, t, r = Inr ())]"
    using step middleware_ip(3) [OF c m] by (auto simp: rl_step_def Request m)
  have "rs_config s' = rs_config s" using c check_ip_config [of t "client_ip hs" s] by simp
  with ips_ok_cong [of s2 s'] middleware_ip(1,2) [OF c m] ips_ok_request [OF ok _ c]
  show ?thesis using time s1 Request by simp
next
  case (Sweep t)
  then show ?thesis using ips_ok_sweep [OF ok] time step by (auto simp: rl_step_def)
qed (use ok step in \<open>auto simp: rl_step_def set_user_tier_def update_system_load_def add_bypass_token_def
      remove_bypass_token_def intro: ips_ok_cong [rotated 2]\<close>)

lemma ips_ok_run:
  "\<lbrakk>in_order now es; ips_ok n log s now\<rbrakk> \<Longrightarrow> \<exists>t. ips_ok n (log @ fst (rl_run F G es s)) (snd (rl_run F G es s)) t"
proof (induction es arbitrary: now log s)
  case (Cons e es)
  obtain log1 s1 where st: "rl_step F G e s = (log1, s1)" by (cases "rl_step F G e s")
  have "ips_ok n (log @ log1) s1 (event_time now e)" using ips_ok_step [OF Cons.prems(2) _ st] Cons.prems(1) by simp
  from Cons.IH [OF _ this] show ?case using Cons.prems(1) by (simp add: st case_prod_beta)
qed auto

text \<open>A blocked entry stays as it is until the block is over, unless a sweep comes an hour after its window began.\<close>

primrec leaves_block :: "instant \<Rightarrow> instant \<Rightarrow> 'f rl_event \<Rightarrow> bool" where
  "leaves_block b w (Request now now' hs path meth) = (now < b)"
| "leaves_block b w (Sweep now) = (now < w + int (from_secs 3600))"
| "leaves_block b w (SetTier token tier) = True"
| "leaves_block b w (Load load) = True"
| "leaves_block b w (AddBypass token) = True"
| "leaves_block b w (RemoveBypass token) = True"

lemma leaves_block_mono: "leaves_block b w x \<Longrightarrow> w \<le> w' \<Longrightarrow> leaves_block b w' x"
  by (cases x) auto

lemma address_block_step:
  assumes d: "distinct (hkeys (rs_ip_limiters s))" and e: "ip_entry s ip = Some e" "ip_blocked_until e = Some b"
    and ev: "leaves_block b (ip_last_reset e) x" and step: "rl_step F G x s = (log, s')"
  shows "distinct (hkeys (rs_ip_limiters s'))" "ip_entry s' ip = Some e" "\<forall>(i, t, ok) \<in> set log. i = ip \<longrightarrow> \<not> ok"
proof -
  have "distinct (hkeys (rs_ip_limiters s')) \<and> ip_entry s' ip = Some e \<and> (\<forall>(i, t, ok) \<in> set log. i = ip \<longrightarrow> \<not> ok)"
  proof (cases x)
    case (Request t t' hs path meth)
    obtain r s1 where c: "check_ip_rate_limit t (client_ip hs) s = (r, s1)" by (cases "check_ip_rate_limit t (client_ip hs) s")
    obtain a s2 where m: "rate_limit_middleware F G (\<lambda>_. True) t t' hs path meth () s = (a, s2)"
      by (cases "rate_limit_middleware F G (\<lambda>_. True) t t' hs path meth () s")
    have s': "s' = s2" "log = [(client_ip hs, t, r = Inr ())]"
      using step middleware_ip(3) [OF c m] by (auto simp: rl_step_def Request m)
    have d': "distinct (hkeys (rs_ip_limiters s'))"
      using d check_ip_distinct [of t "client_ip hs" s] middleware_ip(1) [OF c m] by (simp add: s' c)
    show ?thesis
    proof (cases "client_ip hs = ip")
      case True
      have "r = Inl ''IP is temporarily blocked due to abuse''" "ip_entry s1 ip = Some e"
        using c e ev by (auto simp: check_ip_rate_limit_def Let_def hget_or_def True Request)
      then show ?thesis using d' middleware_ip(1) [OF c m] by (simp add: s')
    next
      case False
      then have "ip_entry s1 ip = Some e" using ipl.step_other [of ip "client_ip hs" t s] e c by simp
      then show ?thesis using d' middleware_ip(1) [OF c m] False by (simp add: s')
    qed
  next
    case (Sweep t)
    then have "duration_since t (ip_last_reset e) < from_secs 3600" using ev by (simp add: duration_since_def from_secs_def nanos_per_sec_def)
    then show ?thesis
      using step d e by (auto simp: rl_step_def Sweep cleanup_old_entries_def hget_hretain distinct_hretain)
  qed (use d e step in \<open>auto simp: rl_step_def set_user_tier_def update_system_load_def add_bypass_token_def remove_bypass_token_def\<close>)
  then show "distinct (hkeys (rs_ip_limiters s'))" "ip_entry s' ip = Some e" "\<forall>(i, t, ok) \<in> set log. i = ip \<longrightarrow> \<not> ok"
    by blast+
qed

lemma address_block_run:
  "\<lbrakk>distinct (hkeys (rs_ip_limiters s)); ip_entry s ip = Some e; ip_blocked_until e = Some b;
    \<forall>x \<in> set es. leaves_block b (ip_last_reset e) x\<rbrakk> \<Longrightarrow>
   \<forall>(i, t, ok) \<in> set (fst (rl_run F G es s)). i = ip \<longrightarrow> \<not> ok"
proof (induction es arbitrary: s)
  case (Cons x es)
  obtain log s1 where st: "rl_step F G x s = (log, s1)" by (cases "rl_step F G x s")
  have lb: "leaves_block b (ip_last_reset e) x" using Cons.prems(4) by simp
  note one = address_block_step [OF Cons.prems(1-3) lb st]
  show ?case using Cons.IH [OF one(1,2) Cons.prems(3)] Cons.prems(4) one(3) by (auto simp: st case_prod_beta)
qed simp

section \<open>Properties\<close>

text \<open>
  C30: at most twice the configured number of requests of one address get past the limit of the address in
  any minute, over any sequence of requests, settings and sweeps of the API; only those can reach a handler.
\<close>

theorem address_limit_holds:
  assumes "in_order t0 es"
  shows "length (filter (\<lambda>(i, t, ok). i = ip \<and> ok \<and> x \<le> t \<and> t \<le> x + int one_minute)
     (fst (rl_run F G es (RateLimitState_new config))))
    \<le> 2 * unat (dp_max_requests_per_ip_per_minute (rc_ddos_protection config))"
proof -
  let ?n = "dp_max_requests_per_ip_per_minute (rc_ddos_protection config)"
  let ?log = "fst (rl_run F G es (RateLimitState_new config))"
  have "ips_ok ?n [] (RateLimitState_new config) t0" by (simp add: ips_ok_def RateLimitState_new_def window_ok_start)
  from ips_ok_run [OF assms this] obtain e t where "window_ok minute_window (unat ?n) (times_of_ip ip ?log) e t"
    unfolding ips_ok_def by fastforce
  then have "hits (\<lambda>t. x \<le> t \<and> t < x + minute_window) (times_of_ip ip ?log) \<le> 2 * unat ?n" by (rule window_ok_bound)
  moreover have "hits (\<lambda>t. x \<le> t \<and> t < x + minute_window) (times_of_ip ip log) =
      length (filter (\<lambda>(i, t, ok). i = ip \<and> ok \<and> x \<le> t \<and> t \<le> x + int one_minute) log)" for log
    by (induction log) (auto simp: times_of_ip_def hits_def minute_window_def)
  ultimately show ?thesis by simp
qed

definition demo_f64 :: "unit f64_ops" where
  "demo_f64 = \<lparr> f_lit = (\<lambda>_. ()), f_of_u32 = (\<lambda>_. ()), f_as_u32 = (\<lambda>_. 1), f_mul = (\<lambda>_ _. ()), f_sub = (\<lambda>_ _. ()),
     f_gt = (\<lambda>_ _. False), f_to_string = (\<lambda>_. ''0'') \<rparr>"

definition demo_governor :: "unit governor" where
  "demo_governor = \<lparr> gv_keyed = (\<lambda>_ _. ()), gv_check = (\<lambda>_ _ g. (True, g)) \<rparr>"

definition demo_limits :: "unit RateLimitConfig" where
  "demo_limits = (RateLimitConfig_default demo_f64)\<lparr> rc_ddos_protection := \<lparr> dp_max_requests_per_ip_per_minute = 1,
     dp_max_connections_per_ip = 50, dp_ip_block_duration_seconds = 3600, dp_auto_block_abuse_patterns = True \<rparr> \<rparr>"

definition demo_requests :: "unit rl_event list" where
  "demo_requests = [Request 0 0 (\<lambda>_. None) ''/v1'' ''GET'', Request 5 5 (\<lambda>_. None) ''/v1'' ''GET'']"

lemma demo_request_parts:
  "request_token (\<lambda>_. None) = ''anonymous''" "client_ip (\<lambda>_. None) = loopback"
  "contains_seq ''/tunnels'' ''/v1'' = False" "contains_seq ''/dns'' ''/v1'' = False" "contains_seq ''/domains'' ''/v1'' = False"
  by (simp_all add: request_token_def header_text_def client_ip_def contains_seq_def)

lemmas demo_eval =
  rl_step_def rate_limit_middleware_def demo_request_parts check_ip_rate_limit_def check_request_def check_api_rate_limit_def
  check_limiter_def is_bypass_token_def get_user_tier_def tier_config_def create_api_limiter_def adjusted_rate_def non_zero_def
  get_rate_limit_info_def RateLimitState_new_def demo_limits_def RateLimitConfig_default_def default_tiers_def demo_f64_def
  demo_governor_def hget_or_def duration_since_def one_minute_def from_secs_def nanos_per_sec_def limited_def Let_def

lemma demo_log:
  "fst (rl_run demo_f64 demo_governor demo_requests (RateLimitState_new demo_limits)) = [(loopback, 0, True), (loopback, 5, False)]"
  by (simp add: demo_requests_def demo_eval)

lemma demo_refused:
  "fst (check_ip_rate_limit 5 loopback (snd (rl_run demo_f64 demo_governor [hd demo_requests] (RateLimitState_new demo_limits))))
     = Inl ''IP rate limit exceeded''"
  "dp_ip_block_duration_seconds (rc_ddos_protection (rs_config
     (snd (rl_run demo_f64 demo_governor [hd demo_requests] (RateLimitState_new demo_limits))))) = 3600"
  by (simp_all add: demo_requests_def demo_eval)

theorem address_limit_holds_witness:
  "length (filter (\<lambda>(i, t, ok). i = loopback \<and> ok \<and> 0 \<le> t \<and> t \<le> 0 + int one_minute)
     (fst (rl_run demo_f64 demo_governor demo_requests (RateLimitState_new demo_limits)))) \<in> {1..2}"
  using address_limit_holds [of 0 demo_requests loopback 0 demo_f64 demo_governor demo_limits]
  unfolding demo_log by (simp add: demo_limits_def demo_requests_def)

text \<open>
  An address that is refused for exceeding its limit stays refused, whatever it sends and whatever
  the settings are changed to, for the configured block duration, except that a sweep later than 59
  minutes after the refusal may forget the block.
\<close>

lemma address_block_lasts:
  assumes reached: "in_order t0 es0" "s = snd (rl_run F G es0 (RateLimitState_new config))"
    and refused: "check_ip_rate_limit t ip s = (Inl ''IP rate limit exceeded'', s1)"
    and later: "\<forall>x \<in> set es. leaves_block
       (t + int (from_secs (unat (dp_ip_block_duration_seconds (rc_ddos_protection (rs_config s)))))) (t - int one_minute) x"
  shows "\<forall>(i, u, ok) \<in> set (fst (rl_run F G es s1)). i = ip \<longrightarrow> \<not> ok"
proof -
  let ?b = "t + int (from_secs (unat (dp_ip_block_duration_seconds (rc_ddos_protection (rs_config s)))))"
  have "ips_ok (dp_max_requests_per_ip_per_minute (rc_ddos_protection config)) [] (RateLimitState_new config) t0"
    by (simp add: ips_ok_def RateLimitState_new_def window_ok_start)
  from ips_ok_run [OF reached(1) this, of F G] have "distinct (hkeys (rs_ip_limiters s))"
    unfolding reached(2) ips_ok_def by blast
  then have d: "distinct (hkeys (rs_ip_limiters s1))" using check_ip_distinct [of t ip s] refused by simp
  from refused obtain e where e: "ip_entry s1 ip = Some e" "ip_blocked_until e = Some ?b" "t - int one_minute \<le> ip_last_reset e"
  proof (cases rule: check_ip_cases)
    case (blocked e b m)
    then show ?thesis using refused by (auto simp: check_ip_rate_limit_def Let_def hget_or_def)
  next
    case exceeded
    then show ?thesis
      by (intro that) (auto simp: add_dur_def current_entry_def minute_window_def split: option.splits)
  qed auto
  have "\<forall>x \<in> set es. leaves_block ?b (ip_last_reset e) x" using later leaves_block_mono [OF _ e(3)] by blast
  from address_block_run [OF d e(1,2) this] show ?thesis .
qed

lemma address_block_lasts_witness:
  "\<exists>s1. check_ip_rate_limit 5 loopback (snd (rl_run demo_f64 demo_governor [hd demo_requests] (RateLimitState_new demo_limits)))
       = (Inl ''IP rate limit exceeded'', s1)
     \<and> (\<forall>(i, u, ok) \<in> set (fst (rl_run demo_f64 demo_governor [Sweep 7, Request 9 9 (\<lambda>_. None) ''/v1'' ''GET''] s1)).
          i = loopback \<longrightarrow> \<not> ok)"
proof -
  let ?s = "snd (rl_run demo_f64 demo_governor [hd demo_requests] (RateLimitState_new demo_limits))"
  obtain s1 where c: "check_ip_rate_limit 5 loopback ?s = (Inl ''IP rate limit exceeded'', s1)"
    using demo_refused(1) by (metis prod.collapse)
  have "in_order 0 [hd demo_requests]" by (simp add: demo_requests_def)
  from address_block_lasts [OF this refl c, of "[Sweep 7, Request 9 9 (\<lambda>_. None) ''/v1'' ''GET'']"]
  have "\<forall>(i, u, ok) \<in> set (fst (rl_run demo_f64 demo_governor [Sweep 7, Request 9 9 (\<lambda>_. None) ''/v1'' ''GET''] s1)).
      i = loopback \<longrightarrow> \<not> ok"
    unfolding demo_refused(2) by (simp add: from_secs_def nanos_per_sec_def one_minute_def)
  then show ?thesis using c by blast
qed

end
