(* ===== verification/Hub_Server.thy ===== *)
theory Hub_Server
  imports Ssh_Hub Wildcard_Certs Shutdown_Flow
begin

text \<open>
  How a hub comes up: the configuration and construction of the SSH server, its host key, its certificate
  checks and its registry of reverse tunnels (\<open>crates/edgehub/src/ssh_server.rs\<close>), the TLS configuration
  of the public router (\<open>crates/common/src/tls.rs\<close>), and the start of the binary
  (\<open>cmd/edgehub-bin/src/main.rs\<close>).  Files, keys, X.509 parsing, the connection pools and the listening
  sockets are parameters; the handlers of a running hub are in \<open>Ssh_Hub\<close>.
\<close>

section \<open>Configuration\<close>

record SshConfig =
  ssh_bind_addr :: socketaddr
  ssh_host_key_path :: "string option"
  ssh_public_domain :: string
  ssh_ca_config :: "CaConfig option"
  ssh_require_client_certificates :: bool
  ssh_certificate_pinning_enabled :: bool
  ssh_max_auth_attempts :: u32
  ssh_auth_lockout_duration :: duration
  ssh_redis_url :: "string option"
  ssh_redis_auth_enabled :: bool
  ssh_redis_key_prefix :: string
  ssh_insecure_accept_all_keys :: bool

definition SshConfig_default :: SshConfig where
  "SshConfig_default =
     \<lparr> ssh_bind_addr = \<lparr> sa_ip = V4 0, sa_port = 443 \<rparr>, ssh_host_key_path = None, ssh_public_domain = ''fleetingdns.run'',
       ssh_ca_config = Some CaConfig_default, ssh_require_client_certificates = True,
       ssh_certificate_pinning_enabled = True, ssh_max_auth_attempts = 3, ssh_auth_lockout_duration = from_secs 300,
       ssh_redis_url = None, ssh_redis_auth_enabled = False, ssh_redis_key_prefix = ''session'',
       ssh_insecure_accept_all_keys = False \<rparr>"

section \<open>Host key\<close>

record ('f, 'k) key_host =
  kh_exists :: "'f \<Rightarrow> string \<Rightarrow> bool"
  kh_read :: "string \<Rightarrow> ('f, string, string) act"
  kh_decode :: "string \<Rightarrow> string + 'k"
  kh_random :: "string + 'k"
  kh_encode :: "'k \<Rightarrow> string + string"
  kh_write :: "string \<Rightarrow> string \<Rightarrow> ('f, string, unit) act"

text \<open>The text of an error is that of the outermost context.\<close>

definition load_or_generate_host_key :: "('f, 'k) key_host \<Rightarrow> string option \<Rightarrow> ('f, string, 'k) act" where
  "load_or_generate_host_key K path fs =
     (case path of
        Some key_path \<Rightarrow>
          if kh_exists K fs key_path then
            bind_act (map_err (\<lambda>e. ''Failed to read host key file'') (kh_read K key_path)) (\<lambda>key_data.
            lift_res (map_err_res (\<lambda>e. ''Failed to decode host key'') (kh_decode K key_data))) fs
          else
            bind_act (lift_res (map_err_res (\<lambda>e. ''Failed to generate host key'') (kh_random K))) (\<lambda>key.
            bind_act (lift_res (map_err_res (\<lambda>e. ''Failed to encode host key'') (kh_encode K key))) (\<lambda>encoded.
            seq_act (map_err (\<lambda>e. ''Failed to write host key'') (kh_write K key_path encoded)) (ret key))) fs
      | None \<Rightarrow> (map_err_res (\<lambda>e. ''Failed to generate ephemeral host key'') (kh_random K), fs))"

section \<open>The server\<close>

record CertificateValidationResult =
  cv_is_valid :: bool
  cv_serial_number :: "string option"
  cv_subject :: "string option"
  cv_issuer :: "string option"
  cv_not_before :: "instant option"
  cv_not_after :: "instant option"
  cv_fingerprint :: "string option"
  cv_validation_errors :: "string list"
  cv_validated_at :: instant

record ReverseTunnelInfo =
  rt_subdomain :: string
  rt_local_port :: u16
  rt_channel_id :: nat
  rt_created_at :: instant
  rt_developer_id :: string
  rt_certificate_serial :: "string option"
  rt_certificate_validation_result :: "CertificateValidationResult option"

record ('k, 'r) SshServer =
  srv_config :: SshConfig
  srv_host_key :: 'k
  srv_state :: SshServerState
  srv_ca :: "('r \<times> unit ca) option"
  srv_reverse_tunnels :: "(string, ReverseTunnelInfo) hmap"

text \<open>The authentication handler: present only if enabled, with a URL, and its pool could be made.\<close>

definition redis_auth_of :: "(string \<Rightarrow> string + unit) \<Rightarrow> SshConfig \<Rightarrow> string option" where
  "redis_auth_of new_pool config =
     (if ssh_redis_auth_enabled config then
        (case ssh_redis_url config of
           Some redis_url \<Rightarrow>
             (case new_pool redis_url of
                Inr _ \<Rightarrow> Some (ssh_redis_key_prefix config)
              | Inl e \<Rightarrow> None)
         | None \<Rightarrow> None)
      else None)"

definition redis_pool_of :: "(string \<Rightarrow> string + unit) \<Rightarrow> SshConfig \<Rightarrow> bool" where
  "redis_pool_of new_pool config =
     (case ssh_redis_url config of
        Some redis_url \<Rightarrow> (case new_pool redis_url of Inr _ \<Rightarrow> True | Inl e \<Rightarrow> False)
      | None \<Rightarrow> False)"

text \<open>\<open>auth_pool\<close> and \<open>lookup_pool\<close> are the outcomes of the two calls that make a connection pool.\<close>

definition SshServer_new ::
    "('f, 'k) key_host \<Rightarrow> ('f, 'r) ca_host \<Rightarrow> instant \<Rightarrow> (string \<Rightarrow> string + unit) \<Rightarrow> (string \<Rightarrow> string + unit) \<Rightarrow> SshConfig
      \<Rightarrow> ('f, string, ('k, 'r) SshServer) act" where
  "SshServer_new K H now auth_pool lookup_pool config =
     bind_act (load_or_generate_host_key K (ssh_host_key_path config)) (\<lambda>host_key.
     bind_act
       (case ssh_ca_config config of
          Some ca_config \<Rightarrow>
            bind_act (map_err (\<lambda>e. ''Failed to initialize certificate authority'') (ca_build H now ca_config ())) (\<lambda>ca. ret (Some ca))
        | None \<Rightarrow> ret None) (\<lambda>certificate_authority.
     ret \<lparr> srv_config = config, srv_host_key = host_key,
           srv_state =
             \<lparr> brute_force_protection = \<lparr> bf_attempts = [], bf_lockouts = [] \<rparr>,
               redis_auth_handler = redis_auth_of auth_pool config,
               has_redis_pool = redis_pool_of lookup_pool config,
               insecure_accept_all_keys = ssh_insecure_accept_all_keys config,
               max_auth_attempts = ssh_max_auth_attempts config,
               auth_lockout_duration = ssh_auth_lockout_duration config \<rparr>,
           srv_ca = certificate_authority, srv_reverse_tunnels = [] \<rparr>))"

section \<open>Certificates of clients\<close>

text \<open>
  X.509 parsing as the hub uses it: the bytes of the serial number, subject, issuer, validity in seconds;
  and \<open>x_time\<close>, the instant of a number of seconds if it is in range.
\<close>

record x509_fields =
  xf_serial :: string
  xf_subject :: string
  xf_issuer :: string
  xf_not_before :: int
  xf_not_after :: int

record x509 =
  x_pem :: "string \<Rightarrow> string + string list"
  x_parse :: "string \<Rightarrow> string + x509_fields"
  x_time :: "int \<Rightarrow> instant option"
  x_sha256 :: "string \<Rightarrow> string"

definition hex_digit :: "nat \<Rightarrow> char" where
  "hex_digit d = ''0123456789abcdef'' ! d"

definition hex_encode :: "string \<Rightarrow> string" where
  "hex_encode bs = concat (map (\<lambda>b. [hex_digit (byte_of b div 16), hex_digit (byte_of b mod 16)]) bs)"

record X509Info =
  xi_serial_number :: string
  xi_subject :: string
  xi_issuer :: string
  xi_not_before :: instant
  xi_not_after :: instant
  xi_fingerprint :: string

definition parse_certificate_pem :: "x509 \<Rightarrow> string \<Rightarrow> string + string" where
  "parse_certificate_pem P certificate_pem =
     (case x_pem P certificate_pem of
        Inl e \<Rightarrow> Inl ''Failed to parse PEM certificates''
      | Inr [] \<Rightarrow> Inl ''No certificates found in PEM data''
      | Inr (der # _) \<Rightarrow> Inr der)"

definition extract_certificate_info :: "x509 \<Rightarrow> (nat \<Rightarrow> instant) \<Rightarrow> string \<Rightarrow> string + X509Info" where
  "extract_certificate_info P clk cert_der =
     (case x_parse P cert_der of
        Inl e \<Rightarrow> Inl (''Failed to parse certificate: '' @ e)
      | Inr cert \<Rightarrow>
          Inr \<lparr> xi_serial_number = hex_encode (xf_serial cert), xi_subject = xf_subject cert, xi_issuer = xf_issuer cert,
                xi_not_before = (case x_time P (xf_not_before cert) of Some t \<Rightarrow> t | None \<Rightarrow> clk 0),
                xi_not_after = (case x_time P (xf_not_after cert) of Some t \<Rightarrow> t | None \<Rightarrow> clk 1),
                xi_fingerprint = hex_encode (x_sha256 P cert_der) \<rparr>)"

definition validate_certificate_pinning :: "x509 \<Rightarrow> string \<Rightarrow> string + unit" where
  "validate_certificate_pinning P cert_der =
     (case x_parse P cert_der of
        Inl e \<Rightarrow> Inl (''Failed to parse certificate for pinning: '' @ e)
      | Inr cert \<Rightarrow> Inr ())"

definition add_error :: "string \<Rightarrow> CertificateValidationResult \<Rightarrow> CertificateValidationResult" where
  "add_error e result = result\<lparr> cv_validation_errors := cv_validation_errors result @ [e] \<rparr>"

definition describe_certificate :: "X509Info \<Rightarrow> CertificateValidationResult \<Rightarrow> CertificateValidationResult" where
  "describe_certificate info result =
     result\<lparr> cv_serial_number := Some (xi_serial_number info), cv_subject := Some (xi_subject info),
             cv_issuer := Some (xi_issuer info), cv_not_before := Some (xi_not_before info),
             cv_not_after := Some (xi_not_after info), cv_fingerprint := Some (xi_fingerprint info) \<rparr>"

text \<open>The check against the authority: the result and the authority after the look-up.\<close>

definition check_with_ca ::
    "cert_codec \<Rightarrow> (nat \<Rightarrow> instant) \<Rightarrow> CertificateValidationResult \<Rightarrow> ('r \<times> unit ca) option
      \<Rightarrow> CertificateValidationResult \<times> ('r \<times> unit ca) option" where
  "check_with_ca J clk result authority =
     (case authority of
        None \<Rightarrow> (add_error ''No certificate authority configured'' result, None)
      | Some (c, ca) \<Rightarrow>
          (case cv_serial_number result of
             None \<Rightarrow> (result, Some (c, ca))
           | Some serial \<Rightarrow>
               (case validate_certificate None J (clk 3) (clk 4) serial ca of
                  (Inr is_valid, ca') \<Rightarrow>
                    (let r = result\<lparr> cv_is_valid := is_valid \<rparr>
                     in if is_valid then r else add_error ''Certificate not found in CA registry'' r, Some (c, ca'))
                | (Inl e, ca') \<Rightarrow> (add_error (''CA validation failed: '' @ fd_to_string e) result, Some (c, ca')))))"

definition validate_certificate_comprehensive ::
    "x509 \<Rightarrow> cert_codec \<Rightarrow> (nat \<Rightarrow> instant) \<Rightarrow> string \<Rightarrow> ('k, 'r) SshServer \<Rightarrow> CertificateValidationResult \<times> ('k, 'r) SshServer" where
  "validate_certificate_comprehensive P J clk certificate_pem srv =
     (let result = \<lparr> cv_is_valid = False, cv_serial_number = None, cv_subject = None, cv_issuer = None,
            cv_not_before = None, cv_not_after = None, cv_fingerprint = None, cv_validation_errors = [],
            cv_validated_at = clk 0 \<rparr>
      in case parse_certificate_pem P certificate_pem of
           Inl e \<Rightarrow> (add_error (''Certificate parsing failed: '' @ e) result, srv)
         | Inr cert_der \<Rightarrow>
             (let described = (case extract_certificate_info P (\<lambda>i. clk (1 + i)) cert_der of
                    Inr info \<Rightarrow> describe_certificate info result | Inl e \<Rightarrow> result);
                  (checked, authority) = check_with_ca J clk described (srv_ca srv);
                  pinned = (if ssh_certificate_pinning_enabled (srv_config srv) then
                      (case validate_certificate_pinning P cert_der of
                         Inl e \<Rightarrow> (add_error (''Certificate pinning validation failed: '' @ e) checked)\<lparr> cv_is_valid := False \<rparr>
                       | Inr _ \<Rightarrow> checked) else checked)
              in (pinned, srv\<lparr> srv_ca := authority \<rparr>)))"

definition hub_validate_certificate ::
    "x509 \<Rightarrow> cert_codec \<Rightarrow> (nat \<Rightarrow> instant) \<Rightarrow> string \<Rightarrow> ('k, 'r) SshServer \<Rightarrow> bool \<times> ('k, 'r) SshServer" where
  "hub_validate_certificate P J clk certificate_pem srv =
     (case validate_certificate_comprehensive P J clk certificate_pem srv of (r, srv') \<Rightarrow> (cv_is_valid r, srv'))"

definition extract_certificate_serial :: "x509 \<Rightarrow> (nat \<Rightarrow> instant) \<Rightarrow> string \<Rightarrow> string option" where
  "extract_certificate_serial P clk certificate_pem =
     (case parse_certificate_pem P certificate_pem of
        Inr cert_der \<Rightarrow>
          (case extract_certificate_info P clk cert_der of Inr info \<Rightarrow> Some (xi_serial_number info) | Inl e \<Rightarrow> None)
      | Inl e \<Rightarrow> None)"

definition hub_issue_certificate ::
    "cert_codec \<Rightarrow> ('q, 'c) rcgen \<Rightarrow> string + 'q \<Rightarrow> string \<Rightarrow> string \<Rightarrow> (nat \<Rightarrow> instant) \<Rightarrow> string \<Rightarrow> string
      \<Rightarrow> (('k, 'r) SshServer, string, IssuanceResponse) act" where
  "hub_issue_certificate J X key rid serial clk client common_name srv =
     (case (srv_ca srv, ssh_ca_config (srv_config srv)) of
        (Some (c, ca), Some cfg) \<Rightarrow>
          (case issue_certificate cfg None J X key serial clk (IssuanceRequest_new rid common_name client) ca of
             (Inl e, ca') \<Rightarrow> (Inl ''Failed to issue certificate'', srv\<lparr> srv_ca := Some (c, ca') \<rparr>)
           | (Inr response, ca') \<Rightarrow> (Inr response, srv\<lparr> srv_ca := Some (c, ca') \<rparr>))
      | _ \<Rightarrow> (Inl ''Certificate authority not configured'', srv))"

section \<open>Reverse tunnels\<close>

text \<open>\<open>draws\<close> are eight draws of a letter.\<close>

definition generate_subdomain :: "(nat \<Rightarrow> nat) \<Rightarrow> string \<Rightarrow> string" where
  "generate_subdomain draws nm = nm @ map (\<lambda>i. char_of (97 + draws i mod 26)) [0..<8]"

definition register_reverse_tunnel ::
    "instant \<Rightarrow> string \<Rightarrow> u16 \<Rightarrow> nat \<Rightarrow> string \<Rightarrow> string option \<Rightarrow> ('k, 'r) SshServer \<Rightarrow> string \<times> ('k, 'r) SshServer" where
  "register_reverse_tunnel now subdomain local_port channel_id developer_id certificate_serial srv =
     (''https://'' @ subdomain @ ''.'' @ ssh_public_domain (srv_config srv),
      srv\<lparr> srv_reverse_tunnels := hput subdomain
        \<lparr> rt_subdomain = subdomain, rt_local_port = local_port, rt_channel_id = channel_id, rt_created_at = now,
          rt_developer_id = developer_id, rt_certificate_serial = certificate_serial,
          rt_certificate_validation_result = None \<rparr> (srv_reverse_tunnels srv) \<rparr>)"

definition find_reverse_tunnel :: "string \<Rightarrow> ('k, 'r) SshServer \<Rightarrow> ReverseTunnelInfo option" where
  "find_reverse_tunnel subdomain srv = hget (srv_reverse_tunnels srv) subdomain"

definition reverse_tunnel_count :: "('k, 'r) SshServer \<Rightarrow> nat" where
  "reverse_tunnel_count srv = length (srv_reverse_tunnels srv)"

definition get_ca_statistics :: "('k, 'r) SshServer \<Rightarrow> (nat \<times> u64) option" where
  "get_ca_statistics srv = (case srv_ca srv of Some (c, ca) \<Rightarrow> Some (get_statistics ca) | None \<Rightarrow> None)"

section \<open>The accept loop\<close>

datatype run_event = StopSignal ShutdownSignal | StopChannelError string | Accepted socketaddr | AcceptFailed string

text \<open>The sessions the loop starts, and whether it has ended.\<close>

fun accept_loop :: "run_event list \<Rightarrow> SshSession list \<times> bool" where
  "accept_loop [] = ([], False)"
| "accept_loop (StopSignal signal # es) = ([], True)"
| "accept_loop (StopChannelError e # es) = ([], True)"
| "accept_loop (Accepted addr # es) = (let (sessions, ended) = accept_loop es in (session_new addr # sessions, ended))"
| "accept_loop (AcceptFailed e # es) = accept_loop es"

definition ssh_run :: "string + unit \<Rightarrow> run_event list \<Rightarrow> string + SshSession list \<times> bool" where
  "ssh_run bind es = (case bind of Inl e \<Rightarrow> Inl ''Failed to bind SSH server'' | Inr _ \<Rightarrow> Inr (accept_loop es))"

section \<open>TLS of the router\<close>

record ('d, 'p) self_signed =
  ss_pem :: string
  ss_der :: 'd
  ss_key :: 'p

definition server_config_from_parts ::
    "('d, 'p) rustls \<Rightarrow> 'd list \<Rightarrow> 'p \<Rightarrow> string list \<Rightarrow> AppError + ('d, 'p) ServerConfig" where
  "server_config_from_parts U cert_chain key_der alpn =
     (case ru_single_cert U cert_chain key_der of
        Inl e \<Rightarrow> Inl (Message e)
      | Inr _ \<Rightarrow> Inr \<lparr> sv_chain = cert_chain, sv_key = key_der, sv_alpn_protocols = alpn \<rparr>)"

text \<open>\<open>sign\<close> makes a self-signed certificate for a list of names.\<close>

definition generate_self_signed_config ::
    "('d, 'p) rustls \<Rightarrow> (string list \<Rightarrow> string + ('d, 'p) self_signed) \<Rightarrow> string list \<Rightarrow> string list
      \<Rightarrow> AppError + ('d, 'p) ServerConfig \<times> string" where
  "generate_self_signed_config U sign alpn sans =
     (case sign sans of
        Inl e \<Rightarrow> Inl (Message e)
      | Inr cert \<Rightarrow>
          (case server_config_from_parts U [ss_der cert] (ss_key cert) alpn of
             Inl e \<Rightarrow> Inl e
           | Inr config \<Rightarrow> Inr (config, ss_pem cert)))"

definition generate_tls_config ::
    "('d, 'p) rustls \<Rightarrow> (string list \<Rightarrow> string + ('d, 'p) self_signed) \<Rightarrow> string list
      \<Rightarrow> AppError + ('d, 'p) ServerConfig \<times> string" where
  "generate_tls_config U sign alpn = generate_self_signed_config U sign alpn [''tls.local'']"

definition wildcard_names :: "string \<Rightarrow> string list" where
  "wildcard_names base_domain = [''*.'' @ base_domain, base_domain, ''localhost'']"

definition generate_wildcard_tls_config ::
    "('d, 'p) rustls \<Rightarrow> (string list \<Rightarrow> string + ('d, 'p) self_signed) \<Rightarrow> string list \<Rightarrow> string
      \<Rightarrow> AppError + ('d, 'p) ServerConfig \<times> string" where
  "generate_wildcard_tls_config U sign alpn base_domain =
     generate_self_signed_config U sign alpn (wildcard_names base_domain)"

text \<open>\<open>read\<close> is the outcome of reading a file.\<close>

definition load_tls_config_from_files ::
    "('d, 'p) rustls \<Rightarrow> (string \<Rightarrow> string + string) \<Rightarrow> string \<Rightarrow> string \<Rightarrow> string list
      \<Rightarrow> AppError + ('d, 'p) ServerConfig" where
  "load_tls_config_from_files U read cert_path key_path alpn =
     (case read cert_path of
        Inl e \<Rightarrow> Inl (Message (''Failed to read TLS cert '' @ cert_path @ '': '' @ e))
      | Inr cert_bytes \<Rightarrow>
          (case read key_path of
             Inl e \<Rightarrow> Inl (Message (''Failed to read TLS key '' @ key_path @ '': '' @ e))
           | Inr key_bytes \<Rightarrow>
               (case ru_certs U cert_bytes of
                  Inl e \<Rightarrow> Inl (Message (''Failed to parse TLS cert PEM: '' @ e))
                | Inr cert_chain \<Rightarrow>
                    if cert_chain = [] then Inl (Message (''No certificates found in '' @ cert_path))
                    else
                      (case ru_private_key U key_bytes of
                         Inl e \<Rightarrow> Inl (Message (''Failed to parse TLS key PEM: '' @ e))
                       | Inr None \<Rightarrow> Inl (Message (''No private key found in '' @ key_path))
                       | Inr (Some key_der) \<Rightarrow> server_config_from_parts U cert_chain key_der alpn))))"

section \<open>The binary\<close>

record Args =
  ar_ssh_addr :: socketaddr
  ar_https_addr :: socketaddr
  ar_ssh_host_key :: "string option"
  ar_public_domain :: string
  ar_redis :: string
  ar_tls_cert :: "string option"
  ar_tls_key :: "string option"
  ar_control_socket :: "string option"
  ar_shutdown_timeout :: u64

definition Args_default :: Args where
  "Args_default =
     \<lparr> ar_ssh_addr = \<lparr> sa_ip = V4 0, sa_port = 2222 \<rparr>, ar_https_addr = \<lparr> sa_ip = V4 0, sa_port = 8443 \<rparr>,
       ar_ssh_host_key = None, ar_public_domain = ''fleetingdns.run'', ar_redis = ''redis://127.0.0.1:6379'',
       ar_tls_cert = None, ar_tls_key = None, ar_control_socket = None, ar_shutdown_timeout = 30 \<rparr>"

definition insecure_flag :: "(string \<Rightarrow> string option) \<Rightarrow> bool" where
  "insecure_flag env =
     (case env ''FDNS_INSECURE_ACCEPT_ALL_KEYS'' of
        Some v \<Rightarrow> v = ''1'' \<or> eq_ignore_ascii_case v ''true''
      | None \<Rightarrow> False)"

definition hub_ssh_config :: "Args \<Rightarrow> bool \<Rightarrow> SshConfig" where
  "hub_ssh_config args insecure =
     SshConfig_default
       \<lparr> ssh_bind_addr := ar_ssh_addr args, ssh_host_key_path := ar_ssh_host_key args,
         ssh_public_domain := ar_public_domain args, ssh_ca_config := None, ssh_require_client_certificates := False,
         ssh_certificate_pinning_enabled := False, ssh_redis_url := Some (ar_redis args),
         ssh_redis_auth_enabled := True, ssh_insecure_accept_all_keys := insecure \<rparr>"

definition router_tls_config ::
    "('d, 'p) rustls \<Rightarrow> (string list \<Rightarrow> string + ('d, 'p) self_signed) \<Rightarrow> (string \<Rightarrow> string + string) \<Rightarrow> Args
      \<Rightarrow> AppError + ('d, 'p) ServerConfig" where
  "router_tls_config U sign read args =
     (case (ar_tls_cert args, ar_tls_key args) of
        (Some cert, Some key) \<Rightarrow> load_tls_config_from_files U read cert key [''http/1.1'', ''h2'']
      | (None, None) \<Rightarrow>
          (case generate_wildcard_tls_config U sign [''http/1.1'', ''h2''] (ar_public_domain args) of
             Inl e \<Rightarrow> Inl e | Inr (config, pem) \<Rightarrow> Inr config)
      | _ \<Rightarrow> Inl (Message ''--tls-cert and --tls-key must be provided together''))"

text \<open>
  The start of the binary up to the point where both servers run: the shutdown framework is started (its
  outcome is an argument), then the TLS configuration, the router's pool and the SSH server are made.
\<close>

definition edgehub_boot ::
    "('d, 'p) rustls \<Rightarrow> (string list \<Rightarrow> string + ('d, 'p) self_signed) \<Rightarrow> (string \<Rightarrow> string + string)
      \<Rightarrow> ('f, 'k) key_host \<Rightarrow> ('f, 'r) ca_host \<Rightarrow> instant \<Rightarrow> (nat \<Rightarrow> string \<Rightarrow> string + unit) \<Rightarrow> (string \<Rightarrow> string option)
      \<Rightarrow> AppError + unit \<Rightarrow> Args \<Rightarrow> ('f, AppError, ('d, 'p) ServerConfig \<times> ('k, 'r) SshServer) act" where
  "edgehub_boot U sign read K H now new_pool env started args =
     seq_act (lift_res started)
    (bind_act (lift_res (router_tls_config U sign read args)) (\<lambda>https_config.
     seq_act (lift_res (map_err_res Message (new_pool 0 (ar_redis args))))
    (bind_act (map_err Message (SshServer_new K H now (new_pool 1) (new_pool 2) (hub_ssh_config args (insecure_flag env))))
       (\<lambda>ssh_server. ret (https_config, ssh_server)))))"

section \<open>A started hub\<close>

lemma SshServer_new_state:
  assumes "SshServer_new K H now auth_pool lookup_pool config fs = (Inr srv, fs')"
  shows "srv_state srv =
    \<lparr> brute_force_protection = \<lparr> bf_attempts = [], bf_lockouts = [] \<rparr>,
      redis_auth_handler = redis_auth_of auth_pool config, has_redis_pool = redis_pool_of lookup_pool config,
      insecure_accept_all_keys = ssh_insecure_accept_all_keys config,
      max_auth_attempts = ssh_max_auth_attempts config, auth_lockout_duration = ssh_auth_lockout_duration config \<rparr>"
  using assms unfolding SshServer_new_def act_ok by auto

lemma boot_state:
  assumes "edgehub_boot U sign read K H now new_pool env started args fs = (Inr (cfg, srv), fs')"
  shows "redis_auth_handler (srv_state srv) = (case new_pool 1 (ar_redis args) of Inr _ \<Rightarrow> Some ''session'' | Inl e \<Rightarrow> None)"
    and "has_redis_pool (srv_state srv) = is_ok (new_pool 2 (ar_redis args))"
    and "insecure_accept_all_keys (srv_state srv) = insecure_flag env"
    and "brute_force_protection (srv_state srv) = \<lparr> bf_attempts = [], bf_lockouts = [] \<rparr>"
    and "started = Inr ()" and "is_ok (new_pool 0 (ar_redis args))"
    and "router_tls_config U sign read args = Inr cfg"
proof -
  obtain fs1 where new: "SshServer_new K H now (new_pool 1) (new_pool 2) (hub_ssh_config args (insecure_flag env)) fs1 = (Inr srv, fs')"
    and rest: "started = Inr ()" "is_ok (new_pool 0 (ar_redis args))" "router_tls_config U sign read args = Inr cfg"
    using assms unfolding edgehub_boot_def act_ok by (auto simp: map_err_res_Inr)
  show "redis_auth_handler (srv_state srv) = (case new_pool 1 (ar_redis args) of Inr _ \<Rightarrow> Some ''session'' | Inl e \<Rightarrow> None)"
    "has_redis_pool (srv_state srv) = is_ok (new_pool 2 (ar_redis args))"
    "insecure_accept_all_keys (srv_state srv) = insecure_flag env"
    "brute_force_protection (srv_state srv) = \<lparr> bf_attempts = [], bf_lockouts = [] \<rparr>"
    by (simp_all add: SshServer_new_state [OF new] redis_auth_of_def redis_pool_of_def hub_ssh_config_def SshConfig_default_def
        split: sum.split)
  show "started = Inr ()" "is_ok (new_pool 0 (ar_redis args))" "router_tls_config U sign read args = Inr cfg" by (fact rest)+
qed

section \<open>Serial numbers\<close>

lemma hex_digit_dash: "d < 16 \<Longrightarrow> hex_digit d \<noteq> CHR ''-''"
proof -
  assume "d < 16"
  then have "hex_digit d \<in> set ''0123456789abcdef''" unfolding hex_digit_def by (intro nth_mem) simp
  then show ?thesis by auto
qed

lemma hex_encode_dash: "CHR ''-'' \<notin> set (hex_encode bs)"
proof -
  have "byte_of b div 16 < 16" "byte_of b mod 16 < 16" for b by (simp_all add: less_mult_imp_div_less)
  then have "CHR ''-'' \<notin> {hex_digit (byte_of b div 16), hex_digit (byte_of b mod 16)}" for b
    using hex_digit_dash by (metis insertE singletonD)
  then show ?thesis by (auto simp: hex_encode_def)
qed

text \<open>The serial an operation of the authority uses, and that it has the form of a UUID: it contains a dash.\<close>

primrec op_serial_dashed :: "'k ca_op \<Rightarrow> bool" where
  "op_serial_dashed (IssueClient request key serial) = (CHR ''-'' \<in> set serial)"
| "op_serial_dashed (IssueServer fqdn extra ttl key serial) = (CHR ''-'' \<in> set serial)"
| "op_serial_dashed (Validate serial) = True"
| "op_serial_dashed (Lookup serial) = True"
| "op_serial_dashed (Revoke serial) = True"
| "op_serial_dashed Cleanup = True"
| "op_serial_dashed Restart = True"

definition registry_dashed :: "'s ca \<Rightarrow> bool" where
  "registry_dashed st \<longleftrightarrow> (\<forall>serial \<in> set (hkeys (ca_active st)). CHR ''-'' \<in> set serial)"

lemma registry_dashed_new: "registry_dashed (ca_new cfg s)"
  by (simp add: registry_dashed_def ca_new_def)

lemma registry_dashed_cong: "ca_active st' = ca_active st \<Longrightarrow> registry_dashed st \<Longrightarrow> registry_dashed st'"
  by (simp add: registry_dashed_def)

lemma registry_dashed_put:
  "registry_dashed st \<Longrightarrow> CHR ''-'' \<in> set serial \<Longrightarrow> ca_active st' = hput serial c (ca_active st) \<Longrightarrow> registry_dashed st'"
  unfolding registry_dashed_def by (simp only: set_hkeys_hput) blast

lemma registry_dashed_issue:
  assumes "registry_dashed st" and "CHR ''-'' \<in> set serial"
    and "issue_for cfg store J X key serial clk client ttl req st = (r, st')"
  shows "registry_dashed st'"
proof (cases r)
  case (Inl e)
  then have "st' = st" using assms(3) by (auto simp: issue_for_def Let_def split: sum.splits)
  with assms(1) show ?thesis by simp
next
  case (Inr cert)
  obtain l where st': "st' = (register_certificate store J (clk 4) \<lparr> ac_metadata = ec_metadata cert,
       ac_certificate_pem = ec_certificate_pem cert, ac_client_id = client, ac_issued_at = clk 3 \<rparr> st)\<lparr> ca_limiter := l \<rparr>"
    and serial: "cm_serial_number (ec_metadata cert) = serial"
    using issue_for_outcome(2,4) [OF assms(3) [unfolded Inr]] by blast
  show ?thesis
    by (rule registry_dashed_put [OF assms(1,2)]) (simp add: st' register_certificate_def serial Let_def)
qed

lemma registry_dashed_step:
  assumes "registry_dashed st" and "op_serial_dashed op"
  shows "registry_dashed (snd (ca_step cfg None J X (op, clk) st))"
proof (cases op)
  case (IssueClient request key serial)
  obtain r st' where i: "issue_client_certificate cfg None J X key serial clk request st = (r, st')"
    by (cases "issue_client_certificate cfg None J X key serial clk request st")
  have "registry_dashed st'"
  proof (cases "validate_request request")
    case (Inl e)
    with i assms(1) show ?thesis by (simp add: issue_client_certificate_def)
  next
    case (Inr u)
    with i have "issue_for cfg None J X key serial clk (ir_client_id request) (ir_ttl request)
        (\<lambda>ttl. cr_with_san (for_tunnel_client (ir_client_id request) ttl) (ir_common_name request)) st = (r, st')"
      by (simp add: issue_client_certificate_def)
    from registry_dashed_issue [OF assms(1) _ this] assms(2) show ?thesis by (simp add: IssueClient)
  qed
  then show ?thesis using i by (simp add: ca_step_def IssueClient split: sum.split)
next
  case (IssueServer fqdn extra ttl key serial)
  obtain r st' where i: "issue_server_certificate cfg None J X key serial clk fqdn extra ttl st = (r, st')"
    by (cases "issue_server_certificate cfg None J X key serial clk fqdn extra ttl st")
  have "registry_dashed st'"
    using i assms registry_dashed_issue [where st = st and serial = serial]
    by (auto simp: issue_server_certificate_def IssueServer split: if_splits)
  then show ?thesis using i by (simp add: ca_step_def IssueServer split: sum.split)
qed (use assms(1) in \<open>auto simp: ca_step_def validate_certificate_def is_certificate_valid_def get_certificate_def
      get_certificate_info_def revoke_certificate_def remove_certificate_def cleanup_expired_certificates_def cleanup_expired_def
      ca_restart_def ca_new_def registry_dashed_def hdel_def hretain_def delete_conv' Let_def
      split: option.splits prod.splits if_splits\<close>)

lemma registry_dashed_run:
  assumes "registry_dashed st" and "\<forall>x \<in> set ops. op_serial_dashed (fst x)"
  shows "registry_dashed (snd (ca_run cfg None J X ops st))"
  using assms
proof (induction ops arbitrary: st)
  case (Cons x xs)
  obtain op clk where x: "x = (op, clk)" by (cases x)
  have "registry_dashed (snd (ca_step cfg None J X x st))"
    unfolding x by (rule registry_dashed_step) (use Cons.prems in \<open>simp_all add: x\<close>)
  from Cons.IH [OF this] Cons.prems(2) show ?case by (simp add: split_beta)
qed simp

section \<open>Properties\<close>

text \<open>
  C12: the hub binary starts fail-closed.  If it starts at all and the insecure environment variable is not
  set to 1 or true, a key is accepted only against an unexpired session record with the fingerprint of
  that key under \<open>session:\<close>; when the authentication pool could not be made, no key is accepted.
\<close>

theorem hub_starts_closed:
  assumes env: "storage_env R view C"
    and boot: "edgehub_boot U sign read K H now new_pool vars started args fs = (Inr (cfg, srv), fs')"
    and secure: "\<not> insecure_flag vars"
    and auth: "auth_publickey R C fp clk user key (srv_state srv) (session_new addr) s = (True, st', sess', s')"
  shows "is_ok (new_pool 1 (ar_redis args))
    \<and> (\<exists>data session. view s (clk 1) (session_key (session_id_of user)) = Some data \<and> de_session C data = Inr session
         \<and> clk 1 \<le> sd_expires_at session \<and> fp key = sd_fingerprint session)
    \<and> client_certificate_serial sess' = Some (session_id_of user)"
proof -
  note st = boot_state [OF boot]
  note acc = storage_env.auth_publickey_accepts [OF env auth]
  show ?thesis
  proof (cases "new_pool 1 (ar_redis args)")
    case (Inl e)
    then show ?thesis using acc(4) st(1,3) secure by simp
  next
    case (Inr u)
    then show ?thesis using acc(3,4) st(1) by (simp add: session_key_def)
  qed
qed

definition demo_rustls :: "(unit, unit) rustls" where
  "demo_rustls = \<lparr> ru_certs = (\<lambda>_. Inr [()]), ru_private_key = (\<lambda>_. Inr (Some ())), ru_single_cert = (\<lambda>_ _. Inr ()) \<rparr>"

definition demo_sign :: "string list \<Rightarrow> string + (unit, unit) self_signed" where
  "demo_sign sans = Inr \<lparr> ss_pem = ''pem'', ss_der = (), ss_key = () \<rparr>"

definition demo_key_host :: "(unit, unit) key_host" where
  "demo_key_host = \<lparr> kh_exists = (\<lambda>_ _. False), kh_read = (\<lambda>_. fail ''none''), kh_decode = (\<lambda>_. Inr ()), kh_random = Inr (),
     kh_encode = (\<lambda>_. Inr ''k''), kh_write = (\<lambda>_ _. ret ()) \<rparr>"

definition demo_ca_host :: "(unit, unit) ca_host" where
  "demo_ca_host = \<lparr> ch_from_params = (\<lambda>_. Inr ()), ch_pem = (\<lambda>_. Inr ''pem''), ch_key_pem = (\<lambda>_. ''key''),
     ch_exists = (\<lambda>_ _. False), ch_write = (\<lambda>_ _. ret ()) \<rparr>"

lemma demo_boot:
  "\<exists>cfg srv. edgehub_boot demo_rustls demo_sign Inr demo_key_host demo_ca_host 0 (\<lambda>_ _. Inr ()) (\<lambda>_. None) (Inr ()) Args_default ()
     = (Inr (cfg, srv), ()) \<and> srv_state srv = hub_demo_state"
  by (simp add: edgehub_boot_def seq_act_def bind_act_def map_err_def router_tls_config_def Args_default_def
      generate_wildcard_tls_config_def generate_self_signed_config_def demo_sign_def demo_rustls_def server_config_from_parts_def
      SshServer_new_def hub_ssh_config_def SshConfig_default_def load_or_generate_host_key_def demo_key_host_def
      redis_auth_of_def redis_pool_of_def insecure_flag_def hub_demo_state_def)

theorem hub_starts_closed_witness:
  "\<exists>cfg srv. edgehub_boot demo_rustls demo_sign Inr demo_key_host demo_ca_host 0 (\<lambda>_ _. Inr ()) (\<lambda>_. None) (Inr ()) Args_default ()
     = (Inr (cfg, srv), ())
   \<and> fst (auth_publickey mem_redis hub_demo_codec (\<lambda>k. k) int ''tunnel-1'' ''SHA256:k'' (srv_state srv)
       (session_new hub_demo_peer) hub_demo_store)
   \<and> (\<exists>data. mem_view hub_demo_store 1 (session_key ''1'') = Some data)"
proof -
  obtain cfg srv where b: "edgehub_boot demo_rustls demo_sign Inr demo_key_host demo_ca_host 0 (\<lambda>_ _. Inr ()) (\<lambda>_. None) (Inr ())
      Args_default () = (Inr (cfg, srv), ())" and st: "srv_state srv = hub_demo_state"
    using demo_boot by blast
  have sid: "session_id_of ''tunnel-1'' = ''1''" by (simp add: session_id_of_def strip_prefix_str_def)
  from hub_starts_closed [OF hub_demo_env b _ hub_demo_auth [folded st], unfolded sid] have
    "\<exists>data. mem_view hub_demo_store 1 (session_key ''1'') = Some data"
    by (auto simp: insecure_flag_def)
  then show ?thesis using b hub_demo_auth by (auto simp: st)
qed

text \<open>
  C36: the hub's check of client certificates accepts none of the certificates its own authority issued: it
  looks the certificate up by the hexadecimal serial of the X.509 structure, while the registry files it
  under a UUID, which contains a dash.  After any sequence of operations of the authority every
  certificate is reported invalid.
\<close>

theorem hub_validates_no_certificate:
  assumes serials: "\<forall>x \<in> set ops. op_serial_dashed (fst x)"
    and ca: "srv_ca srv = Some (c, snd (ca_run cfg None J X ops (ca_new cfg ())))"
  shows "\<not> fst (hub_validate_certificate P J clk pem srv)"
proof -
  have dashed: "registry_dashed (snd (ca_run cfg None J X ops (ca_new cfg ())))"
    by (rule registry_dashed_run [OF registry_dashed_new serials])
  have unknown: "hget (ca_active (snd (ca_run cfg None J X ops (ca_new cfg ())))) (hex_encode bs) = None" for bs
    using dashed hex_encode_dash [of bs] unfolding registry_dashed_def
    by (cases "hget (ca_active (snd (ca_run cfg None J X ops (ca_new cfg ())))) (hex_encode bs)") (auto dest!: hget_SomeD)
  show ?thesis
    by (simp add: hub_validate_certificate_def validate_certificate_comprehensive_def check_with_ca_def ca validate_certificate_def
        is_certificate_valid_def get_certificate_def describe_certificate_def extract_certificate_info_def add_error_def
        unknown Let_def split: sum.split)
qed

definition demo_x509 :: x509 where
  "demo_x509 = \<lparr> x_pem = (\<lambda>_. Inr [''der'']), x_parse = (\<lambda>_. Inr \<lparr> xf_serial = ''s'', xf_subject = ''CN=7'', xf_issuer = ''CN=ca'',
     xf_not_before = 0, xf_not_after = 1800 \<rparr>), x_time = Some, x_sha256 = (\<lambda>_. ''h'') \<rparr>"

definition demo_ca_log :: "(unit ca_op \<times> (nat \<Rightarrow> instant)) list" where
  "demo_ca_log = [(IssueClient (IssuanceRequest_new ''r'' ''tunnel-client-7'' ''7'') (Inr ()) ''s-1'', \<lambda>_. 0)]"

definition demo_hub_server :: "(unit, unit) SshServer" where
  "demo_hub_server = \<lparr> srv_config = SshConfig_default, srv_host_key = (), srv_state = hub_demo_state,
     srv_ca = Some ((), snd (ca_run CaConfig_default None (demo_cert_codec []) demo_rcgen demo_ca_log (ca_new CaConfig_default ()))),
     srv_reverse_tunnels = [] \<rparr>"

theorem hub_validates_no_certificate_witness:
  "active_count (snd (the (srv_ca demo_hub_server))) = 1
   \<and> \<not> fst (hub_validate_certificate demo_x509 (demo_cert_codec []) (\<lambda>_. 0) ''pem'' demo_hub_server)"
proof -
  have "\<forall>x \<in> set demo_ca_log. op_serial_dashed (fst x)" by (simp add: demo_ca_log_def)
  moreover have "active_count (snd (the (srv_ca demo_hub_server))) = 1"
    by (simp add: demo_hub_server_def demo_ca_log_def ca_step_def issue_client_certificate_def issue_for_def validate_request_def
        IssuanceRequest_new_def check_rate_limits_def is_rate_limited_def ca_new_def RateLimiter_new_def check_ttl_def
        CaConfig_default_def DEFAULT_CERT_TTL_def MAX_CERT_TTL_def chrono_seconds_def generate_certificate_def demo_rcgen_def
        calculate_fingerprint_def register_certificate_def hput_def active_count_def Let_def)
  ultimately show ?thesis
    using hub_validates_no_certificate [of demo_ca_log demo_hub_server "()" CaConfig_default "demo_cert_codec []" demo_rcgen
        demo_x509 "\<lambda>_. 0" "''pem''"]
    by (simp add: demo_hub_server_def)
qed

end
