(* ===== verification/Cli_Tunnel.thy ===== *)
theory Cli_Tunnel
  imports Cli_Keys
begin

text \<open>
  The command line client (\<open>cmd/edf-cli\<close>): its configuration and commands (\<open>config.rs\<close>, \<open>main.rs\<close>), the
  SSH connection to the hub (\<open>ssh_client.rs\<close>) and the life of a tunnel session (\<open>tunnel.rs\<close>).

  The SSH library together with the hub behind it is the parameter \<open>hub_link\<close>: the outcomes of
  connecting, authenticating, requesting the forwarding and opening a channel.  Output to the terminal is
  left out.
\<close>

section \<open>Configuration\<close>

record CliConfig =
  cf_api_url :: string
  cf_hub_url :: string
  cf_key_directory :: string
  cf_default_ttl :: u32
  cf_log_level :: string

definition get_default_key_directory :: "string option \<Rightarrow> string" where
  "get_default_key_directory home =
     join_path (join_path (case home of Some h \<Rightarrow> h | None \<Rightarrow> ''.'') ''.edf'') ''keys''"

definition CliConfig_default :: "string option \<Rightarrow> CliConfig" where
  "CliConfig_default home =
     \<lparr> cf_api_url = ''https://api.edf.run'', cf_hub_url = ''https://hub.edf.run'',
       cf_key_directory = get_default_key_directory home, cf_default_ttl = 1800, cf_log_level = ''info'' \<rparr>"

definition CliConfig_load :: "string option \<Rightarrow> string + CliConfig" where
  "CliConfig_load home = Inr (CliConfig_default home)"

text \<open>The endpoints of a debug and of a release build.\<close>

definition build_endpoints :: "bool \<Rightarrow> CliConfig \<Rightarrow> CliConfig" where
  "build_endpoints is_dev_build c =
     (if is_dev_build then
        c\<lparr> cf_api_url := (if cf_api_url c = ''https://api.edf.run'' then ''http://localhost:8880'' else cf_api_url c),
           cf_hub_url := (if cf_hub_url c = ''https://hub.edf.run'' then ''localhost:2222'' else cf_hub_url c) \<rparr>
      else c\<lparr> cf_api_url := ''https://api.edf.run'', cf_hub_url := ''https://hub.edf.run'' \<rparr>)"

text \<open>The overrides of the command line, compiled in with the feature \<open>dev-overrides\<close>.\<close>

definition apply_overrides :: "string option \<Rightarrow> string option \<Rightarrow> CliConfig \<Rightarrow> CliConfig" where
  "apply_overrides api_url hub_url c =
     c\<lparr> cf_api_url := (case api_url of Some u \<Rightarrow> u | None \<Rightarrow> cf_api_url c),
        cf_hub_url := (case hub_url of Some u \<Rightarrow> u | None \<Rightarrow> cf_hub_url c) \<rparr>"

fun join_comma :: "string list \<Rightarrow> string" where
  "join_comma [] = []"
| "join_comma [x] = x"
| "join_comma (x # y # ys) = x @ '', '' @ join_comma (y # ys)"

definition valid_log_levels :: "string list" where
  "valid_log_levels = [''trace'', ''debug'', ''info'', ''warn'', ''error'']"

definition validate_cli_config :: "CliConfig \<Rightarrow> string + unit" where
  "validate_cli_config c =
     (if cf_default_ttl c < 60 \<or> cf_default_ttl c > 86400 then
        Inl ''Default TTL must be between 60 and 86400 seconds''
      else if cf_log_level c \<notin> set valid_log_levels then
        Inl (''Invalid log level '' @ [CHR 0x27] @ cf_log_level c @ [CHR 0x27] @ ''. Must be one of: '' @ join_comma valid_log_levels)
      else Inr ())"

section \<open>The SSH client\<close>

datatype connect_outcome = Connected | Refused string | Timed_out

datatype auth_outcome = Auth_success | Auth_failure | Auth_error string

datatype open_outcome = Open_ok | Open_rejected | Open_error string

record 'key hub_link =
  hl_connect :: "string \<Rightarrow> connect_outcome"
  hl_auth :: "string \<Rightarrow> 'key \<Rightarrow> auth_outcome"
  hl_forward :: "string \<Rightarrow> u32 \<Rightarrow> string + u32"
  hl_closed :: "instant \<Rightarrow> bool"
  hl_open :: "instant \<Rightarrow> open_outcome"
  hl_decode_key :: "string \<Rightarrow> string + 'key"

record TunnelClientConfig =
  tc_hub_url :: string
  tc_hub_port :: u16
  tc_local_port :: u16
  tc_subdomain :: string
  tc_connection_timeout :: duration
  tc_keep_alive_interval :: duration

definition TunnelClientConfig_default :: TunnelClientConfig where
  "TunnelClientConfig_default =
     \<lparr> tc_hub_url = ''localhost'', tc_hub_port = 2222, tc_local_port = 8080, tc_subdomain = ''test'',
       tc_connection_timeout = from_secs 30, tc_keep_alive_interval = from_secs 60 \<rparr>"

text \<open>The client: whether it holds a session, and how many disconnects it sent.\<close>

record TunnelClient =
  cl_config :: TunnelClientConfig
  cl_session_id :: string
  cl_handle :: bool
  cl_disconnects :: nat

definition TunnelClient_new :: "TunnelClientConfig \<Rightarrow> string \<Rightarrow> TunnelClient" where
  "TunnelClient_new config session_id =
     \<lparr> cl_config = config, cl_session_id = session_id, cl_handle = False, cl_disconnects = 0 \<rparr>"

definition target_addr :: "TunnelClientConfig \<Rightarrow> string" where
  "target_addr c = tc_hub_url c @ '':'' @ dec (unat (tc_hub_port c))"

definition establish_tunnel :: "'key hub_link \<Rightarrow> 'key \<Rightarrow> (TunnelClient, string, unit) act" where
  "establish_tunnel H key c =
     (case hl_connect H (target_addr (cl_config c)) of
        Refused e \<Rightarrow> (Inl (''SSH connection failed: '' @ e), c)
      | Timed_out \<Rightarrow> (Inl ''SSH connection timeout'', c)
      | Connected \<Rightarrow>
          (case hl_auth H (''tunnel-'' @ cl_session_id c) key of
             Auth_success \<Rightarrow> (Inr (), c\<lparr> cl_handle := True \<rparr>)
           | Auth_failure \<Rightarrow> (Inl ''SSH public key authentication failed'', c)
           | Auth_error e \<Rightarrow> (Inl (''SSH public key authentication error: '' @ e), c)))"

definition request_reverse_tunnel :: "'key hub_link \<Rightarrow> u16 \<Rightarrow> (TunnelClient, string, unit) act" where
  "request_reverse_tunnel H allocated_port c =
     (if \<not> cl_handle c then (Inl ''No SSH handle available'', c)
      else (case hl_forward H ''0.0.0.0'' (ucast allocated_port) of
          Inl e \<Rightarrow> (Inl (''Failed to send tcpip-forward request: '' @ e), c)
        | Inr _ \<Rightarrow> (Inr (), c)))"

definition is_connected :: "'key hub_link \<Rightarrow> instant \<Rightarrow> TunnelClient \<Rightarrow> bool" where
  "is_connected H now c = (cl_handle c \<and> \<not> hl_closed H now)"

definition send_keepalive :: "'key hub_link \<Rightarrow> instant \<Rightarrow> TunnelClient \<Rightarrow> string + unit" where
  "send_keepalive H now c =
     (if \<not> cl_handle c then Inl ''No active SSH handle''
      else if hl_closed H now then Inl ''SSH session closed''
      else (case hl_open H now of
          Open_ok \<Rightarrow> Inr ()
        | Open_rejected \<Rightarrow> Inr ()
        | Open_error e \<Rightarrow> Inl (''keepalive failed: '' @ e)))"

definition close_client :: "(TunnelClient, string, unit) act" where
  "close_client c =
     (Inr (), if cl_handle c then c\<lparr> cl_handle := False, cl_disconnects := cl_disconnects c + 1 \<rparr> else c)"

text \<open>
  Holding the tunnel open, from the reading \<open>now\<close> of the clock: the \<open>k\<close>-th sleep ends \<open>late k\<close> after the
  interval, and the keepalive after it takes \<open>takes k\<close>.  The result carries the time it ended.  The loop
  has no bound of its own: \<open>None\<close> would be a loop that does not return.
\<close>

partial_function (option) run_until_expiry ::
    "'key hub_link \<Rightarrow> (nat \<Rightarrow> duration) \<Rightarrow> (nat \<Rightarrow> duration) \<Rightarrow> instant \<Rightarrow> nat \<Rightarrow> instant \<Rightarrow> TunnelClient
      \<Rightarrow> (((string + unit) \<times> TunnelClient) \<times> instant) option" where
  "run_until_expiry H late takes expires_at k now c =
     (if now \<ge> expires_at then Some (close_client c, now)
      else
        let wake = now + int (tc_keep_alive_interval (cl_config c)) + int (late k) in
        if \<not> is_connected H wake c
        then Some ((Inl ''SSH session to EdgeHub dropped (detected within one keepalive interval)'', c), wake)
        else (case send_keepalive H wake c of
            Inl e \<Rightarrow> Some ((Inl (''SSH session lost: '' @ e), c), wake + int (takes k))
          | Inr _ \<Rightarrow> run_until_expiry H late takes expires_at (Suc k) (wake + int (takes k)) c))"

section \<open>Sessions\<close>

datatype CliTunnelStatus = Cli_Creating | Cli_Active | Cli_Closing | Cli_Closed | Cli_Error string

record TunnelSession =
  ts_id :: string
  ts_fqdn :: string
  ts_slot :: u16
  ts_pubkey :: string
  ts_cert :: string
  ts_private_key :: string
  ts_expires_at :: instant
  ts_github_id :: string
  ts_local_port :: u16
  ts_status :: CliTunnelStatus

record TunnelManager =
  tm_keys :: SshKeyManager
  tm_sessions :: "(string, TunnelSession) hmap"

definition TunnelManager_new :: "cli_env \<Rightarrow> (fsys, FleetingDnsError, TunnelManager) act" where
  "TunnelManager_new E = bind_act (SshKeyManager_new E) (\<lambda>km. ret \<lparr> tm_keys = km, tm_sessions = [] \<rparr>)"

definition set_status :: "string \<Rightarrow> CliTunnelStatus \<Rightarrow> TunnelManager \<Rightarrow> TunnelManager" where
  "set_status i st m =
     (case hget (tm_sessions m) i of
        Some s \<Rightarrow> m\<lparr> tm_sessions := hput i (s\<lparr> ts_status := st \<rparr>) (tm_sessions m) \<rparr>
      | None \<Rightarrow> m)"

definition subdomain_name_of :: "IssuedKeyPair \<Rightarrow> string option \<Rightarrow> string" where
  "subdomain_name_of k subdomain =
     (case kp_subdomain k of Some s \<Rightarrow> s | None \<Rightarrow> (case subdomain of Some s \<Rightarrow> s | None \<Rightarrow> ''test''))"

definition fqdn_of :: "cli_env \<Rightarrow> IssuedKeyPair \<Rightarrow> string \<Rightarrow> string" where
  "fqdn_of E k subdomain_name =
     (case kp_fqdn k of
        Some f \<Rightarrow> f
      | None \<Rightarrow> subdomain_name @ ''.'' @ (case ce_vars E ''EDF_PUBLIC_DOMAIN'' of Some d \<Rightarrow> d | None \<Rightarrow> ''fleetingdns.run''))"

definition new_session :: "cli_env \<Rightarrow> IssuedKeyPair \<Rightarrow> u16 \<Rightarrow> string option \<Rightarrow> TunnelSession" where
  "new_session E k port subdomain =
     \<lparr> ts_id = kp_session_id k, ts_fqdn = fqdn_of E k (subdomain_name_of k subdomain), ts_slot = kp_slot k,
       ts_pubkey = kp_public_key k, ts_cert = [], ts_private_key = kp_private_key k, ts_expires_at = kp_expires_at k,
       ts_github_id = [], ts_local_port = port, ts_status = Cli_Creating \<rparr>"

text \<open>The host part of the configured hub, up to the first colon.\<close>

definition hub_host :: "string \<Rightarrow> string" where
  "hub_host hub_url = hd (split_on (CHR '':'') hub_url)"

definition client_for :: "IssuedKeyPair \<Rightarrow> u16 \<Rightarrow> string option \<Rightarrow> string option \<Rightarrow> u16 option \<Rightarrow> TunnelClient" where
  "client_for k port subdomain hub_url hub_port =
     TunnelClient_new
       \<lparr> tc_hub_url = hub_host (case hub_url of Some u \<Rightarrow> u | None \<Rightarrow> ''localhost''),
         tc_hub_port = (case hub_port of Some p \<Rightarrow> p | None \<Rightarrow> 2222), tc_local_port = port,
         tc_subdomain = subdomain_name_of k subdomain, tc_connection_timeout = from_secs 30,
         tc_keep_alive_interval = from_secs 60 \<rparr> (kp_session_id k)"

text \<open>
  The end of an open tunnel: at its expiry or when the session is lost, unless the user interrupts it
  before (\<open>ctrl_c\<close>), which closes it.
\<close>

definition hold_tunnel ::
    "'key hub_link \<Rightarrow> (nat \<Rightarrow> duration) \<Rightarrow> (nat \<Rightarrow> duration) \<Rightarrow> instant option \<Rightarrow> instant \<Rightarrow> instant \<Rightarrow> TunnelClient
      \<Rightarrow> (string + unit) option" where
  "hold_tunnel H late takes ctrl_c expires_at now c =
     (case run_until_expiry H late takes expires_at 0 now c of
        None \<Rightarrow> (case ctrl_c of None \<Rightarrow> None | Some _ \<Rightarrow> Some (fst (close_client c)))
      | Some ((r, _), t) \<Rightarrow>
          (case ctrl_c of
             Some t' \<Rightarrow> if t' < t then Some (fst (close_client c)) else Some r
           | None \<Rightarrow> Some r))"

definition end_status :: "string + unit \<Rightarrow> CliTunnelStatus" where
  "end_status r = (case r of Inr _ \<Rightarrow> Cli_Closed | Inl e \<Rightarrow> Cli_Error e)"

text \<open>
  Everything after the key pair is there, on the manager that has the new session.
\<close>

definition run_session ::
    "'key hub_link \<Rightarrow> (nat \<Rightarrow> duration) \<Rightarrow> (nat \<Rightarrow> duration) \<Rightarrow> instant option \<Rightarrow> instant \<Rightarrow> TunnelClient \<Rightarrow> IssuedKeyPair
      \<Rightarrow> TunnelManager \<Rightarrow> ((string + unit) \<times> TunnelManager) option" where
  "run_session H late takes ctrl_c now c k m =
     (case hl_decode_key H (kp_private_key k) of
        Inl e \<Rightarrow> Some (Inl (''API-issued private key failed to parse: '' @ e), m)
      | Inr ssh_key \<Rightarrow>
          (case establish_tunnel H ssh_key c of
             (Inl e, c1) \<Rightarrow> Some (Inl (''SSH connection failed: '' @ e), set_status (kp_session_id k) (Cli_Error e) m)
           | (Inr _, c1) \<Rightarrow>
               (case request_reverse_tunnel H (kp_slot k) c1 of
                  (Inl e, c2) \<Rightarrow>
                    Some (Inl (''Reverse tunnel establishment failed: '' @ e), set_status (kp_session_id k) (Cli_Error e) m)
                | (Inr _, c2) \<Rightarrow>
                    map_option (\<lambda>r. (r, set_status (kp_session_id k) (end_status r) (set_status (kp_session_id k) Cli_Active m)))
                      (hold_tunnel H late takes ctrl_c (kp_expires_at k) now c2))))"

definition forward ::
    "cli_env \<Rightarrow> 'key hub_link \<Rightarrow> (nat \<Rightarrow> duration) \<Rightarrow> (nat \<Rightarrow> duration) \<Rightarrow> instant option \<Rightarrow> (nat \<Rightarrow> instant)
      \<Rightarrow> u16 \<Rightarrow> u32 \<Rightarrow> string option \<Rightarrow> string option \<Rightarrow> u16 option \<Rightarrow> TunnelManager \<times> fsys
      \<Rightarrow> ((string + unit) \<times> TunnelManager \<times> fsys) option" where
  "forward E H late takes ctrl_c clk port ttl subdomain hub_url hub_port = (\<lambda>(m, fs).
     (case get_or_request_key_pair E clk ttl port subdomain (tm_keys m) fs of
        (Inl e, fs1) \<Rightarrow> Some (Inl (fd_to_string e), m, fs1)
      | (Inr k, fs1) \<Rightarrow>
          let m1 = m\<lparr> tm_sessions := hput (kp_session_id k) (new_session E k port subdomain) (tm_sessions m) \<rparr> in
          map_option (\<lambda>(r, m2). (r, m2, fs1))
            (run_session H late takes ctrl_c (clk 3) (client_for k port subdomain hub_url hub_port) k m1)))"

definition close_session :: "string \<Rightarrow> TunnelManager \<Rightarrow> TunnelManager" where
  "close_session i m =
     (case hget (tm_sessions m) i of
        Some _ \<Rightarrow> (let m1 = set_status i Cli_Closing m in m1\<lparr> tm_sessions := hdel i (tm_sessions m1) \<rparr>)
      | None \<Rightarrow> m)"

definition cleanup_expired_sessions :: "instant \<Rightarrow> TunnelManager \<Rightarrow> TunnelManager" where
  "cleanup_expired_sessions now m =
     (let expired_ids = map fst (filter (\<lambda>(_, s). ts_expires_at s < now) (tm_sessions m)) in
      m\<lparr> tm_sessions := fold hdel expired_ids (tm_sessions m) \<rparr>)"

section \<open>Commands\<close>

datatype Commands = Forward u16 u32 "string option" | KeysRequest | KeysStatus | KeysCleanup | KeysTest | ListTunnels | Close string

text \<open>\<open>str::parse::<u16>\<close>: an optional plus sign and decimal digits in range.\<close>

definition parse_u16 :: "string \<Rightarrow> u16 option" where
  "parse_u16 t =
     (let ds = (case t of c # cs \<Rightarrow> if c = CHR ''+'' then cs else t | [] \<Rightarrow> t) in
      case parse_nat ds of Some n \<Rightarrow> (if n < 65536 then Some (of_nat n) else None) | None \<Rightarrow> None)"

definition hub_port_of :: "string \<Rightarrow> u16" where
  "hub_port_of hub_url =
     (case split_on (CHR '':'') hub_url of
        _ # p # _ \<Rightarrow> (case parse_u16 p of Some n \<Rightarrow> n | None \<Rightarrow> 2222)
      | _ \<Rightarrow> 2222)"

definition check_forward_ttl :: "u32 \<Rightarrow> string + unit" where
  "check_forward_ttl ttl =
     (if ttl < 60 then Inl ''TTL must be at least 60 seconds''
      else if ttl > 86400 then Inl ''TTL cannot exceed 86400 seconds (24 hours)''
      else Inr ())"

text \<open>How a command fails: with a message, or with a key error shown in its debug form.\<close>

datatype cli_failure = Failed_with string | Key_status_failed FleetingDnsError

type_synonym cli_result = "((cli_failure + unit) \<times> fsys) option"

definition with_manager :: "cli_env \<Rightarrow> (TunnelManager \<Rightarrow> fsys \<Rightarrow> cli_result) \<Rightarrow> fsys \<Rightarrow> cli_result" where
  "with_manager E body fs =
     (case TunnelManager_new E fs of (Inl e, fs1) \<Rightarrow> Some (Inl (Failed_with (fd_to_string e)), fs1) | (Inr m, fs1) \<Rightarrow> body m fs1)"

definition with_keys :: "cli_env \<Rightarrow> (SshKeyManager \<Rightarrow> fsys \<Rightarrow> (cli_failure + unit) \<times> fsys) \<Rightarrow> fsys \<Rightarrow> cli_result" where
  "with_keys E body fs =
     (case SshKeyManager_new E fs of (Inl e, fs1) \<Rightarrow> Some (Inl (Failed_with (fd_to_string e)), fs1) | (Inr km, fs1) \<Rightarrow> Some (body km fs1))"

definition execute_command ::
    "cli_env \<Rightarrow> 'key hub_link \<Rightarrow> (nat \<Rightarrow> duration) \<Rightarrow> (nat \<Rightarrow> duration) \<Rightarrow> instant option \<Rightarrow> (nat \<Rightarrow> instant)
      \<Rightarrow> CliConfig \<Rightarrow> Commands option \<Rightarrow> fsys \<Rightarrow> cli_result" where
  "execute_command E H late takes ctrl_c clk config command fs =
     (case command of
        Some (Forward port ttl subdomain) \<Rightarrow>
          (case check_forward_ttl ttl of
             Inl e \<Rightarrow> Some (Inl (Failed_with e), fs)
           | Inr _ \<Rightarrow>
               with_manager E (\<lambda>m fs. map_option (\<lambda>(r, _, fs'). (map_err_res Failed_with r, fs'))
                 (forward E H late takes ctrl_c clk port ttl subdomain (Some (cf_hub_url config))
                   (Some (hub_port_of (cf_hub_url config))) (m, fs))) fs)
      | Some KeysRequest \<Rightarrow>
          with_keys E (\<lambda>km fs. case request_key_pair E (clk 0) (clk 1) 1800 8080 None km fs of
             (Inl e, fs') \<Rightarrow> (Inl (Failed_with (fd_to_string e)), fs') | (Inr _, fs') \<Rightarrow> (Inr (), fs')) fs
      | Some KeysStatus \<Rightarrow>
          with_keys E (\<lambda>km fs. case load_existing_key_pair E (clk 0) km fs of
             (Inr _, fs') \<Rightarrow> (Inr (), fs')
           | (Inl e, fs') \<Rightarrow> (if is_not_found e then Inr () else Inl (Key_status_failed e), fs')) fs
      | Some KeysCleanup \<Rightarrow> with_keys E (\<lambda>km fs. (Inr (), snd (cleanup_session E km fs))) fs
      | Some KeysTest \<Rightarrow>
          with_keys E (\<lambda>km fs. case test_key_storage E (clk 0) (clk 1) km fs of
             (Inl e, fs') \<Rightarrow> (Inl (Failed_with (fd_to_string e)), fs') | (Inr _, fs') \<Rightarrow> (Inr (), fs')) fs
      | Some ListTunnels \<Rightarrow> with_manager E (\<lambda>m fs. Some (Inr (), fs)) fs
      | Some (Close i) \<Rightarrow> with_manager E (\<lambda>m fs. let m' = close_session i m in Some (Inr (), fs)) fs
      | None \<Rightarrow> Some (Inr (), fs))"

section \<open>Holding the tunnel open\<close>

definition link_lost :: "'key hub_link \<Rightarrow> instant \<Rightarrow> TunnelClient \<Rightarrow> bool" where
  "link_lost H t c \<longleftrightarrow> \<not> is_connected H t c \<or> \<not> is_ok (send_keepalive H t c)"

lemma run_until_expiry_ends:
  assumes interval: "0 < tc_keep_alive_interval (cl_config c)" and bound: "\<forall>k. late k + takes k \<le> L"
  shows "\<exists>r c' t. run_until_expiry H late takes expires_at k now c = Some ((r, c'), t) \<and> now \<le> t
    \<and> t \<le> max now (expires_at + int (tc_keep_alive_interval (cl_config c)) + int L)
    \<and> (case r of Inr _ \<Rightarrow> expires_at \<le> t \<and> c' = snd (close_client c)
       | Inl _ \<Rightarrow> c' = c \<and> (\<exists>u. now \<le> u \<and> u \<le> t \<and> t \<le> u + int L \<and> link_lost H u c))"
proof (induction "nat (expires_at - now)" arbitrary: now k rule: less_induct)
  case less
  let ?I = "int (tc_keep_alive_interval (cl_config c))"
  let ?wake = "now + ?I + int (late k)"
  have b: "int (late k) + int (takes k) \<le> int L" using bound by (metis of_nat_add of_nat_mono)
  show ?case
  proof (cases "now \<ge> expires_at")
    case True
    then show ?thesis by (subst run_until_expiry.simps) (simp add: close_client_def)
  next
    case False
    show ?thesis
    proof (cases "\<not> is_connected H ?wake c \<or> \<not> is_ok (send_keepalive H ?wake c)")
      case True
      then show ?thesis
        using False b
        by (subst run_until_expiry.simps)
          (auto simp: Let_def link_lost_def split: sum.splits intro!: exI [of _ ?wake])
    next
      case ok: False
      then obtain v where v: "send_keepalive H ?wake c = Inr v" by (cases "send_keepalive H ?wake c") auto
      have run: "run_until_expiry H late takes expires_at k now c =
          run_until_expiry H late takes expires_at (Suc k) (?wake + int (takes k)) c"
        using False ok v by (subst run_until_expiry.simps) (simp add: Let_def)
      have "nat (expires_at - (?wake + int (takes k))) < nat (expires_at - now)" using False interval by simp
      from less [OF this, of "Suc k"] obtain r c' t where
        r: "run_until_expiry H late takes expires_at (Suc k) (?wake + int (takes k)) c = Some ((r, c'), t)"
        and t: "?wake + int (takes k) \<le> t" "t \<le> max (?wake + int (takes k)) (expires_at + ?I + int L)"
        and e: "case r of Inr _ \<Rightarrow> expires_at \<le> t \<and> c' = snd (close_client c)
          | Inl _ \<Rightarrow> c' = c \<and> (\<exists>u. ?wake + int (takes k) \<le> u \<and> u \<le> t \<and> t \<le> u + int L \<and> link_lost H u c)"
        by blast
      have "now \<le> t" "t \<le> expires_at + ?I + int L" using t b False by simp_all
      moreover have "\<exists>u. now \<le> u \<and> u \<le> t \<and> t \<le> u + int L \<and> link_lost H u c"
        if "\<exists>u. ?wake + int (takes k) \<le> u \<and> u \<le> t \<and> t \<le> u + int L \<and> link_lost H u c"
      proof -
        from that obtain u where "?wake + int (takes k) \<le> u" "u \<le> t" "t \<le> u + int L" "link_lost H u c" by blast
        then show ?thesis by (intro exI [of _ u]) simp
      qed
      ultimately show ?thesis unfolding run r using e by (cases r) auto
    qed
  qed
qed

lemma hold_tunnel_ends:
  assumes "0 < tc_keep_alive_interval (cl_config c)" and "\<forall>k. late k + takes k \<le> L"
  shows "\<exists>r. hold_tunnel H late takes ctrl_c expires_at now c = Some r
    \<and> (case r of Inl _ \<Rightarrow> \<exists>u\<ge>now. link_lost H u c
       | Inr _ \<Rightarrow> ctrl_c \<noteq> None \<or> (\<exists>t. run_until_expiry H late takes expires_at 0 now c = Some ((Inr (), snd (close_client c)), t) \<and> expires_at \<le> t))"
proof -
  obtain r c' t where r: "run_until_expiry H late takes expires_at 0 now c = Some ((r, c'), t)"
    and e: "case r of Inr _ \<Rightarrow> expires_at \<le> t \<and> c' = snd (close_client c)
       | Inl _ \<Rightarrow> c' = c \<and> (\<exists>u. now \<le> u \<and> u \<le> t \<and> t \<le> u + int L \<and> link_lost H u c)"
    using run_until_expiry_ends [OF assms] by blast
  show ?thesis using e by (cases r) (auto simp: hold_tunnel_def r close_client_def split: option.splits if_splits)
qed

section \<open>The outcome of a forward command\<close>

lemma set_status_get:
  "hget (tm_sessions (set_status i st m)) j =
     (if j = i then map_option (\<lambda>s. s\<lparr> ts_status := st \<rparr>) (hget (tm_sessions m) i) else hget (tm_sessions m) j)"
  by (auto simp: set_status_def split: option.splits)

text \<open>What a successful end presupposes, and how the session is marked at the end.\<close>

definition tunnel_was_up :: "'key hub_link \<Rightarrow> TunnelClient \<Rightarrow> IssuedKeyPair \<Rightarrow> bool" where
  "tunnel_was_up H c k \<longleftrightarrow>
     (\<exists>key. hl_decode_key H (kp_private_key k) = Inr key \<and> hl_connect H (target_addr (cl_config c)) = Connected
        \<and> hl_auth H (''tunnel-'' @ kp_session_id k) key = Auth_success)
     \<and> is_ok (hl_forward H ''0.0.0.0'' (ucast (kp_slot k)))"

lemma establish_request:
  assumes "establish_tunnel H key c = (Inr u, c1)" and "request_reverse_tunnel H slot c1 = (Inr v, c2)"
  shows "c2 = c\<lparr> cl_handle := True \<rparr>" "hl_connect H (target_addr (cl_config c)) = Connected"
    "hl_auth H (''tunnel-'' @ cl_session_id c) key = Auth_success" "is_ok (hl_forward H ''0.0.0.0'' (ucast slot))"
  using assms
  by (auto simp: establish_tunnel_def request_reverse_tunnel_def is_ok_def
      split: connect_outcome.splits auth_outcome.splits sum.splits if_splits)

lemma run_session_outcome:
  assumes interval: "0 < tc_keep_alive_interval (cl_config c)" and bound: "\<forall>k. late k + takes k \<le> L"
    and id: "cl_session_id c = kp_session_id k" and s: "hget (tm_sessions m) (kp_session_id k) = Some s"
    and fresh: "ts_status s = Cli_Creating"
  shows "\<exists>r m' st. run_session H late takes ctrl_c now c k m = Some (r, m')
    \<and> hget (tm_sessions m') (kp_session_id k) = Some (s\<lparr> ts_status := st \<rparr>)
    \<and> (case r of
         Inr _ \<Rightarrow> st = Cli_Closed \<and> tunnel_was_up H c k
       | Inl _ \<Rightarrow> st = Cli_Creating \<and> \<not> is_ok (hl_decode_key H (kp_private_key k)) \<or> (\<exists>e. st = Cli_Error e)
           \<and> (\<not> tunnel_was_up H c k \<or> (\<exists>t\<ge>now. link_lost H t (c\<lparr> cl_handle := True \<rparr>))))"
proof (cases "hl_decode_key H (kp_private_key k)")
  case (Inl e)
  then show ?thesis using s fresh by (auto simp: run_session_def intro!: exI [of _ Cli_Creating])
next
  case (Inr key)
  obtain r1 c1 where e1: "establish_tunnel H key c = (r1, c1)" by (cases "establish_tunnel H key c")
  obtain r2 c2 where e2: "request_reverse_tunnel H (kp_slot k) c1 = (r2, c2)" by (cases "request_reverse_tunnel H (kp_slot k) c1")
  show ?thesis
  proof (cases "is_ok r1 \<and> is_ok r2")
    case False
    have down: "\<not> tunnel_was_up H c k"
    proof
      assume "tunnel_was_up H c k"
      then have up: "hl_connect H (target_addr (cl_config c)) = Connected"
        "hl_auth H (''tunnel-'' @ cl_session_id c) key = Auth_success" "is_ok (hl_forward H ''0.0.0.0'' (ucast (kp_slot k)))"
        using Inr id by (auto simp: tunnel_was_up_def)
      then have c1: "r1 = Inr ()" "c1 = c\<lparr> cl_handle := True \<rparr>" using e1 by (simp_all add: establish_tunnel_def)
      then have "is_ok r2" using e2 up(3)
        by (cases "hl_forward H ''0.0.0.0'' (ucast (kp_slot k))") (auto simp: request_reverse_tunnel_def)
      then show False using False c1 by simp
    qed
    show ?thesis
    proof (cases r1)
      case (Inl e)
      then show ?thesis
        using down s by (intro exI [of _ "Inl (''SSH connection failed: '' @ e)"] exI [of _ "set_status (kp_session_id k) (Cli_Error e) m"]
            exI [of _ "Cli_Error e"]) (simp add: run_session_def \<open>hl_decode_key H (kp_private_key k) = Inr key\<close> e1 set_status_get)
    next
      case r1: (Inr u)
      then obtain e where "r2 = Inl e" using False by (cases r2) auto
      then show ?thesis
        using down s r1 by (intro exI [of _ "Inl (''Reverse tunnel establishment failed: '' @ e)"]
            exI [of _ "set_status (kp_session_id k) (Cli_Error e) m"] exI [of _ "Cli_Error e"])
          (simp add: run_session_def Inr e1 e2 set_status_get)
    qed
  next
    case True
    then obtain u v where uv: "r1 = Inr u" "r2 = Inr v" by (cases r1; cases r2) auto
    note up = establish_request [OF e1 [unfolded uv] e2 [unfolded uv]]
    have was: "tunnel_was_up H c k" using up Inr id by (auto simp: tunnel_was_up_def)
    have "0 < tc_keep_alive_interval (cl_config c2)" using interval by (simp add: up(1))
    from hold_tunnel_ends [OF this bound, of H ctrl_c "kp_expires_at k" now]
    obtain r where h: "hold_tunnel H late takes ctrl_c (kp_expires_at k) now c2 = Some r"
      and lost: "\<And>e. r = Inl e \<Longrightarrow> \<exists>u\<ge>now. link_lost H u c2"
      by fastforce
    let ?m = "set_status (kp_session_id k) (end_status r) (set_status (kp_session_id k) Cli_Active m)"
    have run: "run_session H late takes ctrl_c now c k m = Some (r, ?m)"
      by (simp add: run_session_def Inr e1 e2 uv h)
    have "hget (tm_sessions ?m) (kp_session_id k) = Some (s\<lparr> ts_status := end_status r \<rparr>)"
      by (simp add: set_status_get s)
    with run show ?thesis
      using was lost unfolding up(1)
      by (intro exI [of _ r] exI [of _ ?m] exI [of _ "end_status r"]) (simp add: end_status_def split: sum.split)
  qed
qed

text \<open>
  In a release build the hub address is cut at the first colon of its URL, so that the client dials the
  host \<open>https\<close>, whatever the configuration was.
\<close>

lemma release_build_dials_https:
  "target_addr (cl_config (client_for k port subdomain (Some (cf_hub_url (build_endpoints False config)))
     (Some (hub_port_of (cf_hub_url (build_endpoints False config)))))) = ''https:2222''"
  by (simp add: build_endpoints_def client_for_def TunnelClient_new_def target_addr_def hub_host_def hub_port_of_def
      parse_u16_def parse_nat_def is_ascii_digit_def dec.simps digit_char_def)

text \<open>Closing a tunnel by its id acts on the sessions of the new process, of which there are none.\<close>

lemma close_command_closes_nothing:
  "execute_command E H late takes ctrl_c clk config (Some (Close i)) fs = execute_command E H late takes ctrl_c clk config (Some ListTunnels) fs"
  by (simp add: execute_command_def)

section \<open>Properties\<close>


definition demo_link :: "unit hub_link" where
  "demo_link = \<lparr> hl_connect = (\<lambda>a. if a = ''hub:2222'' then Connected else Refused ''unknown host''),
     hl_auth = (\<lambda>user _. if user = ''tunnel-test-session-123'' then Auth_success else Auth_failure),
     hl_forward = (\<lambda>_ p. Inr p), hl_closed = (\<lambda>_. False), hl_open = (\<lambda>_. Open_ok), hl_decode_key = (\<lambda>_. Inr ()) \<rparr>"

definition demo_tunnels :: TunnelManager where
  "demo_tunnels = \<lparr> tm_keys = demo_manager, tm_sessions = [] \<rparr>"


end
