(* ===== verification/Db_Schema.thy ===== *)
theory Db_Schema
  imports Prelude
begin

text \<open>
  The relational schema: the two migrations (\<open>crates/migration/src\<close>), the program that runs them
  (\<open>crates/migration/src/main.rs\<close>) and the entities through which the services use the tables
  (\<open>crates/models/src/entities\<close>).  A migration is the list of statements it sends.  The statements carry
  the Rust identifiers of the source; which SQL name the derive macro \<open>DeriveIden\<close> gives an identifier is an
  argument where a property depends on it.  The database server is an argument as well, specified by the
  interface \<open>sql_server\<close>: it accepts the statements that are admissible for its catalogue.
\<close>

section \<open>Statements\<close>

datatype col_type = StringType | IntegerType | BigIntegerType | FloatType | TimestampType | BooleanType

record column =
  col_name :: string
  col_type :: col_type
  col_primary :: bool

definition string_col :: "string \<Rightarrow> column" where
  "string_col n = \<lparr> col_name = n, col_type = StringType, col_primary = False \<rparr>"

definition integer_col :: "string \<Rightarrow> column" where
  "integer_col n = \<lparr> col_name = n, col_type = IntegerType, col_primary = False \<rparr>"

definition big_integer_col :: "string \<Rightarrow> column" where
  "big_integer_col n = \<lparr> col_name = n, col_type = BigIntegerType, col_primary = False \<rparr>"

definition float_col :: "string \<Rightarrow> column" where
  "float_col n = \<lparr> col_name = n, col_type = FloatType, col_primary = False \<rparr>"

definition timestamp_col :: "string \<Rightarrow> column" where
  "timestamp_col n = \<lparr> col_name = n, col_type = TimestampType, col_primary = False \<rparr>"

definition boolean_col :: "string \<Rightarrow> column" where
  "boolean_col n = \<lparr> col_name = n, col_type = BooleanType, col_primary = False \<rparr>"

definition primary_key :: "column \<Rightarrow> column" where
  "primary_key c = c\<lparr> col_primary := True \<rparr>"

datatype ForeignKeyAction = Cascade | Restrict | SetNull

text \<open>Tables are created with \<open>if_not_exists\<close>; an index has a name, a table, a column and may be unique.\<close>

datatype ddl =
    CreateTable string "column list"
  | DropTable string
  | CreateIndex string string string bool
  | DropIndex string string
  | CreateForeignKey string string string string string ForeignKeyAction
  | DropForeignKey string string

section \<open>First migration: the tables\<close>

definition user_table :: ddl where
  "user_table = CreateTable ''User''
     [primary_key (string_col ''Id''), string_col ''GithubId'', string_col ''Username'', string_col ''Email'',
      string_col ''AvatarUrl'', timestamp_col ''CreatedAt'']"

definition service_plan_table :: ddl where
  "service_plan_table = CreateTable ''ServicePlan''
     [primary_key (string_col ''Id''), string_col ''Name'', integer_col ''ApiRateLimit'',
      integer_col ''TunnelCreationLimit'', integer_col ''DnsProvisioningLimit'',
      integer_col ''MaxConcurrentTunnels'', string_col ''FeaturesJson'', timestamp_col ''CreatedAt'']"

definition pricing_table :: ddl where
  "pricing_table = CreateTable ''Pricing''
     [primary_key (string_col ''Id''), string_col ''ServicePlanId'', float_col ''Price'',
      string_col ''Currency'', string_col ''Region'', timestamp_col ''ValidFrom'', timestamp_col ''ValidTo'',
      string_col ''Description'']"

definition user_service_plan_table :: ddl where
  "user_service_plan_table = CreateTable ''UserServicePlan''
     [primary_key (string_col ''Id''), string_col ''UserId'', string_col ''ServicePlanId'',
      timestamp_col ''StartDate'', timestamp_col ''EndDate'', boolean_col ''IsActive'']"

definition tunnel_table :: ddl where
  "tunnel_table = CreateTable ''Tunnel''
     [primary_key (string_col ''Id''), string_col ''UserId'', string_col ''Subdomain'', string_col ''Fqdn'',
      integer_col ''LocalPort'', integer_col ''Slot'', string_col ''CertificateSerial'',
      string_col ''SshKeyPairId'', timestamp_col ''CreatedAt'', timestamp_col ''ExpiresAt'',
      string_col ''Status'', big_integer_col ''BytesTransferred'', big_integer_col ''RequestCount'']"

definition ssh_key_pair_table :: ddl where
  "ssh_key_pair_table = CreateTable ''SshKeyPair''
     [primary_key (string_col ''Id''), string_col ''PrivateKey'', string_col ''PublicKey'',
      string_col ''Fingerprint'']"

definition auth_token_table :: ddl where
  "auth_token_table = CreateTable ''AuthToken''
     [primary_key (string_col ''Token''), string_col ''TokenType'', timestamp_col ''ExpiresAt'',
      string_col ''UserId'']"

definition certificate_info_table :: ddl where
  "certificate_info_table = CreateTable ''CertificateInfo''
     [primary_key (string_col ''Serial''), string_col ''Certificate'', string_col ''PrivateKey'',
      string_col ''Fingerprint'', timestamp_col ''IssuedAt'', timestamp_col ''ExpiresAt'',
      string_col ''Subject'']"

definition api_stats_table :: ddl where
  "api_stats_table = CreateTable ''ApiStats''
     [primary_key (string_col ''Id''), integer_col ''ActiveTunnels'', integer_col ''TunnelsCreatedToday'',
      big_integer_col ''BytesTransferredToday'', integer_col ''UptimeSeconds'', string_col ''CaStatsId'']"

definition ca_stats_table :: ddl where
  "ca_stats_table = CreateTable ''CaStats''
     [primary_key (string_col ''Id''), integer_col ''CertificatesIssued'', integer_col ''ActiveCertificates'',
      integer_col ''ExpiredCertificates'', float_col ''IssuanceRate'']"

definition payment_info_table :: ddl where
  "payment_info_table = CreateTable ''PaymentInfo''
     [primary_key (string_col ''Id''), string_col ''UserId'', string_col ''StripeCustomerId'',
      string_col ''StripeSubscriptionId'', timestamp_col ''LastPaymentDate'',
      timestamp_col ''NextPaymentDate'']"

definition user_usage_table :: ddl where
  "user_usage_table = CreateTable ''UserUsage''
     [primary_key (string_col ''Id''), string_col ''UserId'', timestamp_col ''PeriodStart'',
      integer_col ''ApiCallsCount'', integer_col ''TunnelsCreatedCount'', integer_col ''DnsOperationsCount'',
      integer_col ''ActiveTunnelsCount'']"

definition audit_log_table :: ddl where
  "audit_log_table = CreateTable ''AuditLog''
     [primary_key (string_col ''Id''), string_col ''UserId'', string_col ''Action'', string_col ''Resource'',
      timestamp_col ''Timestamp'', string_col ''DetailsJson'']"

definition billing_event_table :: ddl where
  "billing_event_table = CreateTable ''BillingEvent''
     [primary_key (string_col ''Id''), string_col ''UserId'', string_col ''ServicePlanId'',
      string_col ''EventType'', float_col ''Amount'', timestamp_col ''EventTime'', string_col ''DetailsJson'']"

definition create_schema_up :: "ddl list" where
  "create_schema_up =
     [user_table, service_plan_table, pricing_table, user_service_plan_table, tunnel_table,
      ssh_key_pair_table, auth_token_table, certificate_info_table, api_stats_table, ca_stats_table,
      payment_info_table, user_usage_table, audit_log_table, billing_event_table]"

definition create_schema_down :: "ddl list" where
  "create_schema_down = map DropTable
     [''BillingEvent'', ''AuditLog'', ''UserUsage'', ''PaymentInfo'', ''CaStats'', ''ApiStats'',
      ''CertificateInfo'', ''AuthToken'', ''SshKeyPair'', ''Tunnel'', ''UserServicePlan'', ''Pricing'',
      ''ServicePlan'', ''User'']"

definition add_constraints_indexes :: "ddl list" where
  "add_constraints_indexes =
     [CreateIndex ''idx_service_plan_name_unique'' ''ServicePlan'' ''Name'' True,
      CreateIndex ''idx_user_github_id_unique'' ''User'' ''GithubId'' True,
      CreateIndex ''idx_user_email_unique'' ''User'' ''Email'' True,
      CreateIndex ''idx_tunnel_subdomain_unique'' ''Tunnel'' ''Subdomain'' True,
      CreateIndex ''idx_tunnel_fqdn_unique'' ''Tunnel'' ''Fqdn'' True,
      CreateIndex ''idx_ssh_key_pair_fingerprint_unique'' ''SshKeyPair'' ''Fingerprint'' True,
      CreateIndex ''idx_certificate_info_fingerprint_unique'' ''CertificateInfo'' ''Fingerprint'' True]"

definition add_constraints_foreign_keys :: "ddl list" where
  "add_constraints_foreign_keys =
     [CreateForeignKey ''fk_pricing_service_plan_id'' ''Pricing'' ''ServicePlanId'' ''ServicePlan'' ''Id'' Cascade,
      CreateForeignKey ''fk_user_service_plan_user_id'' ''UserServicePlan'' ''UserId'' ''User'' ''Id'' Cascade,
      CreateForeignKey ''fk_user_service_plan_service_plan_id'' ''UserServicePlan'' ''ServicePlanId'' ''ServicePlan'' ''Id'' Restrict,
      CreateForeignKey ''fk_tunnel_user_id'' ''Tunnel'' ''UserId'' ''User'' ''Id'' Cascade,
      CreateForeignKey ''fk_tunnel_ssh_key_pair_id'' ''Tunnel'' ''SshKeyPairId'' ''SshKeyPair'' ''Id'' SetNull,
      CreateForeignKey ''fk_tunnel_certificate_serial'' ''Tunnel'' ''CertificateSerial'' ''CertificateInfo'' ''Serial'' SetNull,
      CreateForeignKey ''fk_auth_token_user_id'' ''AuthToken'' ''UserId'' ''User'' ''Id'' Cascade,
      CreateForeignKey ''fk_payment_info_user_id'' ''PaymentInfo'' ''UserId'' ''User'' ''Id'' Cascade,
      CreateForeignKey ''fk_user_usage_user_id'' ''UserUsage'' ''UserId'' ''User'' ''Id'' Cascade,
      CreateForeignKey ''fk_audit_log_user_id'' ''AuditLog'' ''UserId'' ''User'' ''Id'' Cascade,
      CreateForeignKey ''fk_billing_event_user_id'' ''BillingEvent'' ''UserId'' ''User'' ''Id'' Cascade,
      CreateForeignKey ''fk_billing_event_service_plan_id'' ''BillingEvent'' ''ServicePlanId'' ''ServicePlan'' ''Id'' Cascade,
      CreateForeignKey ''fk_api_stats_ca_stats_id'' ''ApiStats'' ''CaStatsId'' ''CaStats'' ''Id'' Cascade]"

definition add_constraints_down :: "ddl list" where
  "add_constraints_down =
     map (\<lambda>(n, t). DropForeignKey n t)
      [(''fk_api_stats_ca_stats_id'', ''ApiStats''),
       (''fk_billing_event_service_plan_id'', ''BillingEvent''),
       (''fk_billing_event_user_id'', ''BillingEvent''),
       (''fk_audit_log_user_id'', ''AuditLog''),
       (''fk_user_usage_user_id'', ''UserUsage''),
       (''fk_payment_info_user_id'', ''PaymentInfo''),
       (''fk_auth_token_user_id'', ''AuthToken''),
       (''fk_tunnel_certificate_serial'', ''Tunnel''),
       (''fk_tunnel_ssh_key_pair_id'', ''Tunnel''),
       (''fk_tunnel_user_id'', ''Tunnel''),
       (''fk_user_service_plan_service_plan_id'', ''UserServicePlan''),
       (''fk_user_service_plan_user_id'', ''UserServicePlan''),
       (''fk_pricing_service_plan_id'', ''Pricing'')]
     @ map (\<lambda>(n, t). DropIndex n t)
      [(''idx_certificate_info_fingerprint_unique'', ''CertificateInfo''),
       (''idx_ssh_key_pair_fingerprint_unique'', ''SshKeyPair''),
       (''idx_tunnel_fqdn_unique'', ''Tunnel''),
       (''idx_tunnel_subdomain_unique'', ''Tunnel''),
       (''idx_user_email_unique'', ''User''),
       (''idx_user_github_id_unique'', ''User''),
       (''idx_service_plan_name_unique'', ''ServicePlan'')]"

section \<open>Names\<close>

text \<open>
  What \<open>DeriveIden\<close> documents: an identifier becomes its snake case, and \<open>Table\<close> the snake case of the
  enumeration.
\<close>

definition lower_of :: "char \<Rightarrow> char option" where
  "lower_of c = map_of (zip ''ABCDEFGHIJKLMNOPQRSTUVWXYZ'' ''abcdefghijklmnopqrstuvwxyz'') c"

fun snake_rest :: "string \<Rightarrow> string" where
  "snake_rest [] = []"
| "snake_rest (c # cs) = (case lower_of c of Some l \<Rightarrow> CHR ''_'' # l # snake_rest cs | None \<Rightarrow> c # snake_rest cs)"

definition snake_case :: "string \<Rightarrow> string" where
  "snake_case s = (case s of [] \<Rightarrow> [] | c # cs \<Rightarrow> (case lower_of c of Some l \<Rightarrow> l | None \<Rightarrow> c) # snake_rest cs)"

section \<open>Running the migrations\<close>

text \<open>The statements of a migration are sent one after the other, up to the first error.\<close>

fun run_ddl :: "(ddl \<Rightarrow> ('d, string, unit) act) \<Rightarrow> ddl list \<Rightarrow> ('d, string, unit) act" where
  "run_ddl exec [] = ret ()"
| "run_ddl exec (st # sts) = seq_act (exec st) (run_ddl exec sts)"

definition migrations :: "(ddl list \<times> ddl list) list" where
  "migrations = [(create_schema_up, create_schema_down),
                 (add_constraints_indexes @ add_constraints_foreign_keys, add_constraints_down)]"

definition migrator_up :: "(ddl \<Rightarrow> ('d, string, unit) act) \<Rightarrow> ('d, string, unit) act" where
  "migrator_up exec = run_ddl exec (concat (map fst migrations))"

definition migrator_down :: "(ddl \<Rightarrow> ('d, string, unit) act) \<Rightarrow> ('d, string, unit) act" where
  "migrator_down exec = run_ddl exec (concat (map snd (rev migrations)))"

text \<open>The outcome of connection attempt \<open>k\<close> is \<open>connect k\<close>; between attempts the program sleeps two seconds.\<close>

fun connect_from :: "(nat \<Rightarrow> string + unit) \<Rightarrow> nat \<Rightarrow> nat \<Rightarrow> string option \<Rightarrow> string + unit" where
  "connect_from connect k 0 last_err =
     Inl (case last_err of Some e \<Rightarrow> e | None \<Rightarrow> ''Custom Error: no connection attempts made'')"
| "connect_from connect k (Suc n) last_err =
     (case connect k of Inr db \<Rightarrow> Inr db | Inl e \<Rightarrow> connect_from connect (Suc k) n (Some e))"

definition connect_with_retry :: "(nat \<Rightarrow> string + unit) \<Rightarrow> nat \<Rightarrow> string + unit" where
  "connect_with_retry connect attempts = connect_from connect 1 attempts None"

text \<open>The operations \<open>status\<close> and \<open>fresh\<close> are the library's own.\<close>

definition migration_main ::
    "(nat \<Rightarrow> string + unit) \<Rightarrow> (ddl \<Rightarrow> ('d, string, unit) act) \<Rightarrow> ('d, string, unit) act
      \<Rightarrow> ('d, string, unit) act \<Rightarrow> string option \<Rightarrow> string option \<Rightarrow> ('d, string, unit) act" where
  "migration_main connect exec status fresh arg url =
     (let cmd = (case arg of Some c \<Rightarrow> c | None \<Rightarrow> ''up'') in
      case url of
        None \<Rightarrow> fail ''DATABASE_URL environment variable must be set''
      | Some _ \<Rightarrow>
          seq_act (lift_res (connect_with_retry connect 30))
            (if cmd = ''up'' then migrator_up exec
             else if cmd = ''down'' then migrator_down exec
             else if cmd = ''status'' then status
             else if cmd = ''fresh'' then fresh
             else fail (''unknown command '' @ [CHR 0x27] @ cmd @ [CHR 0x27] @ ''; use up|down|status|fresh'')))"

section \<open>What the server does with the statements\<close>

record catalog =
  cat_tables :: "(string \<times> column list) list"
  cat_indexes :: "(string \<times> string \<times> string \<times> bool) list"
  cat_foreign_keys :: "(string \<times> string \<times> string \<times> string \<times> string) list"

definition empty_catalog :: catalog where
  "empty_catalog = \<lparr> cat_tables = [], cat_indexes = [], cat_foreign_keys = [] \<rparr>"

definition column_of :: "catalog \<Rightarrow> string \<Rightarrow> string \<Rightarrow> column option" where
  "column_of c t n = (case map_of (cat_tables c) t of None \<Rightarrow> None | Some cols \<Rightarrow> find (\<lambda>x. col_name x = n) cols)"

text \<open>
  When SQL admits a statement: names that are introduced are new, names that are used exist, a foreign key
  connects columns of one type and points to a key, and a dropped table is no longer referred to.
\<close>

fun admissible :: "catalog \<Rightarrow> ddl \<Rightarrow> bool" where
  "admissible c (CreateTable t cols) \<longleftrightarrow> distinct (map col_name cols) \<and> length (filter col_primary cols) \<le> 1"
| "admissible c (DropTable t) \<longleftrightarrow>
     map_of (cat_tables c) t \<noteq> None \<and> list_all (\<lambda>(n, from, _, to, _). to = t \<longrightarrow> from = t) (cat_foreign_keys c)"
| "admissible c (CreateIndex n t col u) \<longleftrightarrow>
     n \<notin> set (map fst (cat_indexes c)) \<and> n \<notin> set (map fst (cat_tables c)) \<and> column_of c t col \<noteq> None"
| "admissible c (DropIndex n t) \<longleftrightarrow> n \<in> set (map fst (cat_indexes c))"
| "admissible c (CreateForeignKey n t col t' col' a) \<longleftrightarrow>
     list_all (\<lambda>(n', from, _). \<not> (n' = n \<and> from = t)) (cat_foreign_keys c)
     \<and> (case (column_of c t col, column_of c t' col') of
          (Some x, Some y) \<Rightarrow> col_type x = col_type y \<and> col_primary y
        | _ \<Rightarrow> False)"
| "admissible c (DropForeignKey n t) \<longleftrightarrow> list_ex (\<lambda>(n', from, _). n' = n \<and> from = t) (cat_foreign_keys c)"

fun ddl_effect :: "ddl \<Rightarrow> catalog \<Rightarrow> catalog" where
  "ddl_effect (CreateTable t cols) c =
     (if map_of (cat_tables c) t = None then c\<lparr> cat_tables := (t, cols) # cat_tables c \<rparr> else c)"
| "ddl_effect (DropTable t) c =
     c\<lparr> cat_tables := filter (\<lambda>x. fst x \<noteq> t) (cat_tables c),
        cat_indexes := filter (\<lambda>(_, t', _). t' \<noteq> t) (cat_indexes c),
        cat_foreign_keys := filter (\<lambda>(_, from, _). from \<noteq> t) (cat_foreign_keys c) \<rparr>"
| "ddl_effect (CreateIndex n t col u) c = c\<lparr> cat_indexes := (n, t, col, u) # cat_indexes c \<rparr>"
| "ddl_effect (DropIndex n t) c = c\<lparr> cat_indexes := filter (\<lambda>x. fst x \<noteq> n) (cat_indexes c) \<rparr>"
| "ddl_effect (CreateForeignKey n t col t' col' a) c =
     c\<lparr> cat_foreign_keys := (n, t, col, t', col') # cat_foreign_keys c \<rparr>"
| "ddl_effect (DropForeignKey n t) c =
     c\<lparr> cat_foreign_keys := filter (\<lambda>(n', from, _). \<not> (n' = n \<and> from = t)) (cat_foreign_keys c) \<rparr>"

fun all_admissible :: "catalog \<Rightarrow> ddl list \<Rightarrow> bool" where
  "all_admissible c [] = True"
| "all_admissible c (st # sts) = (admissible c st \<and> all_admissible (ddl_effect st c) sts)"

locale sql_server =
  fixes exec :: "ddl \<Rightarrow> ('d, string, unit) act" and cat :: "'d \<Rightarrow> catalog"
  assumes accepts: "admissible (cat d) st \<Longrightarrow> \<exists>d'. exec st d = (Inr (), d') \<and> cat d' = ddl_effect st (cat d)"
begin

lemma run_admissible:
  "all_admissible (cat d) sts \<Longrightarrow> \<exists>d'. run_ddl exec sts d = (Inr (), d') \<and> cat d' = fold ddl_effect sts (cat d)"
proof (induction sts arbitrary: d)
  case (Cons st sts)
  then obtain d1 where "exec st d = (Inr (), d1)" "cat d1 = ddl_effect st (cat d)" using accepts by fastforce
  moreover from this obtain d' where "run_ddl exec sts d1 = (Inr (), d')" "cat d' = fold ddl_effect sts (cat d1)"
    using Cons by (metis all_admissible.simps(2))
  ultimately show ?case by (simp add: seq_act_def bind_act_def)
qed simp

end

text \<open>A server that keeps nothing but its catalogue.\<close>

definition catalog_server :: "ddl \<Rightarrow> (catalog, string, unit) act" where
  "catalog_server st c = (if admissible c st then (Inr (), ddl_effect st c) else (Inl ''inadmissible statement'', c))"

interpretation cats: sql_server catalog_server "\<lambda>c. c"
  by unfold_locales (simp add: catalog_server_def)

section \<open>Entities\<close>

datatype rust_ty = Ty_Uuid | Ty_String | Ty_i32 | Ty_i64 | Ty_f64 | Ty_bool | Ty_DateTime | Opt rust_ty

text \<open>
  An entity: its module, the table it names, its key, its fields, the rows it belongs to (own column,
  entity, column there), the entities it has many of, and the columns declared unique.
\<close>

record entity =
  en_module :: string
  en_table :: string
  en_key :: string
  en_fields :: "(string \<times> rust_ty) list"
  en_belongs_to :: "(string \<times> string \<times> string) list"
  en_has_many :: "string list"
  en_unique :: "string list"

definition api_stats_entity :: entity where
  "api_stats_entity =
     \<lparr> en_module = ''api_stats'', en_table = ''api_stats'', en_key = ''id'',
       en_fields = [(''id'', Ty_Uuid), (''active_tunnels'', Ty_i32), (''tunnels_created_today'', Ty_i32),
         (''bytes_transferred_today'', Ty_i64), (''uptime_seconds'', Ty_i64), (''ca_stats_id'', Opt Ty_Uuid),
         (''created_at'', Ty_DateTime)],
       en_belongs_to = [(''ca_stats_id'', ''ca_stats'', ''id'')],
       en_has_many = [],
       en_unique = [] \<rparr>"

definition audit_log_entity :: entity where
  "audit_log_entity =
     \<lparr> en_module = ''audit_log'', en_table = ''audit_log'', en_key = ''id'',
       en_fields = [(''id'', Ty_Uuid), (''user_id'', Opt Ty_String), (''action'', Ty_String),
         (''resource'', Ty_String), (''timestamp'', Ty_DateTime), (''details_json'', Opt Ty_String),
         (''created_at'', Ty_DateTime)],
       en_belongs_to = [(''user_id'', ''user'', ''id'')],
       en_has_many = [],
       en_unique = [] \<rparr>"

definition auth_token_entity :: entity where
  "auth_token_entity =
     \<lparr> en_module = ''auth_token'', en_table = ''auth_tokens'', en_key = ''token'',
       en_fields = [(''token'', Ty_String), (''token_type'', Ty_String), (''expires_at'', Ty_DateTime),
         (''user_id'', Ty_String), (''created_at'', Ty_DateTime)],
       en_belongs_to = [(''user_id'', ''user'', ''id'')],
       en_has_many = [],
       en_unique = [] \<rparr>"

definition billing_event_entity :: entity where
  "billing_event_entity =
     \<lparr> en_module = ''billing_event'', en_table = ''billing_event'', en_key = ''id'',
       en_fields = [(''id'', Ty_Uuid), (''user_id'', Ty_String), (''service_plan_id'', Ty_String),
         (''event_type'', Ty_String), (''amount'', Ty_f64), (''event_time'', Ty_DateTime),
         (''details_json'', Opt Ty_String), (''created_at'', Ty_DateTime)],
       en_belongs_to = [(''user_id'', ''user'', ''id''), (''service_plan_id'', ''service_plan'', ''id'')],
       en_has_many = [],
       en_unique = [] \<rparr>"

definition ca_stats_entity :: entity where
  "ca_stats_entity =
     \<lparr> en_module = ''ca_stats'', en_table = ''ca_stats'', en_key = ''id'',
       en_fields = [(''id'', Ty_Uuid), (''certificates_issued'', Ty_i32), (''active_certificates'', Ty_i32),
         (''expired_certificates'', Ty_i32), (''issuance_rate'', Ty_f64), (''created_at'', Ty_DateTime)],
       en_belongs_to = [],
       en_has_many = [''api_stats''],
       en_unique = [] \<rparr>"

definition certificate_info_entity :: entity where
  "certificate_info_entity =
     \<lparr> en_module = ''certificate_info'', en_table = ''certificate_info'', en_key = ''serial'',
       en_fields = [(''serial'', Ty_String), (''certificate'', Ty_String), (''private_key'', Ty_String),
         (''fingerprint'', Ty_String), (''issued_at'', Ty_DateTime), (''expires_at'', Ty_DateTime),
         (''subject'', Ty_String)],
       en_belongs_to = [],
       en_has_many = [''tunnel''],
       en_unique = [] \<rparr>"

definition payment_info_entity :: entity where
  "payment_info_entity =
     \<lparr> en_module = ''payment_info'', en_table = ''payment_info'', en_key = ''id'',
       en_fields = [(''id'', Ty_Uuid), (''user_id'', Ty_String), (''stripe_customer_id'', Opt Ty_String),
         (''stripe_subscription_id'', Opt Ty_String), (''last_payment_date'', Opt Ty_DateTime),
         (''next_payment_date'', Opt Ty_DateTime), (''created_at'', Ty_DateTime)],
       en_belongs_to = [(''user_id'', ''user'', ''id'')],
       en_has_many = [],
       en_unique = [] \<rparr>"

definition service_plan_entity :: entity where
  "service_plan_entity =
     \<lparr> en_module = ''service_plan'', en_table = ''service_plans'', en_key = ''id'',
       en_fields = [(''id'', Ty_String), (''name'', Ty_String), (''api_rate_limit'', Ty_i32),
         (''tunnel_creation_limit'', Ty_i32), (''dns_provisioning_limit'', Ty_i32),
         (''max_concurrent_tunnels'', Ty_i32), (''features_json'', Opt Ty_String),
         (''created_at'', Ty_DateTime)],
       en_belongs_to = [],
       en_has_many = [''user_service_plan'', ''billing_event''],
       en_unique = [] \<rparr>"

definition ssh_key_pair_entity :: entity where
  "ssh_key_pair_entity =
     \<lparr> en_module = ''ssh_key_pair'', en_table = ''ssh_key_pairs'', en_key = ''id'',
       en_fields = [(''id'', Ty_Uuid), (''private_key'', Ty_String), (''public_key'', Ty_String),
         (''fingerprint'', Ty_String), (''created_at'', Ty_DateTime)],
       en_belongs_to = [],
       en_has_many = [''tunnel''],
       en_unique = [] \<rparr>"

definition tunnel_entity :: entity where
  "tunnel_entity =
     \<lparr> en_module = ''tunnel'', en_table = ''tunnels'', en_key = ''id'',
       en_fields = [(''id'', Ty_Uuid), (''github_user_id'', Ty_String), (''github_username'', Ty_String),
         (''subdomain'', Ty_String), (''fqdn'', Ty_String), (''local_port'', Ty_i32), (''slot'', Ty_i32),
         (''certificate_serial'', Opt Ty_String), (''ssh_key_pair_id'', Opt Ty_Uuid),
         (''created_at'', Ty_DateTime), (''expires_at'', Ty_DateTime), (''status'', Ty_String),
         (''bytes_transferred'', Ty_i64), (''request_count'', Ty_i32)],
       en_belongs_to = [(''github_user_id'', ''user'', ''github_user_id''),
         (''certificate_serial'', ''certificate_info'', ''serial''),
         (''ssh_key_pair_id'', ''ssh_key_pair'', ''id'')],
       en_has_many = [],
       en_unique = [] \<rparr>"

definition user_entity :: entity where
  "user_entity =
     \<lparr> en_module = ''user'', en_table = ''users'', en_key = ''id'',
       en_fields = [(''id'', Ty_String), (''github_user_id'', Ty_String), (''login'', Ty_String),
         (''name'', Opt Ty_String), (''email'', Opt Ty_String), (''avatar_url'', Opt Ty_String),
         (''public_repos'', Opt Ty_i32), (''followers'', Opt Ty_i32), (''following'', Opt Ty_i32),
         (''created_at'', Opt Ty_DateTime), (''updated_at'', Opt Ty_DateTime),
         (''created_at_db'', Ty_DateTime)],
       en_belongs_to = [],
       en_has_many = [''user_service_plan'', ''tunnel'', ''auth_token'', ''payment_info'', ''user_usage'',
         ''audit_log'', ''billing_event''],
       en_unique = [''github_user_id''] \<rparr>"

definition user_service_plan_entity :: entity where
  "user_service_plan_entity =
     \<lparr> en_module = ''user_service_plan'', en_table = ''user_service_plans'', en_key = ''id'',
       en_fields = [(''id'', Ty_Uuid), (''user_id'', Ty_String), (''service_plan_id'', Ty_String),
         (''start_date'', Ty_DateTime), (''end_date'', Opt Ty_DateTime), (''is_active'', Ty_bool),
         (''created_at'', Ty_DateTime)],
       en_belongs_to = [(''user_id'', ''user'', ''id''), (''service_plan_id'', ''service_plan'', ''id'')],
       en_has_many = [],
       en_unique = [] \<rparr>"

definition user_usage_entity :: entity where
  "user_usage_entity =
     \<lparr> en_module = ''user_usage'', en_table = ''user_usage'', en_key = ''id'',
       en_fields = [(''id'', Ty_Uuid), (''user_id'', Ty_String), (''period_start'', Ty_DateTime),
         (''api_calls_count'', Ty_i32), (''tunnels_created_count'', Ty_i32),
         (''dns_operations_count'', Ty_i32), (''active_tunnels_count'', Ty_i32), (''created_at'', Ty_DateTime)],
       en_belongs_to = [(''user_id'', ''user'', ''id'')],
       en_has_many = [],
       en_unique = [] \<rparr>"

definition entities :: "entity list" where
  "entities =
     [api_stats_entity, audit_log_entity, auth_token_entity, billing_event_entity,
      ca_stats_entity, certificate_info_entity, payment_info_entity, service_plan_entity,
      ssh_key_pair_entity, tunnel_entity, user_entity, user_service_plan_entity,
      user_usage_entity]"

section \<open>Agreement of entities and tables\<close>

fun base_ty :: "rust_ty \<Rightarrow> rust_ty" where
  "base_ty (Opt t) = base_ty t"
| "base_ty t = t"

definition entity_named :: "string \<Rightarrow> entity option" where
  "entity_named m = find (\<lambda>e. en_module e = m) entities"

text \<open>A relation joins columns of one type, and the column it points to identifies a row.\<close>

definition relation_typed :: "entity \<Rightarrow> string \<times> string \<times> string \<Rightarrow> bool" where
  "relation_typed e = (\<lambda>(own, m, k).
     case entity_named m of
       None \<Rightarrow> False
     | Some parent \<Rightarrow>
         (case (map_of (en_fields e) own, map_of (en_fields parent) k) of
            (Some t, Some t') \<Rightarrow> base_ty t = base_ty t' \<and> (k = en_key parent \<or> k \<in> set (en_unique parent))
          | _ \<Rightarrow> False))"

definition has_many_typed :: "entity \<Rightarrow> string \<Rightarrow> bool" where
  "has_many_typed e m =
     (case entity_named m of
        None \<Rightarrow> False
      | Some child \<Rightarrow> list_ex (\<lambda>(_, parent, _). parent = en_module e) (en_belongs_to child))"

definition entity_typed :: "entity \<Rightarrow> bool" where
  "entity_typed e \<longleftrightarrow> distinct (map fst (en_fields e)) \<and> en_key e \<in> set (map fst (en_fields e))
     \<and> list_all (relation_typed e) (en_belongs_to e) \<and> list_all (has_many_typed e) (en_has_many e)"

text \<open>The table an entity names, among those in a catalogue whose identifiers get their names by \<open>iden\<close>.\<close>

definition entity_table :: "(string \<Rightarrow> string) \<Rightarrow> catalog \<Rightarrow> entity \<Rightarrow> column list option" where
  "entity_table iden c e = map_of (map (\<lambda>(t, cols). (iden t, cols)) (cat_tables c)) (en_table e)"

definition table_fits :: "(string \<Rightarrow> string) \<Rightarrow> catalog \<Rightarrow> entity \<Rightarrow> bool" where
  "table_fits iden c e \<longleftrightarrow>
     (case entity_table iden c e of
        None \<Rightarrow> False
      | Some cols \<Rightarrow> list_all (\<lambda>f. fst f \<in> set (map (iden \<circ> col_name) cols)) (en_fields e))"

definition migrated :: catalog where
  "migrated = fold ddl_effect (concat (map fst migrations)) empty_catalog"

lemma up_admissible: "all_admissible empty_catalog (concat (map fst migrations))"
  by code_simp

lemma down_admissible: "all_admissible migrated (concat (map snd (rev migrations)))"
  by code_simp

lemma down_empties: "fold ddl_effect (concat (map snd (rev migrations))) migrated = empty_catalog"
  by code_simp

lemma entities_typed: "list_all entity_typed entities"
  by code_simp

lemma entities_with_table:
  "filter (\<lambda>e. entity_table snake_case migrated e \<noteq> None) entities
     = [api_stats_entity, audit_log_entity, billing_event_entity, ca_stats_entity, certificate_info_entity,
        payment_info_entity, user_usage_entity]"
  by code_simp

lemma entities_fitting: "filter (table_fits snake_case migrated) entities = [certificate_info_entity]"
  by code_simp

lemma one_key_each: "list_all (\<lambda>(t, cols). length (filter col_primary cols) = 1) (cat_tables migrated)"
  by code_simp

lemma connect_from_succeeds:
  "k \<le> j \<Longrightarrow> j < k + n \<Longrightarrow> connect j = Inr () \<Longrightarrow> connect_from connect k n e = Inr ()"
proof (induction n arbitrary: k e)
  case (Suc n)
  show ?case
  proof (cases "connect k")
    case (Inl x)
    then have "k < j" using Suc.prems by (cases "k = j") auto
    then show ?thesis using Suc Inl by simp
  qed simp
qed simp

lemma connect_from_fails:
  "(\<And>j. k \<le> j \<Longrightarrow> j < k + n \<Longrightarrow> connect j = Inl (err j)) \<Longrightarrow> 0 < n \<Longrightarrow>
   connect_from connect k n e = Inl (err (k + n - 1))"
proof (induction n arbitrary: k e)
  case (Suc n)
  then show ?case by (cases n) simp_all
qed simp

section \<open>Properties\<close>


text \<open>
  C39: the migrations can be undone.  On a reachable, empty database the runner's \<open>up\<close> (the default command)
  succeeds and leaves exactly the tables, indexes and foreign keys of the migrations, and \<open>down\<close> then
  succeeds and leaves none of them, on every server that accepts admissible statements.  A database that is
  not reachable within thirty attempts gives the error of the last attempt and nothing is changed.
\<close>

theorem migrations_undone:
  assumes server: "sql_server exec cat" and empty: "cat d = empty_catalog"
    and up: "arg = None \<or> arg = Some ''up''" and reach: "1 \<le> k" "k \<le> 30" "connect k = Inr ()"
  shows "(\<exists>d1 d2. migration_main connect exec status fresh arg (Some url) d = (Inr (), d1) \<and> cat d1 = migrated
      \<and> migration_main connect exec status fresh (Some ''down'') (Some url) d1 = (Inr (), d2) \<and> cat d2 = empty_catalog)
    \<and> migration_main (\<lambda>j. Inl (err j)) exec status fresh arg (Some url) d = (Inl (err 30), d)"
proof
  have c: "connect_with_retry connect 30 = Inr ()"
    unfolding connect_with_retry_def by (rule connect_from_succeeds) (use reach in simp_all)
  obtain d1 where d1: "migrator_up exec d = (Inr (), d1)" "cat d1 = migrated"
    using sql_server.run_admissible [OF server, of d] up_admissible by (auto simp: empty migrated_def migrator_up_def)
  obtain d2 where d2: "migrator_down exec d1 = (Inr (), d2)" "cat d2 = empty_catalog"
    using sql_server.run_admissible [OF server, of d1 "concat (map snd (rev migrations))"] down_admissible
    by (auto simp: d1 down_empties migrator_down_def)
  have "migration_main connect exec status fresh arg (Some url) d = (Inr (), d1)"
    "migration_main connect exec status fresh (Some ''down'') (Some url) d1 = (Inr (), d2)"
    using up d1(1) d2(1) by (auto simp: migration_main_def seq_act_def bind_act_def c)
  with d1 d2 show "\<exists>d1 d2. migration_main connect exec status fresh arg (Some url) d = (Inr (), d1) \<and> cat d1 = migrated
      \<and> migration_main connect exec status fresh (Some ''down'') (Some url) d1 = (Inr (), d2) \<and> cat d2 = empty_catalog"
    by blast
next
  have "connect_with_retry (\<lambda>j. Inl (err j)) 30 = Inl (err 30)"
    unfolding connect_with_retry_def using connect_from_fails [of 1 30 "\<lambda>j. Inl (err j)" err None] by simp
  then show "migration_main (\<lambda>j. Inl (err j)) exec status fresh arg (Some url) d = (Inl (err 30), d)"
    by (simp add: migration_main_def seq_act_def bind_act_def)
qed

theorem migrations_undone_witness:
  "\<exists>d1. migration_main (\<lambda>j. if j < 3 then Inl ''starting'' else Inr ()) catalog_server (ret ()) (ret ()) None
       (Some ''postgres://db'') empty_catalog = (Inr (), d1) \<and> d1 = migrated"
  using migrations_undone [OF cats.sql_server_axioms, of empty_catalog None 3 "\<lambda>j. if j < 3 then Inl ''starting'' else Inr ()"
      "ret ()" "ret ()" "''postgres://db''"] by auto

text \<open>
  C40: the entities and the migrated tables do not agree.  With the names that \<open>DeriveIden\<close> documents, only
  seven of the thirteen entities name a table the migrations create; among the entities without one are
  those of users, tunnels, service plans and their assignments, which the migrations name in the singular.
  Of the seven only the certificate entity finds all its fields among the columns.
\<close>

theorem entities_miss_tables:
  assumes iden: "\<And>x. iden x = snake_case x"
  shows "filter (\<lambda>e. entity_table iden migrated e \<noteq> None) entities
      = [api_stats_entity, audit_log_entity, billing_event_entity, ca_stats_entity, certificate_info_entity,
         payment_info_entity, user_usage_entity]
    \<and> filter (table_fits iden migrated) entities = [certificate_info_entity]"
proof -
  have "iden = snake_case" using iden by (simp add: fun_eq_iff)
  then show ?thesis using entities_with_table entities_fitting by simp
qed

theorem entities_miss_tables_witness:
  "filter (table_fits snake_case migrated) entities = [certificate_info_entity]"
  using entities_miss_tables [of snake_case] by simp

end
