(* ===== verification/Db_Table.thy ===== *)
theory Db_Table
  imports Errors "HOL-Library.Multiset"
begin

text \<open>
  Tables of the relational database as the services use them through the object-relational mapper, and
  the repositories of \<open>crates/models/src/repository.rs\<close>.  The mapper and the server are an argument: a
  \<open>table\<close> is the record of the operations the code calls on one entity, each of which may report an error of
  the database.  The interface \<open>db_table\<close> says what they do to the rows, which are a multiset because no
  query asks for an order.
\<close>

section \<open>Operations of an entity\<close>

text \<open>
  \<open>find().filter(..)\<close> with \<open>one\<close>, \<open>all\<close> and \<open>count\<close>, \<open>insert\<close> of a model, \<open>update\<close> of the row with a key, where
  the columns that are set are given as a function on rows, and \<open>delete_by_id\<close>, which answers with the
  number of rows.
\<close>

record ('d, 'r, 'k) db_ops =
  tb_one :: "('r \<Rightarrow> bool) \<Rightarrow> ('d, string, 'r option) act"
  tb_all :: "('r \<Rightarrow> bool) \<Rightarrow> ('d, string, 'r list) act"
  tb_count :: "('r \<Rightarrow> bool) \<Rightarrow> ('d, string, nat) act"
  tb_insert :: "'r \<Rightarrow> ('d, string, 'r) act"
  tb_update :: "'k \<Rightarrow> ('r \<Rightarrow> 'r) \<Rightarrow> ('d, string, 'r) act"
  tb_delete :: "'k \<Rightarrow> ('d, string, nat) act"

lemma find_Some: "find P xs = Some x \<Longrightarrow> x \<in> set xs \<and> P x"
  by (induction xs) (auto split: if_splits)

lemma filter_none: "{#x \<in># M. P x#} = {#} \<longleftrightarrow> (\<forall>x. x \<in># M \<longrightarrow> \<not> P x)"
  by (induction M) auto

locale db_table =
  fixes T :: "('d, 'r, 'k) db_ops" and key :: "'r \<Rightarrow> 'k" and rows :: "'d \<Rightarrow> 'r multiset"
  assumes one: "tb_one T P d = (r, d') \<Longrightarrow> rows d' = rows d
      \<and> (\<forall>x. r = Inr (Some x) \<longrightarrow> x \<in># rows d \<and> P x) \<and> (r = Inr None \<longrightarrow> {#x \<in># rows d. P x#} = {#})"
    and all: "tb_all T P d = (rs, d') \<Longrightarrow> rows d' = rows d \<and> (\<forall>xs. rs = Inr xs \<longrightarrow> mset xs = {#x \<in># rows d. P x#})"
    and count: "tb_count T P d = (rn, d') \<Longrightarrow> rows d' = rows d \<and> (\<forall>n. rn = Inr n \<longrightarrow> n = size {#x \<in># rows d. P x#})"
    and insert_ok: "tb_insert T x d = (Inr y, d') \<Longrightarrow> y = x \<and> key x \<notin># image_mset key (rows d) \<and> rows d' = add_mset x (rows d)"
    and insert_err: "tb_insert T x d = (Inl e, d') \<Longrightarrow> rows d' = rows d"
    and update_ok: "tb_update T k f d = (Inr y, d') \<Longrightarrow>
      (\<exists>x. x \<in># rows d \<and> key x = k \<and> y = f x) \<and> rows d' = image_mset (\<lambda>x. if key x = k then f x else x) (rows d)"
    and update_err: "tb_update T k f d = (Inl e, d') \<Longrightarrow> rows d' = rows d"
    and delete_ok: "tb_delete T k d = (Inr n, d') \<Longrightarrow>
      n = size {#x \<in># rows d. key x = k#} \<and> rows d' = {#x \<in># rows d. key x \<noteq> k#}"
    and delete_err: "tb_delete T k d = (Inl e, d') \<Longrightarrow> rows d' = rows d"
begin

lemma one_Some: "tb_one T P d = (Inr (Some x), d') \<Longrightarrow> x \<in># rows d \<and> P x \<and> rows d' = rows d"
  and one_None: "tb_one T P d = (Inr None, d') \<Longrightarrow> (\<forall>x. x \<in># rows d \<longrightarrow> \<not> P x) \<and> rows d' = rows d"
  and one_rows: "tb_one T P d = (r, d') \<Longrightarrow> rows d' = rows d"
  using one by (fastforce simp: filter_none)+

lemma all_set: "tb_all T P d = (Inr xs, d') \<Longrightarrow> set xs = {x. x \<in># rows d \<and> P x} \<and> rows d' = rows d"
proof -
  assume "tb_all T P d = (Inr xs, d')"
  then have "mset xs = {#x \<in># rows d. P x#}" "rows d' = rows d" using all by blast+
  then show ?thesis by (metis (no_types, lifting) Collect_cong set_mset_filter set_mset_mset)
qed

lemma count_zero: "tb_count T P d = (Inr n, d') \<Longrightarrow> n = 0 \<longleftrightarrow> (\<forall>x. x \<in># rows d \<longrightarrow> \<not> P x)"
  using count [of P d "Inr n" d'] by (auto simp: filter_none)

end

text \<open>Leaving alone what another table shows of the database.\<close>

definition table_frame :: "('d, 'r, 'k) db_ops \<Rightarrow> ('d \<Rightarrow> 'v) \<Rightarrow> bool" where
  "table_frame T v \<longleftrightarrow>
     (\<forall>P d. v (snd (tb_one T P d)) = v d) \<and> (\<forall>P d. v (snd (tb_all T P d)) = v d) \<and> (\<forall>P d. v (snd (tb_count T P d)) = v d)
     \<and> (\<forall>x d. v (snd (tb_insert T x d)) = v d) \<and> (\<forall>k f d. v (snd (tb_update T k f d)) = v d)
     \<and> (\<forall>k d. v (snd (tb_delete T k d)) = v d)"

lemma table_frameD:
  assumes "table_frame T v"
  shows "tb_one T P d = (r1, d') \<Longrightarrow> v d' = v d" "tb_all T P d = (r2, d') \<Longrightarrow> v d' = v d"
    "tb_count T P d = (r3, d') \<Longrightarrow> v d' = v d" "tb_insert T x d = (r4, d') \<Longrightarrow> v d' = v d"
    "tb_update T k f d = (r5, d') \<Longrightarrow> v d' = v d" "tb_delete T k d = (r6, d') \<Longrightarrow> v d' = v d"
  using assms unfolding table_frame_def by (metis snd_conv)+

section \<open>Unique columns\<close>

definition unique_by :: "('r \<Rightarrow> 'k) \<Rightarrow> 'r multiset \<Rightarrow> bool" where
  "unique_by f M \<longleftrightarrow> (\<forall>k. size {#x \<in># M. f x = k#} \<le> 1)"

lemma unique_by_empty [simp]: "unique_by f {#}"
  by (simp add: unique_by_def)

lemma unique_by_add: "unique_by f (add_mset x M) \<longleftrightarrow> unique_by f M \<and> f x \<notin># image_mset f M"
proof -
  let ?a = "\<lambda>k. size {#y \<in># M. f y = k#}"
  have none: "?a (f x) = 0 \<longleftrightarrow> f x \<notin># image_mset f M" by (auto simp: filter_none) (metis image_eqI)
  have "(\<forall>k. ?a k + (if f x = k then 1 else 0) \<le> 1) \<longleftrightarrow> (\<forall>k. ?a k \<le> 1) \<and> ?a (f x) = 0"
  proof
    assume h: "\<forall>k. ?a k + (if f x = k then 1 else 0) \<le> 1"
    have "?a k \<le> 1" for k using spec [OF h, of k] by (simp split: if_splits)
    moreover have "?a (f x) = 0" using spec [OF h, of "f x"] by simp
    ultimately show "(\<forall>k. ?a k \<le> 1) \<and> ?a (f x) = 0" by blast
  qed auto
  moreover have "size {#y \<in># add_mset x M. f y = k#} = ?a k + (if f x = k then 1 else 0)" for k by simp
  ultimately show ?thesis unfolding unique_by_def none [symmetric] by simp
qed

lemma unique_by_filter: "unique_by f M \<Longrightarrow> unique_by f {#x \<in># M. P x#}"
  unfolding unique_by_def
proof
  fix k assume u: "\<forall>k. size {#x \<in># M. f x = k#} \<le> 1"
  have "{#x \<in># {#x \<in># M. P x#}. f x = k#} \<subseteq># {#x \<in># M. f x = k#}"
    by (simp add: multiset_filter_mono)
  then show "size {#x \<in># {#x \<in># M. P x#}. f x = k#} \<le> 1" using u size_mset_mono le_trans by blast
qed

lemma unique_by_split:
  assumes "unique_by f M" "x \<in># M"
  obtains N where "M = add_mset x N" "\<And>y. y \<in># N \<Longrightarrow> f y \<noteq> f x"
proof -
  obtain N where N: "M = add_mset x N" using assms(2) by (metis mset_add)
  have "f y \<noteq> f x" if "y \<in># N" for y
    using assms(1) that unfolding N unique_by_add by (metis image_eqI set_image_mset)
  then show thesis using that N by blast
qed

lemma update_split:
  assumes "unique_by f M" "x \<in># M" "f x = k"
  obtains N where "M = add_mset x N" "image_mset (\<lambda>y. if f y = k then g y else y) M = add_mset (g x) N"
    "\<And>y. y \<in># N \<Longrightarrow> f y \<noteq> k"
proof -
  obtain N where N: "M = add_mset x N" "\<And>y. y \<in># N \<Longrightarrow> f y \<noteq> f x" using unique_by_split [OF assms(1,2)] by blast
  have "image_mset (\<lambda>y. if f y = k then g y else y) N = image_mset (\<lambda>y. y) N"
    by (rule image_mset_cong) (use N(2) assms(3) in auto)
  then show thesis using that [of N] N assms(3) by simp
qed

section \<open>A database held in memory\<close>

text \<open>A table whose rows are a list at some place of the state.\<close>

definition mem_table :: "('d \<Rightarrow> 'r list) \<Rightarrow> ('r list \<Rightarrow> 'd \<Rightarrow> 'd) \<Rightarrow> ('r \<Rightarrow> 'k) \<Rightarrow> ('d, 'r, 'k) db_ops" where
  "mem_table get put key =
     \<lparr> tb_one = (\<lambda>P d. (Inr (find P (get d)), d)),
       tb_all = (\<lambda>P d. (Inr (filter P (get d)), d)),
       tb_count = (\<lambda>P d. (Inr (length (filter P (get d))), d)),
       tb_insert = (\<lambda>x d. if key x \<in> set (map key (get d)) then (Inl ''duplicate key'', d) else (Inr x, put (x # get d) d)),
       tb_update = (\<lambda>k f d. case find (\<lambda>x. key x = k) (get d) of
          None \<Rightarrow> (Inl ''None of the records are updated'', d)
        | Some x \<Rightarrow> (Inr (f x), put (map (\<lambda>x. if key x = k then f x else x) (get d)) d)),
       tb_delete = (\<lambda>k d. (Inr (length (filter (\<lambda>x. key x = k) (get d))), put (filter (\<lambda>x. key x \<noteq> k) (get d)) d)) \<rparr>"

lemma mem_table_laws:
  assumes "\<And>xs d. get (put xs d) = xs"
  shows "db_table (mem_table get put key) key (\<lambda>d. mset (get d))"
proof
  fix P d r d' assume "tb_one (mem_table get put key) P d = (r, d')"
  then show "mset (get d') = mset (get d) \<and> (\<forall>x. r = Inr (Some x) \<longrightarrow> x \<in># mset (get d) \<and> P x)
      \<and> (r = Inr None \<longrightarrow> {#x \<in># mset (get d). P x#} = {#})"
    by (auto simp: mem_table_def filter_none find_None_iff dest!: find_Some)
next
  fix P d rs d' assume "tb_all (mem_table get put key) P d = (rs, d')"
  then show "mset (get d') = mset (get d) \<and> (\<forall>xs. rs = Inr xs \<longrightarrow> mset xs = {#x \<in># mset (get d). P x#})"
    by (auto simp: mem_table_def)
next
  fix P d rn d' assume "tb_count (mem_table get put key) P d = (rn, d')"
  then show "mset (get d') = mset (get d) \<and> (\<forall>n. rn = Inr n \<longrightarrow> n = size {#x \<in># mset (get d). P x#})"
    by (auto simp: mem_table_def simp flip: mset_filter)
next
  fix x d y d' assume "tb_insert (mem_table get put key) x d = (Inr y, d')"
  then show "y = x \<and> key x \<notin># image_mset key (mset (get d)) \<and> mset (get d') = add_mset x (mset (get d))"
    using assms by (auto simp: mem_table_def split: if_splits)
next
  fix x d e d' assume "tb_insert (mem_table get put key) x d = (Inl e, d')"
  then show "mset (get d') = mset (get d)" by (auto simp: mem_table_def split: if_splits)
next
  fix k f d y d' assume "tb_update (mem_table get put key) k f d = (Inr y, d')"
  then show "(\<exists>x. x \<in># mset (get d) \<and> key x = k \<and> y = f x)
      \<and> mset (get d') = image_mset (\<lambda>x. if key x = k then f x else x) (mset (get d))"
    using assms by (auto simp: mem_table_def split: option.splits dest!: find_Some)
next
  fix k f d e d' assume "tb_update (mem_table get put key) k f d = (Inl e, d')"
  then show "mset (get d') = mset (get d)" by (auto simp: mem_table_def split: option.splits)
next
  fix k d n d' assume "tb_delete (mem_table get put key) k d = (Inr n, d')"
  then show "n = size {#x \<in># mset (get d). key x = k#} \<and> mset (get d') = {#x \<in># mset (get d). key x \<noteq> k#}"
    using assms by (auto simp: mem_table_def simp flip: mset_filter)
next
  fix k d e d' assume "tb_delete (mem_table get put key) k d = (Inl e, d')"
  then show "mset (get d') = mset (get d)" by (simp add: mem_table_def)
qed

lemma mem_table_frame:
  assumes "\<And>xs d. v (put xs d) = v d"
  shows "table_frame (mem_table get put key) v"
  using assms by (simp add: table_frame_def mem_table_def split: option.split)

interpretation rows_list: db_table "mem_table (\<lambda>d. d) (\<lambda>xs _. xs) key" key mset
  for key :: "'r \<Rightarrow> 'k"
  using mem_table_laws [where get = "\<lambda>d. d" and put = "\<lambda>xs _. xs" and key = key] by simp

section \<open>Models\<close>

text \<open>A 32-bit signed column is an integer; the time of a row is an instant.\<close>

record UserModel =
  um_id :: string
  um_github_user_id :: string
  um_login :: string
  um_name :: "string option"
  um_email :: "string option"
  um_avatar_url :: "string option"
  um_public_repos :: "int option"
  um_followers :: "int option"
  um_following :: "int option"
  um_created_at :: "instant option"
  um_updated_at :: "instant option"
  um_created_at_db :: instant

record ServicePlanModel =
  spm_id :: string
  spm_name :: string
  spm_api_rate_limit :: int
  spm_tunnel_creation_limit :: int
  spm_dns_provisioning_limit :: int
  spm_max_concurrent_tunnels :: int
  spm_features_json :: "string option"
  spm_created_at :: instant

record UserServicePlanModel =
  us_id :: "128 word"
  us_user_id :: string
  us_service_plan_id :: string
  us_start_date :: instant
  us_end_date :: "instant option"
  us_is_active :: bool
  us_created_at :: instant

record TunnelModel =
  tm_id :: "128 word"
  tm_github_user_id :: string
  tm_github_username :: string
  tm_subdomain :: string
  tm_fqdn :: string
  tm_local_port :: int
  tm_slot :: int
  tm_certificate_serial :: "string option"
  tm_ssh_key_pair_id :: "128 word option"
  tm_created_at :: instant
  tm_expires_at :: instant
  tm_status :: string
  tm_bytes_transferred :: int
  tm_request_count :: int

section \<open>Repositories\<close>

abbreviation db_err :: "('d, string, 'a) act \<Rightarrow> ('d, FleetingDnsError, 'a) act" where
  "db_err \<equiv> map_err Fd_DatabaseError"

definition user_find_by_github_user_id ::
    "('d, UserModel, string) db_ops \<Rightarrow> string \<Rightarrow> ('d, FleetingDnsError, UserModel option) act" where
  "user_find_by_github_user_id T github_user_id = db_err (tb_one T (\<lambda>u. um_github_user_id u = github_user_id))"

definition user_create :: "('d, UserModel, string) db_ops \<Rightarrow> UserModel \<Rightarrow> ('d, FleetingDnsError, UserModel) act" where
  "user_create T user = db_err (tb_insert T user)"

definition user_update ::
    "('d, UserModel, string) db_ops \<Rightarrow> string \<Rightarrow> (UserModel \<Rightarrow> UserModel) \<Rightarrow> ('d, FleetingDnsError, UserModel) act" where
  "user_update T i columns = db_err (tb_update T i columns)"

definition user_delete :: "('d, UserModel, string) db_ops \<Rightarrow> string \<Rightarrow> ('d, FleetingDnsError, bool) act" where
  "user_delete T i = bind_act (db_err (tb_delete T i)) (\<lambda>rows_affected. ret (rows_affected > 0))"

definition plan_find_by_id ::
    "('d, ServicePlanModel, string) db_ops \<Rightarrow> string \<Rightarrow> ('d, FleetingDnsError, ServicePlanModel option) act" where
  "plan_find_by_id T i = db_err (tb_one T (\<lambda>p. spm_id p = i))"

definition plan_find_all :: "('d, ServicePlanModel, string) db_ops \<Rightarrow> ('d, FleetingDnsError, ServicePlanModel list) act" where
  "plan_find_all T = db_err (tb_all T (\<lambda>_. True))"

definition plan_create ::
    "('d, ServicePlanModel, string) db_ops \<Rightarrow> ServicePlanModel \<Rightarrow> ('d, FleetingDnsError, ServicePlanModel) act" where
  "plan_create T plan = db_err (tb_insert T plan)"

definition plan_update ::
    "('d, ServicePlanModel, string) db_ops \<Rightarrow> string \<Rightarrow> (ServicePlanModel \<Rightarrow> ServicePlanModel)
      \<Rightarrow> ('d, FleetingDnsError, ServicePlanModel) act" where
  "plan_update T i columns = db_err (tb_update T i columns)"

definition tunnel_find_by_id ::
    "('d, TunnelModel, 128 word) db_ops \<Rightarrow> 128 word \<Rightarrow> ('d, FleetingDnsError, TunnelModel option) act" where
  "tunnel_find_by_id T i = db_err (tb_one T (\<lambda>t. tm_id t = i))"

definition tunnel_find_by_github_user_id ::
    "('d, TunnelModel, 128 word) db_ops \<Rightarrow> string \<Rightarrow> ('d, FleetingDnsError, TunnelModel list) act" where
  "tunnel_find_by_github_user_id T github_user_id = db_err (tb_all T (\<lambda>t. tm_github_user_id t = github_user_id))"

definition find_active_by_github_user_id ::
    "('d, TunnelModel, 128 word) db_ops \<Rightarrow> instant \<Rightarrow> string \<Rightarrow> ('d, FleetingDnsError, TunnelModel list) act" where
  "find_active_by_github_user_id T now github_user_id =
     db_err (tb_all T (\<lambda>t. tm_github_user_id t = github_user_id \<and> tm_status t = ''active'' \<and> tm_expires_at t > now))"

definition tunnel_create ::
    "('d, TunnelModel, 128 word) db_ops \<Rightarrow> TunnelModel \<Rightarrow> ('d, FleetingDnsError, TunnelModel) act" where
  "tunnel_create T tunnel = db_err (tb_insert T tunnel)"

definition tunnel_update ::
    "('d, TunnelModel, 128 word) db_ops \<Rightarrow> 128 word \<Rightarrow> (TunnelModel \<Rightarrow> TunnelModel)
      \<Rightarrow> ('d, FleetingDnsError, TunnelModel) act" where
  "tunnel_update T i columns = db_err (tb_update T i columns)"

definition tunnel_delete :: "('d, TunnelModel, 128 word) db_ops \<Rightarrow> 128 word \<Rightarrow> ('d, FleetingDnsError, bool) act" where
  "tunnel_delete T i = bind_act (db_err (tb_delete T i)) (\<lambda>rows_affected. ret (rows_affected > 0))"

text \<open>
  The tunnels the repository calls active are those of the user with that status which have not expired;
  a deleted tunnel is found no more.
\<close>

lemma active_tunnels_exact:
  assumes "db_table T tm_id rows" "find_active_by_github_user_id T now u d = (Inr ts, d')"
  shows "set ts = {t. t \<in># rows d \<and> tm_github_user_id t = u \<and> tm_status t = ''active'' \<and> now < tm_expires_at t}"
  using db_table.all_set [OF assms(1)] assms(2)
  by (fastforce simp: find_active_by_github_user_id_def)

lemma deleted_tunnel_gone:
  assumes db: "db_table T tm_id rows" and del: "tunnel_delete T i d = (Inr b, d1)"
    and found: "tunnel_find_by_id T i d1 = (Inr r, d2)"
  shows "r = None \<and> (b \<longleftrightarrow> (\<exists>t. t \<in># rows d \<and> tm_id t = i))"
proof -
  obtain n where n: "tb_delete T i d = (Inr n, d1)" "b \<longleftrightarrow> n > 0"
    using del by (auto simp: tunnel_delete_def act_ok)
  have *: "n = size {#t \<in># rows d. tm_id t = i#}" "rows d1 = {#t \<in># rows d. tm_id t \<noteq> i#}"
    using db_table.delete_ok [OF db n(1)] by blast+
  have "tb_one T (\<lambda>t. tm_id t = i) d1 = (Inr r, d2)" using found by (simp add: tunnel_find_by_id_def)
  then have "r = None" using db_table.one_Some [OF db] by (cases r) (fastforce simp: *(2))+
  moreover have "n = 0 \<longleftrightarrow> (\<forall>t. t \<in># rows d \<longrightarrow> tm_id t \<noteq> i)" unfolding *(1) by (simp add: filter_none)
  ultimately show ?thesis using n(2) by blast
qed

end
