(* ===== verification/Service_Plans.thy ===== *)
theory Service_Plans
  imports Db_Table Auth_Tokens Rate_Limits
begin

text \<open>
  Service plans and their assignment to users: the administrative handlers
  (\<open>crates/backendapi/src/handlers/admin.rs\<close>) and those of the user
  (\<open>crates/backendapi/src/handlers/user_service_plan.rs\<close>).  A handler is an action on the database.  The
  limits of a plan are 32-bit unsigned numbers in requests and answers and 32-bit signed numbers in the
  table; the casts between them are written out.  The price, which is the constant 0.0, is left out of the answers.  Fresh identifiers and the readings of the clock are
  arguments.
\<close>

section \<open>Requests and answers\<close>

record CreateServicePlanRequest =
  cp_name :: string
  cp_api_rate_limit :: u32
  cp_tunnel_creation_limit :: u32
  cp_dns_provisioning_limit :: u32
  cp_max_concurrent_tunnels :: u32
  cp_features_json :: "string option"

record UpdateServicePlanRequest =
  up_name :: "string option"
  up_api_rate_limit :: "u32 option"
  up_tunnel_creation_limit :: "u32 option"
  up_dns_provisioning_limit :: "u32 option"
  up_max_concurrent_tunnels :: "u32 option"
  up_features_json :: "string option"

record AssignServicePlanRequest =
  as_service_plan_id :: string
  as_end_date :: "instant option"

record ServicePlanResponse =
  pr_id :: string
  pr_name :: string
  pr_api_rate_limit :: u32
  pr_tunnel_creation_limit :: u32
  pr_dns_provisioning_limit :: u32
  pr_max_concurrent_tunnels :: u32
  pr_features_json :: string
  pr_created_at :: instant

record UserServicePlanResponse =
  ur_id :: "128 word"
  ur_user_id :: string
  ur_service_plan_id :: string
  ur_start_date :: instant
  ur_end_date :: "instant option"
  ur_is_active :: bool

text \<open>The quotas of a plan as they are put into a JSON answer.\<close>

record quota_json =
  qj_api_rate_limit :: int
  qj_tunnel_creation_limit :: int
  qj_dns_provisioning_limit :: int
  qj_max_concurrent_tunnels :: int

record 'j MyServicePlanResponse =
  mp_service_plan_id :: string
  mp_name :: string
  mp_description :: string
  mp_features :: 'j
  mp_quotas :: quota_json
  mp_assignment_date :: instant
  mp_end_date :: "instant option"
  mp_is_active :: bool

record ServicePlanUsageResponse =
  su_service_plan_id :: string
  su_service_plan_name :: string
  su_counters :: "int list"
  su_quota_limits :: quota_json
  su_last_updated :: instant

record 'j AvailableServicePlanResponse =
  ap_id :: string
  ap_name :: string
  ap_description :: string
  ap_features :: 'j
  ap_quotas :: quota_json
  ap_is_current_plan :: bool
  ap_can_upgrade :: bool
  ap_can_downgrade :: bool

record ServicePlanChangeResponse =
  sc_message :: string
  sc_request_id :: "128 word"
  sc_status :: string
  sc_estimated_processing_time :: string

section \<open>Environment\<close>

text \<open>The digest and the secret of the tokens, the two tables, and the JSON parser.\<close>

record ('d, 'j) plan_env =
  pe_md5 :: "string \<Rightarrow> string"
  pe_secret :: string
  pe_plans :: "('d, ServicePlanModel, string) db_ops"
  pe_assignments :: "('d, UserServicePlanModel, 128 word) db_ops"
  pe_json :: "string \<Rightarrow> 'j option"

definition plan_user :: "('d, 'j) plan_env \<Rightarrow> headers \<Rightarrow> instant \<Rightarrow> ('d, ApiError, GitHubUser) act" where
  "plan_user E hs now = lift_res (authenticate (pe_md5 E) (pe_secret E) False hs now)"

abbreviation db_api :: "('d, string, 'a) act \<Rightarrow> ('d, ApiError, 'a) act" where
  "db_api \<equiv> map_err DatabaseError"

text \<open>Casts between 32-bit unsigned and signed numbers keep the bits.\<close>

definition u32_as_i32 :: "u32 \<Rightarrow> int" where
  "u32_as_i32 w = sint w"

definition i32_as_u32 :: "int \<Rightarrow> u32" where
  "i32_as_u32 i = word_of_int i"

definition required :: "ApiError \<Rightarrow> 'a option \<Rightarrow> ('d, ApiError, 'a) act" where
  "required e x = (case x of None \<Rightarrow> fail e | Some y \<Rightarrow> ret y)"

definition or_empty_object :: "string option \<Rightarrow> string" where
  "or_empty_object features = (case features of Some f \<Rightarrow> f | None \<Rightarrow> ''{}'')"

definition plan_response :: "ServicePlanModel \<Rightarrow> ServicePlanResponse" where
  "plan_response p =
     \<lparr> pr_id = spm_id p, pr_name = spm_name p, pr_api_rate_limit = i32_as_u32 (spm_api_rate_limit p),
       pr_tunnel_creation_limit = i32_as_u32 (spm_tunnel_creation_limit p),
       pr_dns_provisioning_limit = i32_as_u32 (spm_dns_provisioning_limit p),
       pr_max_concurrent_tunnels = i32_as_u32 (spm_max_concurrent_tunnels p),
       pr_features_json = or_empty_object (spm_features_json p), pr_created_at = spm_created_at p \<rparr>"

definition plan_not_found :: "string \<Rightarrow> ApiError" where
  "plan_not_found i = NotFound (''ServicePlan with id '' @ [CHR 0x27] @ i @ [CHR 0x27] @ '' not found'')"

definition name_exists :: "string \<Rightarrow> ApiError" where
  "name_exists n = ValidationError (''ServicePlan with name '' @ [CHR 0x27] @ n @ [CHR 0x27] @ '' already exists'')"

section \<open>Administration\<close>

definition new_plan :: "string \<Rightarrow> instant \<Rightarrow> CreateServicePlanRequest \<Rightarrow> ServicePlanModel" where
  "new_plan plan_id now data =
     \<lparr> spm_id = plan_id, spm_name = cp_name data, spm_api_rate_limit = u32_as_i32 (cp_api_rate_limit data),
       spm_tunnel_creation_limit = u32_as_i32 (cp_tunnel_creation_limit data),
       spm_dns_provisioning_limit = u32_as_i32 (cp_dns_provisioning_limit data),
       spm_max_concurrent_tunnels = u32_as_i32 (cp_max_concurrent_tunnels data),
       spm_features_json = cp_features_json data, spm_created_at = now \<rparr>"

definition create_service_plan ::
    "('d, 'j) plan_env \<Rightarrow> (nat \<Rightarrow> instant) \<Rightarrow> string \<Rightarrow> headers \<Rightarrow> CreateServicePlanRequest
      \<Rightarrow> ('d, ApiError, ServicePlanResponse) act" where
  "create_service_plan E clk plan_id hs plan_data =
     bind_act (plan_user E hs (clk 0)) (\<lambda>_.
     bind_act (db_api (tb_one (pe_plans E) (\<lambda>p. spm_name p = cp_name plan_data))) (\<lambda>existing.
     if existing \<noteq> None then fail (name_exists (cp_name plan_data))
     else
       bind_act (db_api (tb_insert (pe_plans E) (new_plan plan_id (clk 1) plan_data))) (\<lambda>inserted.
       ret (plan_response inserted))))"

definition list_service_plans ::
    "('d, 'j) plan_env \<Rightarrow> instant \<Rightarrow> headers \<Rightarrow> ('d, ApiError, ServicePlanResponse list) act" where
  "list_service_plans E now hs =
     bind_act (plan_user E hs now) (\<lambda>_.
     bind_act (db_api (tb_all (pe_plans E) (\<lambda>_. True))) (\<lambda>plans. ret (map plan_response plans)))"

definition find_plan :: "('d, 'j) plan_env \<Rightarrow> ApiError \<Rightarrow> string \<Rightarrow> ('d, ApiError, ServicePlanModel) act" where
  "find_plan E e plan_id = bind_act (db_api (tb_one (pe_plans E) (\<lambda>p. spm_id p = plan_id))) (required e)"

definition get_service_plan ::
    "('d, 'j) plan_env \<Rightarrow> instant \<Rightarrow> headers \<Rightarrow> string \<Rightarrow> ('d, ApiError, ServicePlanResponse) act" where
  "get_service_plan E now hs plan_id =
     bind_act (plan_user E hs now) (\<lambda>_.
     bind_act (find_plan E (plan_not_found plan_id) plan_id) (\<lambda>plan. ret (plan_response plan)))"

text \<open>The columns an update sets.\<close>

definition set_or :: "'a option \<Rightarrow> 'b \<Rightarrow> ('a \<Rightarrow> 'b) \<Rightarrow> 'b" where
  "set_or x old f = (case x of Some v \<Rightarrow> f v | None \<Rightarrow> old)"

definition updated_columns :: "UpdateServicePlanRequest \<Rightarrow> ServicePlanModel \<Rightarrow> ServicePlanModel" where
  "updated_columns u p =
     p\<lparr> spm_name := set_or (up_name u) (spm_name p) id,
        spm_api_rate_limit := set_or (up_api_rate_limit u) (spm_api_rate_limit p) u32_as_i32,
        spm_tunnel_creation_limit := set_or (up_tunnel_creation_limit u) (spm_tunnel_creation_limit p) u32_as_i32,
        spm_dns_provisioning_limit := set_or (up_dns_provisioning_limit u) (spm_dns_provisioning_limit p) u32_as_i32,
        spm_max_concurrent_tunnels := set_or (up_max_concurrent_tunnels u) (spm_max_concurrent_tunnels p) u32_as_i32,
        spm_features_json := set_or (up_features_json u) (spm_features_json p) Some \<rparr>"

definition check_new_name ::
    "('d, 'j) plan_env \<Rightarrow> string \<Rightarrow> ServicePlanModel \<Rightarrow> string option \<Rightarrow> ('d, ApiError, unit) act" where
  "check_new_name E plan_id existing_plan name =
     (case name of
        Some new_name \<Rightarrow>
          if new_name \<noteq> spm_name existing_plan then
            bind_act (db_api (tb_one (pe_plans E) (\<lambda>p. spm_name p = new_name \<and> spm_id p \<noteq> plan_id))) (\<lambda>duplicate.
            if duplicate \<noteq> None then fail (name_exists new_name) else ret ())
          else ret ()
      | None \<Rightarrow> ret ())"

definition update_service_plan ::
    "('d, 'j) plan_env \<Rightarrow> instant \<Rightarrow> headers \<Rightarrow> string \<Rightarrow> UpdateServicePlanRequest
      \<Rightarrow> ('d, ApiError, ServicePlanResponse) act" where
  "update_service_plan E now hs plan_id update_data =
     bind_act (plan_user E hs now) (\<lambda>_.
     bind_act (find_plan E (plan_not_found plan_id) plan_id) (\<lambda>existing_plan.
     seq_act (check_new_name E plan_id existing_plan (up_name update_data))
       (bind_act (db_api (tb_update (pe_plans E) (spm_id existing_plan) (updated_columns update_data)))
          (\<lambda>updated_plan. ret (plan_response updated_plan)))))"

definition delete_service_plan :: "('d, 'j) plan_env \<Rightarrow> instant \<Rightarrow> headers \<Rightarrow> string \<Rightarrow> ('d, ApiError, unit) act" where
  "delete_service_plan E now hs plan_id =
     bind_act (plan_user E hs now) (\<lambda>_.
     bind_act (find_plan E (plan_not_found plan_id) plan_id) (\<lambda>_.
     bind_act (db_api (tb_count (pe_assignments E) (\<lambda>a. us_service_plan_id a = plan_id \<and> us_is_active a)))
       (\<lambda>active_assignments.
     if active_assignments > 0 then fail (ValidationError ''Cannot delete ServicePlan with active user assignments'')
     else bind_act (db_api (tb_delete (pe_plans E) plan_id)) (\<lambda>_. ret ()))))"

fun deactivate_all :: "('d, 'j) plan_env \<Rightarrow> UserServicePlanModel list \<Rightarrow> ('d, ApiError, unit) act" where
  "deactivate_all E [] = ret ()"
| "deactivate_all E (a # as) =
     seq_act (db_api (tb_update (pe_assignments E) (us_id a) (\<lambda>x. x\<lparr> us_is_active := False \<rparr>))) (deactivate_all E as)"

definition new_assignment ::
    "128 word \<Rightarrow> (nat \<Rightarrow> instant) \<Rightarrow> string \<Rightarrow> AssignServicePlanRequest \<Rightarrow> UserServicePlanModel" where
  "new_assignment i clk uid data =
     \<lparr> us_id = i, us_user_id = uid, us_service_plan_id = as_service_plan_id data, us_start_date = clk 1,
       us_end_date = as_end_date data, us_is_active = True, us_created_at = clk 2 \<rparr>"

definition assignment_response :: "UserServicePlanModel \<Rightarrow> UserServicePlanResponse" where
  "assignment_response a =
     \<lparr> ur_id = us_id a, ur_user_id = us_user_id a, ur_service_plan_id = us_service_plan_id a,
       ur_start_date = us_start_date a, ur_end_date = us_end_date a, ur_is_active = us_is_active a \<rparr>"

definition assign_service_plan_to_user ::
    "('d, 'j) plan_env \<Rightarrow> (nat \<Rightarrow> instant) \<Rightarrow> 128 word \<Rightarrow> headers \<Rightarrow> string \<Rightarrow> AssignServicePlanRequest
      \<Rightarrow> ('d, ApiError, UserServicePlanResponse) act" where
  "assign_service_plan_to_user E clk i hs uid data =
     bind_act (plan_user E hs (clk 0)) (\<lambda>_.
     bind_act (find_plan E (plan_not_found (as_service_plan_id data)) (as_service_plan_id data)) (\<lambda>_.
     bind_act (db_api (tb_all (pe_assignments E) (\<lambda>a. us_user_id a = uid \<and> us_is_active a)))
       (\<lambda>existing_assignments.
     seq_act (deactivate_all E existing_assignments)
       (bind_act (db_api (tb_insert (pe_assignments E) (new_assignment i clk uid data)))
          (\<lambda>inserted. ret (assignment_response inserted))))))"

definition get_rate_limit_policy ::
    "'f f64_ops \<Rightarrow> ('d, 'j) plan_env \<Rightarrow> instant \<Rightarrow> headers \<Rightarrow> ('d, ApiError, 'f RateLimitConfig) act" where
  "get_rate_limit_policy F E now hs = bind_act (plan_user E hs now) (\<lambda>_. ret (RateLimitConfig_default F))"

definition update_rate_limit_policy ::
    "('d, 'j) plan_env \<Rightarrow> instant \<Rightarrow> headers \<Rightarrow> 'f RateLimitConfig \<Rightarrow> ('d, ApiError, 'f RateLimitConfig) act" where
  "update_rate_limit_policy E now hs new_config = bind_act (plan_user E hs now) (\<lambda>_. ret new_config)"

section \<open>The user's own plan\<close>

definition quotas_of :: "ServicePlanModel \<Rightarrow> quota_json" where
  "quotas_of p =
     \<lparr> qj_api_rate_limit = spm_api_rate_limit p, qj_tunnel_creation_limit = spm_tunnel_creation_limit p,
       qj_dns_provisioning_limit = spm_dns_provisioning_limit p, qj_max_concurrent_tunnels = spm_max_concurrent_tunnels p \<rparr>"

definition plan_description :: "ServicePlanModel \<Rightarrow> string" where
  "plan_description p = ''Service plan with '' @ int_to_string (spm_api_rate_limit p) @ '' API calls per hour''"

definition active_assignment ::
    "('d, 'j) plan_env \<Rightarrow> string \<Rightarrow> ('d, ApiError, UserServicePlanModel option) act" where
  "active_assignment E uid = db_api (tb_one (pe_assignments E) (\<lambda>a. us_user_id a = uid \<and> us_is_active a))"

definition my_plan ::
    "('d, 'j) plan_env \<Rightarrow> instant \<Rightarrow> headers \<Rightarrow> ('d, ApiError, UserServicePlanModel \<times> ServicePlanModel) act" where
  "my_plan E now hs =
     bind_act (plan_user E hs now) (\<lambda>user.
     bind_act (active_assignment E (gu_id user)) (\<lambda>found.
     bind_act (required (NotFound ''No active ServicePlan found'') found) (\<lambda>user_service_plan.
     bind_act (find_plan E (NotFound ''ServicePlan not found'') (us_service_plan_id user_service_plan)) (\<lambda>service_plan.
     ret (user_service_plan, service_plan)))))"

definition parse_features :: "('d, 'j) plan_env \<Rightarrow> ServicePlanModel \<Rightarrow> ('d, ApiError, 'j) act" where
  "parse_features E p = required (InternalError ''Invalid features JSON'') (pe_json E (or_empty_object (spm_features_json p)))"

definition get_my_service_plan ::
    "('d, 'j) plan_env \<Rightarrow> instant \<Rightarrow> headers \<Rightarrow> ('d, ApiError, 'j MyServicePlanResponse) act" where
  "get_my_service_plan E now hs =
     bind_act (my_plan E now hs) (\<lambda>(a, p).
     bind_act (parse_features E p) (\<lambda>features.
     ret \<lparr> mp_service_plan_id = spm_id p, mp_name = spm_name p, mp_description = plan_description p,
           mp_features = features, mp_quotas = quotas_of p, mp_assignment_date = us_start_date a,
           mp_end_date = us_end_date a, mp_is_active = us_is_active a \<rparr>))"

definition get_my_service_plan_usage ::
    "('d, 'j) plan_env \<Rightarrow> (nat \<Rightarrow> instant) \<Rightarrow> headers \<Rightarrow> ('d, ApiError, ServicePlanUsageResponse) act" where
  "get_my_service_plan_usage E clk hs =
     bind_act (my_plan E (clk 0) hs) (\<lambda>(a, p).
     ret \<lparr> su_service_plan_id = spm_id p, su_service_plan_name = spm_name p, su_counters = [0, 0, 0, 0, 0],
           su_quota_limits = quotas_of p, su_last_updated = clk 1 \<rparr>)"

fun available_loop ::
    "('d, 'j) plan_env \<Rightarrow> UserServicePlanModel option \<Rightarrow> ServicePlanModel list
      \<Rightarrow> ('d, ApiError, 'j AvailableServicePlanResponse list) act" where
  "available_loop E current [] = ret []"
| "available_loop E current (p # ps) =
     bind_act (parse_features E p) (\<lambda>features.
     let is_current_plan = (case current of Some a \<Rightarrow> us_service_plan_id a = spm_id p | None \<Rightarrow> False) in
     bind_act (available_loop E current ps) (\<lambda>rest.
     ret (\<lparr> ap_id = spm_id p, ap_name = spm_name p, ap_description = plan_description p, ap_features = features,
           ap_quotas = quotas_of p, ap_is_current_plan = is_current_plan, ap_can_upgrade = \<not> is_current_plan,
           ap_can_downgrade = \<not> is_current_plan \<rparr> # rest)))"

definition get_available_service_plans ::
    "('d, 'j) plan_env \<Rightarrow> instant \<Rightarrow> headers \<Rightarrow> ('d, ApiError, 'j AvailableServicePlanResponse list) act" where
  "get_available_service_plans E now hs =
     bind_act (plan_user E hs now) (\<lambda>user.
     bind_act (active_assignment E (gu_id user)) (\<lambda>current_assignment.
     bind_act (db_api (tb_all (pe_plans E) (\<lambda>_. True))) (\<lambda>service_plans.
     available_loop E current_assignment service_plans)))"

definition request_service_plan_change ::
    "('d, 'j) plan_env \<Rightarrow> instant \<Rightarrow> 128 word \<Rightarrow> headers \<Rightarrow> string \<Rightarrow> ('d, ApiError, ServicePlanChangeResponse) act" where
  "request_service_plan_change E now i hs service_plan_id =
     bind_act (plan_user E hs now) (\<lambda>user.
     bind_act (find_plan E (NotFound ''Target ServicePlan not found'') service_plan_id) (\<lambda>_.
     bind_act (db_api (tb_one (pe_assignments E)
         (\<lambda>a. us_user_id a = gu_id user \<and> us_service_plan_id a = service_plan_id \<and> us_is_active a))) (\<lambda>current_assignment.
     if current_assignment \<noteq> None then fail (ValidationError ''User already has this ServicePlan'')
     else ret \<lparr> sc_message = ''ServicePlan change request received. An admin will review and process your request.'',
                sc_request_id = i, sc_status = ''pending'', sc_estimated_processing_time = ''24-48 hours'' \<rparr>)))"

section \<open>Runs\<close>

datatype plan_call =
    CreatePlan "nat \<Rightarrow> instant" string headers CreateServicePlanRequest
  | ListPlans instant headers
  | GetPlan instant headers string
  | UpdatePlan instant headers string UpdateServicePlanRequest
  | DeletePlan instant headers string
  | AssignPlan "nat \<Rightarrow> instant" "128 word" headers string AssignServicePlanRequest
  | MyPlan instant headers
  | MyUsage "nat \<Rightarrow> instant" headers
  | AvailablePlans instant headers
  | RequestChange instant "128 word" headers string

text \<open>The database after a request, answered or refused.\<close>

primrec plan_step :: "('d, 'j) plan_env \<Rightarrow> plan_call \<Rightarrow> 'd \<Rightarrow> 'd" where
  "plan_step E (CreatePlan clk i hs q) d = snd (create_service_plan E clk i hs q d)"
| "plan_step E (ListPlans now hs) d = snd (list_service_plans E now hs d)"
| "plan_step E (GetPlan now hs i) d = snd (get_service_plan E now hs i d)"
| "plan_step E (UpdatePlan now hs i u) d = snd (update_service_plan E now hs i u d)"
| "plan_step E (DeletePlan now hs i) d = snd (delete_service_plan E now hs i d)"
| "plan_step E (AssignPlan clk i hs u a) d = snd (assign_service_plan_to_user E clk i hs u a d)"
| "plan_step E (MyPlan now hs) d = snd (get_my_service_plan E now hs d)"
| "plan_step E (MyUsage clk hs) d = snd (get_my_service_plan_usage E clk hs d)"
| "plan_step E (AvailablePlans now hs) d = snd (get_available_service_plans E now hs d)"
| "plan_step E (RequestChange now i hs p) d = snd (request_service_plan_change E now i hs p d)"

section \<open>Consistent tables\<close>

text \<open>
  Plan ids, plan names and assignment ids are unique, a user has at most one active assignment, and an
  active assignment refers to a plan that exists.
\<close>

abbreviation active_rows :: "UserServicePlanModel multiset \<Rightarrow> UserServicePlanModel multiset" where
  "active_rows A \<equiv> {#a \<in># A. us_is_active a#}"

definition plans_ok :: "ServicePlanModel multiset \<Rightarrow> UserServicePlanModel multiset \<Rightarrow> bool" where
  "plans_ok P A \<longleftrightarrow> unique_by spm_id P \<and> unique_by spm_name P \<and> unique_by us_id A \<and> unique_by us_user_id (active_rows A)
     \<and> (\<forall>a. a \<in># active_rows A \<longrightarrow> us_service_plan_id a \<in># image_mset spm_id P)"

definition deactivate :: "128 word set \<Rightarrow> UserServicePlanModel \<Rightarrow> UserServicePlanModel" where
  "deactivate S a = (if us_id a \<in> S then a\<lparr> us_is_active := False \<rparr> else a)"

lemma deactivate_simps [simp]:
  "us_id (deactivate S a) = us_id a" "us_user_id (deactivate S a) = us_user_id a"
  "us_is_active (deactivate S a) \<longleftrightarrow> us_is_active a \<and> us_id a \<notin> S"
  by (simp_all add: deactivate_def)

lemma unique_by_image: "(\<And>x. f (g x) = f x) \<Longrightarrow> unique_by f (image_mset g M) = unique_by f M"
  by (induction M) (auto simp: unique_by_add image_iff)

lemma active_deactivated: "active_rows (image_mset (deactivate S) A) = {#a \<in># active_rows A. us_id a \<notin> S#}"
  by (induction A) (auto simp: deactivate_def)

lemma plans_ok_deactivate:
  assumes "plans_ok P A" shows "plans_ok P (image_mset (deactivate S) A)"
  using assms by (auto simp: plans_ok_def active_deactivated unique_by_filter unique_by_image)

lemma plans_ok_add:
  assumes "plans_ok P A" "spm_id p \<notin># image_mset spm_id P" "spm_name p \<notin># image_mset spm_name P"
  shows "plans_ok (add_mset p P) A"
  using assms by (auto simp: plans_ok_def unique_by_add)

lemma plans_ok_update:
  assumes ok: "plans_ok P A" and x: "x \<in># P" "spm_id x = i" and id: "\<And>p. spm_id (g p) = spm_id p"
    and name: "\<And>z. spm_name (g x) \<noteq> spm_name x \<Longrightarrow> z \<in># P \<Longrightarrow> spm_id z \<noteq> i \<Longrightarrow> spm_name z \<noteq> spm_name (g x)"
  shows "plans_ok (image_mset (\<lambda>p. if spm_id p = i then g p else p) P) A"
proof -
  have u: "unique_by spm_id P" "unique_by spm_name P" using ok by (simp_all add: plans_ok_def)
  obtain N where N: "P = add_mset x N" "image_mset (\<lambda>p. if spm_id p = i then g p else p) P = add_mset (g x) N"
    "\<And>y. y \<in># N \<Longrightarrow> spm_id y \<noteq> i"
    using update_split [OF u(1) x, of g] by blast
  have new: "spm_name (g x) \<notin># image_mset spm_name N"
  proof (cases "spm_name (g x) = spm_name x")
    case False
    have "spm_name z \<noteq> spm_name (g x)" if "z \<in># N" for z using name [OF False] that N(1,3) by simp
    then show ?thesis by force
  qed (use u(2) in \<open>simp add: N(1) unique_by_add\<close>)
  show ?thesis using ok new id [of x] unfolding N(2) by (simp add: N(1) plans_ok_def unique_by_add)
qed

lemma plans_ok_delete:
  assumes "plans_ok P A" "\<forall>a. a \<in># active_rows A \<longrightarrow> us_service_plan_id a \<noteq> i"
  shows "plans_ok {#p \<in># P. spm_id p \<noteq> i#} A"
  using assms by (auto simp: plans_ok_def unique_by_filter)

lemma plans_ok_assign:
  assumes ok: "plans_ok P A" and plan: "us_service_plan_id x \<in># image_mset spm_id P" and new: "us_id x \<notin># image_mset us_id A"
    and S: "S = us_id ` {a. a \<in># A \<and> us_user_id a = us_user_id x \<and> us_is_active a}"
  shows "plans_ok P (add_mset x (image_mset (deactivate S) A))"
proof -
  have "plans_ok P (image_mset (deactivate S) A)" by (rule plans_ok_deactivate [OF ok])
  moreover have "us_id x \<notin># image_mset us_id (image_mset (deactivate S) A)" using new by auto
  moreover have "us_user_id x \<notin># image_mset us_user_id (active_rows (image_mset (deactivate S) A))"
    unfolding active_deactivated S by auto
  ultimately show ?thesis using plan by (auto simp: plans_ok_def unique_by_add)
qed

lemma bind_cases [consumes 1, case_names err ok]:
  assumes "bind_act m f s = (r, s'')"
  obtains (err) e where "m s = (Inl e, s'')" "r = Inl e"
  | (ok) a s' where "m s = (Inr a, s')" "f a s' = (r, s'')"
  using assms by (auto simp: bind_act_def split: prod.splits sum.splits)

lemma required_Inr: "required e x s = (Inr y, s') \<longleftrightarrow> x = Some y \<and> s' = s"
  by (auto simp: required_def split: option.splits)

lemma required_state: "required e x s = (r, s') \<Longrightarrow> s' = s"
  by (auto simp: required_def split: option.splits)

lemma map_err_state: "map_err f m s = (r, s') \<Longrightarrow> \<exists>r0. m s = (r0, s')"
  by (auto simp: map_err_def split: prod.splits sum.splits)

section \<open>The handlers over a database\<close>

text \<open>The database of the service: two tables that do not disturb each other.\<close>

locale plan_database = plan: db_table "pe_plans E" spm_id plans + asg: db_table "pe_assignments E" us_id asgs
  for E :: "('d, 'j) plan_env" and plans :: "'d \<Rightarrow> ServicePlanModel multiset" and asgs :: "'d \<Rightarrow> UserServicePlanModel multiset" +
  assumes plan_frame: "table_frame (pe_plans E) asgs" and asg_frame: "table_frame (pe_assignments E) plans"
begin

definition reads :: "('d, 'e, 'a) act \<Rightarrow> bool" where
  "reads m \<longleftrightarrow> (\<forall>d r d'. m d = (r, d') \<longrightarrow> plans d' = plans d \<and> asgs d' = asgs d)"

lemma readsD: "reads m \<Longrightarrow> m d = (r, d') \<Longrightarrow> plans d' = plans d \<and> asgs d' = asgs d"
  unfolding reads_def by blast

lemma reads_bind: "reads m \<Longrightarrow> (\<And>a. reads (f a)) \<Longrightarrow> reads (bind_act m f)"
  unfolding reads_def by (metis bind_cases)

lemma reads_map_err: "reads m \<Longrightarrow> reads (map_err g m)"
  unfolding reads_def by (metis map_err_state)

lemma reads_basic:
  "reads (ret x)" "reads (fail e)" "reads (required e y)" "reads (plan_user E hs now)"
  "reads (tb_one (pe_plans E) P)" "reads (tb_all (pe_plans E) P)" "reads (tb_one (pe_assignments E) Q)"
  "reads (tb_all (pe_assignments E) Q)" "reads (tb_count (pe_assignments E) Q)"
  unfolding reads_def
  using plan.one plan.all asg.one asg.all asg.count table_frameD [OF plan_frame] table_frameD [OF asg_frame]
  by (auto simp: plan_user_def lift_res_def dest: required_state)

lemmas reads_intros = reads_bind reads_map_err reads_basic

lemma reads_plan: "reads (find_plan E e i)" "reads (active_assignment E u)" "reads (parse_features E p)"
  "reads (check_new_name E i x n)"
  unfolding find_plan_def active_assignment_def parse_features_def check_new_name_def
  by (auto intro!: reads_intros split: option.split)

lemma reads_available: "reads (available_loop E c ps)"
  by (induction ps) (simp_all only: available_loop.simps Let_def reads_basic reads_bind reads_plan)

lemma reads_handlers:
  "reads (list_service_plans E now hs)" "reads (get_service_plan E now hs i)" "reads (get_my_service_plan E now hs)"
  "reads (get_my_service_plan_usage E clk hs)" "reads (get_available_service_plans E now hs)"
  "reads (request_service_plan_change E now j hs i)"
  unfolding list_service_plans_def get_service_plan_def get_my_service_plan_def my_plan_def get_my_service_plan_usage_def
    get_available_service_plans_def request_service_plan_change_def
  by (auto intro!: reads_intros reads_plan reads_available)

lemma find_plan_ok: "find_plan E e i d = (Inr p, d') \<Longrightarrow> p \<in># plans d \<and> spm_id p = i"
  unfolding find_plan_def by (auto simp: act_ok required_Inr dest!: plan.one_Some)

lemma read_cases [consumes 2, case_names err ok]:
  assumes "reads m" "bind_act m f d = (r, d')"
  obtains (err) e where "r = Inl e" "plans d' = plans d" "asgs d' = asgs d"
  | (ok) a d1 where "m d = (Inr a, d1)" "plans d1 = plans d" "asgs d1 = asgs d" "f a d1 = (r, d')"
  using assms(2)
proof (cases rule: bind_cases)
  case (err e)
  then show ?thesis using that(1) readsD [OF assms(1)] by blast
next
  case (ok a d1)
  then show ?thesis using that(2) readsD [OF assms(1)] by blast
qed

lemma insert_plan_cases:
  assumes "bind_act (db_api (tb_insert (pe_plans E) p)) (\<lambda>x. ret (plan_response x)) d = (r, d')"
  shows "asgs d' = asgs d \<and> (plans d' = plans d \<or>
    (r = Inr (plan_response p) \<and> spm_id p \<notin># image_mset spm_id (plans d) \<and> plans d' = add_mset p (plans d)))"
proof -
  obtain r0 where ins: "tb_insert (pe_plans E) p d = (r0, d')"
    and r: "r = (case r0 of Inr p \<Rightarrow> Inr (plan_response p) | Inl e \<Rightarrow> Inl (DatabaseError e))"
    using assms by (auto simp: bind_act_def map_err_def split: prod.splits sum.splits)
  show ?thesis
  proof (cases r0)
    case (Inl e)
    then show ?thesis using ins plan.insert_err table_frameD(4) [OF plan_frame ins] by auto
  next
    case (Inr y)
    then show ?thesis using ins r plan.insert_ok [of p d y d'] table_frameD(4) [OF plan_frame ins] by auto
  qed
qed

lemma create_effect:
  assumes "create_service_plan E clk i hs q d = (r, d')"
  shows "asgs d' = asgs d \<and> (plans d' = plans d \<or>
    (r = Inr (plan_response (new_plan i (clk 1) q)) \<and> i \<notin># image_mset spm_id (plans d)
     \<and> cp_name q \<notin># image_mset spm_name (plans d) \<and> plans d' = add_mset (new_plan i (clk 1) q) (plans d)))"
  using reads_basic(4) assms unfolding create_service_plan_def
proof (cases rule: read_cases)
  case (ok u d1)
  note d1 = this
  have "reads (db_api (tb_one (pe_plans E) (\<lambda>p. spm_name p = cp_name q)))" by (intro reads_map_err reads_basic)
  from this d1(4) show ?thesis
  proof (cases rule: read_cases)
    case (ok found d2)
    show ?thesis
    proof (cases found)
      case None
      then have "cp_name q \<notin># image_mset spm_name (plans d)" using ok(1) d1 by (auto dest!: plan.one_None)
      then show ?thesis using insert_plan_cases [of "new_plan i (clk 1) q" d2 r d'] ok d1 None
        by (auto simp: new_plan_def)
    qed (use ok d1 in auto)
  qed (use d1 in auto)
qed auto

lemma create_inserts:
  assumes "create_service_plan E clk i hs q d = (Inr resp, d')"
  shows "resp = plan_response (new_plan i (clk 1) q) \<and> i \<notin># image_mset spm_id (plans d)
    \<and> plans d' = add_mset (new_plan i (clk 1) q) (plans d)"
proof -
  obtain u d1 d2 y where ok: "plan_user E hs (clk 0) d = (Inr u, d1)"
    "tb_one (pe_plans E) (\<lambda>p. spm_name p = cp_name q) d1 = (Inr None, d2)"
    "tb_insert (pe_plans E) (new_plan i (clk 1) q) d2 = (Inr y, d')" "resp = plan_response y"
    using assms by (auto simp: create_service_plan_def act_ok split: if_splits)
  have "plans d2 = plans d" using plan.one_rows [OF ok(2)] readsD [OF reads_basic(4) ok(1)] by simp
  then show ?thesis using plan.insert_ok [OF ok(3)] ok(4) by (simp add: new_plan_def)
qed

lemma check_new_name_ok:
  assumes "check_new_name E i x name d = (Inr (), d')" "name = Some n" "n \<noteq> spm_name x"
  shows "\<And>y. y \<in># plans d \<Longrightarrow> spm_id y \<noteq> i \<Longrightarrow> spm_name y \<noteq> n"
  using assms by (auto simp: check_new_name_def act_ok split: if_splits dest!: plan.one_None)

lemma update_plan_cases:
  assumes "bind_act (db_api (tb_update (pe_plans E) i f)) (\<lambda>x. ret (plan_response x)) d = (r, d')"
  shows "asgs d' = asgs d \<and> (plans d' = plans d \<or>
    (\<exists>y. y \<in># plans d \<and> spm_id y = i \<and> r = Inr (plan_response (f y))
      \<and> plans d' = image_mset (\<lambda>p. if spm_id p = i then f p else p) (plans d)))"
proof -
  obtain r0 where upd: "tb_update (pe_plans E) i f d = (r0, d')"
    and r: "r = (case r0 of Inr p \<Rightarrow> Inr (plan_response p) | Inl e \<Rightarrow> Inl (DatabaseError e))"
    using assms by (auto simp: bind_act_def map_err_def split: prod.splits sum.splits)
  show ?thesis
  proof (cases r0)
    case (Inl e)
    then show ?thesis using upd plan.update_err table_frameD(5) [OF plan_frame upd] by auto
  next
    case (Inr y)
    then show ?thesis using upd r plan.update_ok [of i f d y d'] table_frameD(5) [OF plan_frame upd] by auto
  qed
qed

lemma update_effect:
  assumes "update_service_plan E now hs i u d = (r, d')"
  shows "asgs d' = asgs d \<and> (plans d' = plans d \<or>
    (\<exists>x y. x \<in># plans d \<and> spm_id x = i \<and> y \<in># plans d \<and> spm_id y = i \<and> r = Inr (plan_response (updated_columns u y))
      \<and> (\<forall>n z. up_name u = Some n \<and> n \<noteq> spm_name x \<and> z \<in># plans d \<and> spm_id z \<noteq> i \<longrightarrow> spm_name z \<noteq> n)
      \<and> plans d' = image_mset (\<lambda>p. if spm_id p = i then updated_columns u p else p) (plans d)))"
  using reads_basic(4) assms unfolding update_service_plan_def
proof (cases rule: read_cases)
  case (ok _ d1)
  note d1 = this
  from reads_plan(1) d1(4) show ?thesis
  proof (cases rule: read_cases)
    case (ok x d2)
    note d2 = this
    have x: "x \<in># plans d" "spm_id x = i" using find_plan_ok [OF ok(1)] d1 by auto
    from reads_plan(4) d2(4) [unfolded seq_act_def] show ?thesis
    proof (cases rule: read_cases)
      case (ok _ d3)
      have "spm_name z \<noteq> n" if "up_name u = Some n" "n \<noteq> spm_name x" "z \<in># plans d" "spm_id z \<noteq> i" for n z
        by (rule check_new_name_ok [where d = d2 and d' = d3, OF _ that(1,2)]) (use ok(1) that d1 d2 in simp_all)
      then show ?thesis using update_plan_cases [of i "updated_columns u" d3 r d'] ok d1 d2 x by simp blast
    qed (use d1 d2 in auto)
  qed (use d1 in auto)
qed auto

lemma delete_effect:
  assumes "delete_service_plan E now hs i d = (r, d')"
  shows "asgs d' = asgs d \<and> (plans d' = plans d \<or>
    ((\<forall>a. a \<in># active_rows (asgs d) \<longrightarrow> us_service_plan_id a \<noteq> i) \<and> plans d' = {#p \<in># plans d. spm_id p \<noteq> i#}))"
  using reads_basic(4) assms unfolding delete_service_plan_def
proof (cases rule: read_cases)
  case (ok _ d1)
  note d1 = this
  from reads_plan(1) d1(4) show ?thesis
  proof (cases rule: read_cases)
    case (ok x d2)
    note d2 = this
    have "reads (db_api (tb_count (pe_assignments E) (\<lambda>a. us_service_plan_id a = i \<and> us_is_active a)))"
      by (intro reads_map_err reads_basic)
    from this d2(4) show ?thesis
    proof (cases rule: read_cases)
      case (ok n d3)
      show ?thesis
      proof (cases "n = 0")
        case True
        then have none: "\<forall>a. a \<in># active_rows (asgs d) \<longrightarrow> us_service_plan_id a \<noteq> i"
          using ok(1) d1 d2 by (auto dest!: asg.count_zero)
        obtain r0 where del: "tb_delete (pe_plans E) i d3 = (r0, d')"
          using ok(4) True by (auto simp: bind_act_def map_err_def split: prod.splits sum.splits)
        have "plans d' = plans d \<or> plans d' = {#p \<in># plans d. spm_id p \<noteq> i#}"
          using del ok d1 d2 by (cases r0) (auto dest!: plan.delete_ok plan.delete_err)
        then show ?thesis using none table_frameD(6) [OF plan_frame del] ok d1 d2 by auto
      qed (use ok d1 d2 in auto)
    qed (use d1 d2 in auto)
  qed (use d1 in auto)
qed auto

lemma update_assignment_rows:
  assumes "tb_update (pe_assignments E) k (\<lambda>x. x\<lparr> us_is_active := False \<rparr>) d = (Inr y, d')"
  shows "asgs d' = image_mset (deactivate {k}) (asgs d)"
proof -
  have "(\<lambda>x. if us_id x = k then x\<lparr> us_is_active := False \<rparr> else x) = deactivate {k}"
    by (simp add: fun_eq_iff deactivate_def)
  then show ?thesis using asg.update_ok [OF assms] by simp
qed

lemma deactivate_again: "deactivate S (deactivate {k} a) = deactivate (insert k S) a"
  by (simp add: deactivate_def)

lemma deactivate_none: "image_mset (deactivate {}) A = A"
  by (induction A) (simp_all add: deactivate_def)

lemma deactivate_all_effect:
  assumes "deactivate_all E as d = (r, d')"
  shows "plans d' = plans d \<and> (\<exists>S. asgs d' = image_mset (deactivate S) (asgs d) \<and> (r = Inr () \<longrightarrow> S = us_id ` set as))"
  using assms
proof (induction "as" arbitrary: d)
  case Nil
  then show ?case using deactivate_none [of "asgs d"] by (auto intro!: exI [of _ "{}"])
next
  case (Cons a as)
  from Cons.prems [unfolded deactivate_all.simps seq_act_def] show ?case
  proof (cases rule: bind_cases)
    case (err e)
    obtain e0 where u: "tb_update (pe_assignments E) (us_id a) (\<lambda>x. x\<lparr> us_is_active := False \<rparr>) d = (Inl e0, d')"
      using err(1) by (auto simp: map_err_err)
    show ?thesis using err asg.update_err [OF u] table_frameD(5) [OF asg_frame u]
      by (auto intro!: exI [of _ "{}"] simp: deactivate_none)
  next
    case (ok y d1)
    have u: "tb_update (pe_assignments E) (us_id a) (\<lambda>x. x\<lparr> us_is_active := False \<rparr>) d = (Inr y, d1)" using ok(1) by simp
    obtain S where S: "plans d' = plans d1" "asgs d' = image_mset (deactivate S) (asgs d1)" "r = Inr () \<longrightarrow> S = us_id ` set as"
      using Cons.IH [OF ok(2)] by blast
    have "asgs d' = image_mset (deactivate (insert (us_id a) S)) (asgs d)"
      unfolding S(2) update_assignment_rows [OF u] by (simp add: multiset.map_comp comp_def deactivate_again)
    then show ?thesis using S(1,3) table_frameD(5) [OF asg_frame u] by (metis image_insert list.simps(15))
  qed
qed

lemma deactivated_insert:
  assumes "bind_act (deactivate_all E as) (\<lambda>_. bind_act (db_api (tb_insert (pe_assignments E) x))
      (\<lambda>y. ret (assignment_response y))) d = (r, d')"
  shows "plans d' = plans d \<and> ((\<exists>S. asgs d' = image_mset (deactivate S) (asgs d)) \<or>
    (us_id x \<notin># image_mset us_id (asgs d) \<and> r = Inr (assignment_response x)
      \<and> asgs d' = add_mset x (image_mset (deactivate (us_id ` set as)) (asgs d))))"
  using assms
proof (cases rule: bind_cases)
  case (err e)
  then show ?thesis using deactivate_all_effect by blast
next
  case (ok _ d1)
  have d1: "plans d1 = plans d" "asgs d1 = image_mset (deactivate (us_id ` set as)) (asgs d)"
    using deactivate_all_effect [OF ok(1)] by auto
  obtain r0 where ins: "tb_insert (pe_assignments E) x d1 = (r0, d')"
    and r: "r = (case r0 of Inr p \<Rightarrow> Inr (assignment_response p) | Inl e \<Rightarrow> Inl (DatabaseError e))"
    using ok(2) by (auto simp: bind_act_def map_err_def split: prod.splits sum.splits)
  have p: "plans d' = plans d" using d1 table_frameD(4) [OF asg_frame ins] by simp
  show ?thesis
  proof (cases r0)
    case (Inl e)
    then show ?thesis using ins p d1 asg.insert_err by metis
  next
    case (Inr y)
    have "y = x" "us_id x \<notin># image_mset us_id (asgs d1)" "asgs d' = add_mset x (asgs d1)"
      using asg.insert_ok [of x d1 y d'] ins Inr by auto
    then show ?thesis using p r Inr d1 by (simp add: image_iff)
  qed
qed

lemma assign_effect:
  assumes "assign_service_plan_to_user E clk j hs u q d = (r, d')"
  shows "plans d' = plans d \<and> ((\<exists>S. asgs d' = image_mset (deactivate S) (asgs d)) \<or>
    (as_service_plan_id q \<in># image_mset spm_id (plans d) \<and> j \<notin># image_mset us_id (asgs d)
      \<and> r = Inr (assignment_response (new_assignment j clk u q))
      \<and> asgs d' = add_mset (new_assignment j clk u q)
          (image_mset (deactivate (us_id ` {a. a \<in># asgs d \<and> us_user_id a = u \<and> us_is_active a})) (asgs d))))"
    (is "?P d'")
proof -
  have same: "?P e" if "plans e = plans d" "asgs e = asgs d" for e using that deactivate_none [of "asgs d"] by metis
  from reads_basic(4) assms [unfolded assign_service_plan_to_user_def] show ?thesis
  proof (cases rule: read_cases)
    case (ok _ d1)
    note d1 = this
    from reads_plan(1) d1(4) show ?thesis
    proof (cases rule: read_cases)
      case (ok p d2)
      note d2 = this
      have "p \<in># plans d" "spm_id p = as_service_plan_id q" using find_plan_ok [OF d2(1)] d1(2) by simp_all
      then have p: "as_service_plan_id q \<in># image_mset spm_id (plans d)" by (metis image_eqI set_image_mset)
      have "reads (db_api (tb_all (pe_assignments E) (\<lambda>a. us_user_id a = u \<and> us_is_active a)))"
        by (intro reads_map_err reads_basic)
      from this d2(4) show ?thesis
      proof (cases rule: read_cases)
        case (ok as d3)
        have rows: "plans d3 = plans d" "asgs d3 = asgs d" using ok(2,3) d1(2,3) d2(2,3) by simp_all
        have "tb_all (pe_assignments E) (\<lambda>a. us_user_id a = u \<and> us_is_active a) d2 = (Inr as, d3)" using ok(1) by simp
        then have old: "set as = {a. a \<in># asgs d \<and> us_user_id a = u \<and> us_is_active a}"
          using asg.all_set d1(3) d2(3) by metis
        have new: "us_id (new_assignment j clk u q) = j" by (simp add: new_assignment_def)
        show ?thesis
          using deactivated_insert [OF ok(4) [unfolded seq_act_def], unfolded rows new old] p by (elim conjE disjE) simp_all
      qed (rule same, simp_all add: d1(2,3) d2(2,3))
    qed (rule same, simp_all add: d1(2,3))
  qed (rule same)
qed

lemma updated_columns_id [simp]: "spm_id (updated_columns u p) = spm_id p"
  by (simp add: updated_columns_def)

lemma updated_columns_name: "spm_name (updated_columns u p) = (case up_name u of Some n \<Rightarrow> n | None \<Rightarrow> spm_name p)"
  by (simp add: updated_columns_def set_or_def split: option.split)

lemma update_keeps:
  assumes ok: "plans_ok (plans d) (asgs d)" and run: "update_service_plan E now hs i u d = (r, d')"
  shows "plans_ok (plans d') (asgs d')"
  using update_effect [OF run]
proof (elim conjE disjE exE)
  fix x y
  assume "asgs d' = asgs d" and x: "x \<in># plans d" "spm_id x = i"
    and free: "\<forall>n z. up_name u = Some n \<and> n \<noteq> spm_name x \<and> z \<in># plans d \<and> spm_id z \<noteq> i \<longrightarrow> spm_name z \<noteq> n"
    and "plans d' = image_mset (\<lambda>p. if spm_id p = i then updated_columns u p else p) (plans d)"
  then show ?thesis
    using plans_ok_update [where g = "updated_columns u", OF ok x updated_columns_id] by (simp add: updated_columns_name split: option.splits)
qed (simp add: ok)

lemma step_keeps:
  assumes ok: "plans_ok (plans d) (asgs d)"
  shows "plans_ok (plans (plan_step E c d)) (asgs (plan_step E c d))"
proof (cases c)
  case (CreatePlan clk i hs q)
  obtain r d' where run: "create_service_plan E clk i hs q d = (r, d')" by fastforce
  show ?thesis using create_effect [OF run] ok plans_ok_add [OF ok, of "new_plan i (clk 1) q"] run CreatePlan
    by (auto simp: new_plan_def)
next
  case (UpdatePlan now hs i u)
  then show ?thesis using update_keeps [OF ok, of now hs i u] by (metis plan_step.simps(4) prod.collapse)
next
  case (DeletePlan now hs i)
  obtain r d' where run: "delete_service_plan E now hs i d = (r, d')" by fastforce
  show ?thesis using delete_effect [OF run] ok plans_ok_delete [OF ok, of i] run DeletePlan by auto
next
  case (AssignPlan clk j hs u q)
  obtain r d' where run: "assign_service_plan_to_user E clk j hs u q d = (r, d')" by fastforce
  let ?x = "new_assignment j clk u q"
  have x: "us_service_plan_id ?x = as_service_plan_id q" "us_id ?x = j" "us_user_id ?x = u" by (simp_all add: new_assignment_def)
  show ?thesis using assign_effect [OF run] plans_ok_deactivate [OF ok] plans_ok_assign [OF ok, of ?x, unfolded x, OF _ _ refl] run AssignPlan
    by (elim conjE disjE exE) (simp_all only: plan_step.simps snd_conv not_False_eq_True True_implies_equals)
next
  case (ListPlans now hs)
  then show ?thesis using reads_handlers(1) [of now hs] ok by (metis plan_step.simps(2) prod.collapse readsD)
next
  case (GetPlan now hs i)
  then show ?thesis using reads_handlers(2) [of now hs i] ok by (metis plan_step.simps(3) prod.collapse readsD)
next
  case (MyPlan now hs)
  then show ?thesis using reads_handlers(3) [of now hs] ok by (metis plan_step.simps(7) prod.collapse readsD)
next
  case (MyUsage clk hs)
  then show ?thesis using reads_handlers(4) [of clk hs] ok by (metis plan_step.simps(8) prod.collapse readsD)
next
  case (AvailablePlans now hs)
  then show ?thesis using reads_handlers(5) [of now hs] ok by (metis plan_step.simps(9) prod.collapse readsD)
next
  case (RequestChange now j hs i)
  then show ?thesis using reads_handlers(6) [of now j hs i] ok by (metis plan_step.simps(10) prod.collapse readsD)
qed

lemma run_keeps:
  "plans_ok (plans d) (asgs d) \<Longrightarrow> plans_ok (plans (fold (plan_step E) cs d)) (asgs (fold (plan_step E) cs d))"
  by (induction cs arbitrary: d) (simp_all add: step_keeps)

lemma plan_user_ok: "plan_user E hs now d = (Inr u, d') \<longleftrightarrow> authenticate (pe_md5 E) (pe_secret E) False hs now = Inr u \<and> d' = d"
  by (auto simp: plan_user_def lift_res_ok)

lemma find_plan_unique:
  assumes "is_ok (fst (tb_one (pe_plans E) (\<lambda>p. spm_id p = i) d))"
    and "p \<in># plans d" "spm_id p = i" "\<And>x. x \<in># plans d \<Longrightarrow> spm_id x = i \<Longrightarrow> x = p"
  shows "\<exists>d'. find_plan E e i d = (Inr p, d') \<and> plans d' = plans d \<and> asgs d' = asgs d"
proof -
  obtain r d' where r: "tb_one (pe_plans E) (\<lambda>p. spm_id p = i) d = (Inr r, d')"
    using assms(1) by (cases "tb_one (pe_plans E) (\<lambda>p. spm_id p = i) d"; cases "fst (tb_one (pe_plans E) (\<lambda>p. spm_id p = i) d)") auto
  have "r = Some p" using plan.one_Some plan.one_None r assms by (cases r) blast+
  then show ?thesis using r plan.one_rows [OF r] table_frameD(1) [OF plan_frame r]
    by (auto simp: find_plan_def bind_act_def map_err_def required_def)
qed

lemma active_unique:
  assumes "is_ok (fst (tb_one (pe_assignments E) (\<lambda>a. us_user_id a = u \<and> us_is_active a) d))"
    and "a \<in># asgs d" "us_user_id a = u" "us_is_active a"
    and "\<And>x. x \<in># asgs d \<Longrightarrow> us_user_id x = u \<Longrightarrow> us_is_active x \<Longrightarrow> x = a"
  shows "\<exists>d'. active_assignment E u d = (Inr (Some a), d') \<and> plans d' = plans d \<and> asgs d' = asgs d"
proof -
  let ?q = "tb_one (pe_assignments E) (\<lambda>a. us_user_id a = u \<and> us_is_active a)"
  obtain r d' where r: "?q d = (Inr r, d')" using assms(1) by (cases "?q d"; cases "fst (?q d)") auto
  have "r = Some a" using asg.one_Some asg.one_None r assms by (cases r) blast+
  then show ?thesis using r asg.one_rows [OF r] table_frameD(1) [OF asg_frame r]
    by (auto simp: active_assignment_def map_err_def)
qed

lemma assigned_active:
  assumes "assign_service_plan_to_user E clk j hs u q d = (Inr resp, d')"
  shows "\<exists>p. p \<in># plans d \<and> spm_id p = as_service_plan_id q \<and> plans d' = plans d \<and> new_assignment j clk u q \<in># asgs d'
    \<and> (\<forall>x. x \<in># asgs d' \<and> us_user_id x = u \<and> us_is_active x \<longrightarrow> x = new_assignment j clk u q)"
proof -
  obtain u0 d1 p d2 as d3 y d4 where ok: "find_plan E (plan_not_found (as_service_plan_id q)) (as_service_plan_id q) d1 = (Inr p, d2)"
    "plan_user E hs (clk 0) d = (Inr u0, d1)"
    "tb_all (pe_assignments E) (\<lambda>a. us_user_id a = u \<and> us_is_active a) d2 = (Inr as, d3)"
    "deactivate_all E as d3 = (Inr (), d4)" "tb_insert (pe_assignments E) (new_assignment j clk u q) d4 = (Inr y, d')"
    using assms by (auto simp: assign_service_plan_to_user_def act_ok)
  have d1: "d1 = d" using ok(2) by (simp add: plan_user_ok)
  have p: "p \<in># plans d" "spm_id p = as_service_plan_id q" using find_plan_ok [OF ok(1)] by (simp_all add: d1)
  have d2: "plans d2 = plans d" "asgs d2 = asgs d" using readsD [OF reads_plan(1) ok(1)] by (simp_all add: d1)
  have d3: "plans d3 = plans d" "asgs d3 = asgs d" "set as = {a. a \<in># asgs d \<and> us_user_id a = u \<and> us_is_active a}"
    using asg.all_set [OF ok(3)] table_frameD(2) [OF asg_frame ok(3)] d2 by auto
  have d4: "plans d4 = plans d" "asgs d4 = image_mset (deactivate (us_id ` set as)) (asgs d)"
    using deactivate_all_effect [OF ok(4)] d3 by auto
  have d': "plans d' = plans d" "asgs d' = add_mset (new_assignment j clk u q) (asgs d4)"
    using asg.insert_ok [OF ok(5)] table_frameD(4) [OF asg_frame ok(5)] d4 by auto
  have "x = new_assignment j clk u q" if x: "x \<in># asgs d'" "us_user_id x = u" "us_is_active x" for x
  proof (rule ccontr)
    assume "x \<noteq> new_assignment j clk u q"
    then obtain y where y: "y \<in># asgs d" "x = deactivate (us_id ` set as) y" using x(1) by (auto simp: d'(2) d4(2))
    then have "us_user_id y = u" "us_is_active y" "us_id y \<notin> us_id ` set as" using x(2,3) by simp_all
    then show False using y(1) d3(3) by blast
  qed
  then show ?thesis using p d' by auto
qed

end

section \<open>Properties\<close>

text \<open>A database held in memory.\<close>

type_synonym plan_store = "ServicePlanModel list \<times> UserServicePlanModel list"

definition mem_plan_env :: "(plan_store, string) plan_env" where
  "mem_plan_env =
     \<lparr> pe_md5 = (\<lambda>_. ''ab''), pe_secret = ''key'',
       pe_plans = mem_table fst (\<lambda>xs d. (xs, snd d)) spm_id,
       pe_assignments = mem_table snd (\<lambda>xs d. (fst d, xs)) us_id, pe_json = Some \<rparr>"

interpretation memp: plan_database mem_plan_env "\<lambda>d. mset (fst d)" "\<lambda>d. mset (snd d)"
proof (intro plan_database.intro plan_database_axioms.intro)
  show "db_table (pe_plans mem_plan_env) spm_id (\<lambda>d. mset (fst d))"
    using mem_table_laws [where get = "fst :: plan_store \<Rightarrow> _" and put = "\<lambda>xs d. (xs, snd d)" and key = spm_id]
    by (simp add: mem_plan_env_def)
  show "db_table (pe_assignments mem_plan_env) us_id (\<lambda>d. mset (snd d))"
    using mem_table_laws [where get = "snd :: plan_store \<Rightarrow> _" and put = "\<lambda>xs d. (fst d, xs)" and key = us_id]
    by (simp add: mem_plan_env_def)
qed (simp_all add: mem_plan_env_def mem_table_frame)

lemma mem_plan_fields:
  "pe_plans mem_plan_env = mem_table fst (\<lambda>xs d. (xs, snd d)) spm_id"
  "pe_assignments mem_plan_env = mem_table snd (\<lambda>xs d. (fst d, xs)) us_id"
  "pe_json mem_plan_env = Some" "pe_md5 mem_plan_env = (\<lambda>_. ''ab'')" "pe_secret mem_plan_env = ''key''"
  by (simp_all add: mem_plan_env_def)

lemma mem_answers: "\<forall>P d. is_ok (fst (tb_one (mem_table get put key) P d))"
  by (simp add: mem_table_def)

lemma limit_sign: "u32_as_i32 w = (if uint w < 2 ^ 31 then uint w else uint w - 2 ^ 32)"
proof -
  have eq: "u32_as_i32 w = (uint w + 2 ^ 31) mod 2 ^ 32 - 2 ^ 31"
    by (simp add: u32_as_i32_def sint_uint signed_take_bit_eq_take_bit_shift take_bit_eq_mod)
  have w: "0 \<le> uint w" "uint w < 2 ^ 32" using uint_lt2p [of w] by simp_all
  show ?thesis
  proof (cases "uint w < 2 ^ 31")
    case True
    then have "(uint w + 2 ^ 31) mod 2 ^ 32 = uint w + 2 ^ 31" using w by (intro mod_pos_pos_trivial) simp_all
    then show ?thesis using True eq by simp
  next
    case False
    have "(uint w + 2 ^ 31) mod 2 ^ 32 = (uint w + 2 ^ 31 - 2 ^ 32) mod 2 ^ 32" by (rule minus_mod_self2 [symmetric])
    also have "\<dots> = uint w + 2 ^ 31 - 2 ^ 32" using w False by (intro mod_pos_pos_trivial) simp_all
    finally show ?thesis using False eq by simp
  qed
qed

definition demo_plan_request :: CreateServicePlanRequest where
  "demo_plan_request = \<lparr> cp_name = ''pro'', cp_api_rate_limit = 3000000000, cp_tunnel_creation_limit = 10,
     cp_dns_provisioning_limit = 10, cp_max_concurrent_tunnels = 5, cp_features_json = None \<rparr>"

definition demo_token :: headers where
  "demo_token = demo_headers ''7:ann:0.ab''"

definition demo_plan :: ServicePlanModel where
  "demo_plan = new_plan ''p'' 0 demo_plan_request"

definition demo_assign :: AssignServicePlanRequest where
  "demo_assign = \<lparr> as_service_plan_id = ''p'', as_end_date = None \<rparr>"

lemma demo_user: "plan_user mem_plan_env demo_token 0 d = (Inr (named_user ''7'' ''ann''), d)"
  using demo_token_valid by (simp add: plan_user_def mem_plan_fields demo_token_def)

lemma demo_names [simp]: "spm_id demo_plan = ''p''" "spm_name demo_plan = ''pro''" "cp_name demo_plan_request = ''pro''"
  by (simp_all add: demo_plan_def new_plan_def demo_plan_request_def)

lemma demo_plan_created:
  "create_service_plan mem_plan_env (\<lambda>_. 0) ''p'' demo_token demo_plan_request ([], [])
     = (Inr (plan_response demo_plan), ([demo_plan], []))"
  by (simp add: create_service_plan_def bind_act_def map_err_def demo_user mem_plan_fields mem_table_def flip: demo_plan_def)

lemma demo_plan_assigned:
  "assign_service_plan_to_user mem_plan_env (\<lambda>_. 0) 1 demo_token ''7'' demo_assign ([demo_plan], [])
     = (Inr (assignment_response (new_assignment 1 (\<lambda>_. 0) ''7'' demo_assign)),
        ([demo_plan], [new_assignment 1 (\<lambda>_. 0) ''7'' demo_assign]))"
  by (simp add: assign_service_plan_to_user_def find_plan_def required_def seq_act_def bind_act_def map_err_def demo_user
      mem_plan_fields mem_table_def demo_assign_def)

lemma demo_plan_kept:
  "delete_service_plan mem_plan_env 0 demo_token ''p'' ([demo_plan], [new_assignment 1 (\<lambda>_. 0) ''7'' demo_assign])
     = (Inl (ValidationError ''Cannot delete ServicePlan with active user assignments''),
        ([demo_plan], [new_assignment 1 (\<lambda>_. 0) ''7'' demo_assign]))"
  by (simp add: delete_service_plan_def find_plan_def required_def bind_act_def map_err_def demo_user mem_plan_fields
      mem_table_def demo_assign_def new_assignment_def)

text \<open>
  C17: the tables of plans and assignments stay consistent.  Over every sequence of requests to the plan
  handlers, whether they succeed, are refused or meet an error of the database half way, plan ids and plan
  names stay unique, every user has at most one active assignment, and no active assignment refers to a plan
  that has been deleted.
\<close>

theorem service_plans_consistent:
  assumes "plan_database E plans asgs" and "plans_ok (plans d) (asgs d)"
  shows "plans_ok (plans (fold (plan_step E) cs d)) (asgs (fold (plan_step E) cs d))"
  using plan_database.run_keeps [OF assms] .

theorem service_plans_consistent_witness:
  "fold (plan_step mem_plan_env) [CreatePlan (\<lambda>_. 0) ''p'' demo_token demo_plan_request,
      AssignPlan (\<lambda>_. 0) 1 demo_token ''7'' demo_assign, DeletePlan 0 demo_token ''p''] ([], [])
    = ([demo_plan], [new_assignment 1 (\<lambda>_. 0) ''7'' demo_assign])
   \<and> plans_ok (mset [demo_plan]) (mset [new_assignment 1 (\<lambda>_. 0) ''7'' demo_assign])"
proof -
  let ?cs = "[CreatePlan (\<lambda>_. 0) ''p'' demo_token demo_plan_request,
      AssignPlan (\<lambda>_. 0) 1 demo_token ''7'' demo_assign, DeletePlan 0 demo_token ''p'']"
  have run: "fold (plan_step mem_plan_env) ?cs ([], []) = ([demo_plan], [new_assignment 1 (\<lambda>_. 0) ''7'' demo_assign])"
    by (simp add: demo_plan_created demo_plan_assigned demo_plan_kept)
  have "plans_ok (mset (fst ([], []))) (mset (snd ([], [])))" by (simp add: plans_ok_def)
  from service_plans_consistent [OF memp.plan_database_axioms this, of ?cs] run show ?thesis by simp
qed



text \<open>
  C25: an assigned plan is the one its user sees.  After a plan has been assigned to a user, the request of
  that user for the own plan is answered with that plan, its quotas and the dates of the assignment, as long
  as the database answers and the features of the plan are valid JSON; whatever was assigned before.
\<close>

theorem assigned_plan_shown:
  assumes db: "plan_database E plans asgs" and ok: "plans_ok (plans d) (asgs d)"
    and assign: "assign_service_plan_to_user E clk j hs (gu_id user) q d = (Inr resp, d')"
    and auth: "authenticate (pe_md5 E) (pe_secret E) False hs' now = Inr user"
    and answers: "\<forall>P d. is_ok (fst (tb_one (pe_plans E) P d))" "\<forall>P d. is_ok (fst (tb_one (pe_assignments E) P d))"
    and json: "\<forall>p. p \<in># plans d \<longrightarrow> pe_json E (or_empty_object (spm_features_json p)) \<noteq> None"
  shows "\<exists>p r. p \<in># plans d \<and> spm_id p = as_service_plan_id q \<and> fst (get_my_service_plan E now hs' d') = Inr r
    \<and> mp_service_plan_id r = as_service_plan_id q \<and> mp_name r = spm_name p \<and> mp_quotas r = quotas_of p
    \<and> mp_assignment_date r = clk 1 \<and> mp_end_date r = as_end_date q \<and> mp_is_active r"
proof -
  let ?a = "new_assignment j clk (gu_id user) q"
  obtain p where p: "p \<in># plans d" "spm_id p = as_service_plan_id q" and d': "plans d' = plans d" "?a \<in># asgs d'"
    and only: "\<And>x. x \<in># asgs d' \<Longrightarrow> us_user_id x = gu_id user \<Longrightarrow> us_is_active x \<Longrightarrow> x = ?a"
    using plan_database.assigned_active [OF db assign] by blast
  have a: "us_user_id ?a = gu_id user" "us_is_active ?a" "us_service_plan_id ?a = as_service_plan_id q"
    "us_start_date ?a = clk 1" "us_end_date ?a = as_end_date q"
    by (simp_all add: new_assignment_def)
  obtain d1 where d1: "active_assignment E (gu_id user) d' = (Inr (Some ?a), d1)" "plans d1 = plans d"
    using plan_database.active_unique [OF db answers(2) [rule_format] d'(2) a(1,2) only] d'(1) by metis
  have same: "x = p" if "x \<in># plans d1" "spm_id x = as_service_plan_id q" for x
  proof -
    have "unique_by spm_id (plans d)" using ok by (simp add: plans_ok_def)
    then obtain N where "plans d = add_mset p N" "\<And>y. y \<in># N \<Longrightarrow> spm_id y \<noteq> spm_id p" using unique_by_split p(1) by metis
    then show ?thesis using that d1(2) p(2) by auto
  qed
  have "p \<in># plans d1" using p(1) d1(2) by simp
  then obtain d2 where d2: "find_plan E (NotFound ''ServicePlan not found'') (as_service_plan_id q) d1 = (Inr p, d2)"
    using plan_database.find_plan_unique [OF db answers(1) [rule_format] _ p(2) same] by blast
  obtain f where f: "pe_json E (or_empty_object (spm_features_json p)) = Some f" using json p(1) by blast
  let ?r = "\<lparr> mp_service_plan_id = spm_id p, mp_name = spm_name p, mp_description = plan_description p, mp_features = f,
    mp_quotas = quotas_of p, mp_assignment_date = us_start_date ?a, mp_end_date = us_end_date ?a, mp_is_active = us_is_active ?a \<rparr>"
  have "my_plan E now hs' d' = (Inr (?a, p), d2)"
    using d1(1) d2 auth by (simp add: my_plan_def plan_user_def bind_act_def lift_res_def required_def a(3))
  then have "fst (get_my_service_plan E now hs' d') = Inr ?r"
    using f by (simp add: get_my_service_plan_def bind_act_def parse_features_def required_def)
  then show ?thesis using p a by (intro exI [of _ p] exI [of _ ?r]) simp
qed

theorem assigned_plan_shown_witness:
  "\<exists>r. fst (get_my_service_plan mem_plan_env 0 demo_token ([demo_plan], [new_assignment 1 (\<lambda>_. 0) ''7'' demo_assign])) = Inr r
     \<and> mp_service_plan_id r = ''p'' \<and> mp_is_active r"
proof -
  have auth: "authenticate (pe_md5 mem_plan_env) (pe_secret mem_plan_env) False demo_token 0 = Inr (named_user ''7'' ''ann'')"
    using demo_token_valid by (simp add: mem_plan_fields demo_token_def)
  have ok: "plans_ok (mset (fst ([demo_plan], [] :: UserServicePlanModel list))) (mset (snd ([demo_plan], [])))"
    by (simp add: plans_ok_def unique_by_add)
  have u: "gu_id (named_user ''7'' ''ann'') = ''7''" by (simp add: named_user_def)
  have assign: "assign_service_plan_to_user mem_plan_env (\<lambda>_. 0) 1 demo_token (gu_id (named_user ''7'' ''ann'')) demo_assign
      ([demo_plan], []) = (Inr (assignment_response (new_assignment 1 (\<lambda>_. 0) ''7'' demo_assign)),
      ([demo_plan], [new_assignment 1 (\<lambda>_. 0) ''7'' demo_assign]))"
    unfolding u by (rule demo_plan_assigned)
  from assigned_plan_shown [OF memp.plan_database_axioms ok assign auth] show ?thesis
    by (auto simp: mem_plan_fields mem_answers demo_assign_def u)
qed

end
