(* ===== verification/Spec2Isabelle.thy ===== *)
theory Spec2Isabelle
  imports Prelude Errors Ddos_Guard Redis_Store Tunnel_Types Tunnel_Storage Port_Allocation
    Tunnel_Directory Ssh_Hub Edge_Router Ip_Text Dns_Handler Dnssec_Keys Auth_Tokens Quotas
    Window_Counter Cert_Authority Wildcard_Certs Tunnel_Api Shutdown_Flow Rate_Limits Hub_Server Cli_Keys
    Cli_Tunnel Db_Schema Db_Table Service_Plans
begin

text \<open>
  Verification development of FleetingDNS.
\<close>

section \<open>From the creation of a tunnel to its first viewer\<close>

text \<open>A store that answers the commands the hub and the router send while a tunnel comes up.\<close>

definition responsive :: "'s redis \<Rightarrow> bool" where
  "responsive R \<longleftrightarrow> (\<forall>s. is_ok (fst (r_conn R s))) \<and> (\<forall>t k s. is_ok (fst (r_get R t k s)))
     \<and> (\<forall>t p s. is_ok (fst (r_keys R t p s)))"

text \<open>No two records the directory can reach share the slot or the subdomain.\<close>

definition sole_record :: "codec \<Rightarrow> (string \<Rightarrow> string option) \<Rightarrow> u16 \<Rightarrow> string \<Rightarrow> bool" where
  "sole_record C m slot sub \<longleftrightarrow>
     (\<forall>i j. listed C m i \<and> listed C m j \<and> (ti_slot i = slot \<or> ti_subdomain i = sub)
        \<and> (ti_slot j = slot \<or> ti_subdomain j = sub) \<longrightarrow> i = j)"

lemma is_ok_fst: "is_ok (fst x) \<Longrightarrow> \<exists>v s. x = (Inr v, s)"
  by (cases x; cases "fst x") auto

lemma responsive_get: "responsive R \<Longrightarrow> \<exists>v s'. r_get R t k s = (Inr v, s')"
  and responsive_conn: "responsive R \<Longrightarrow> \<exists>v s'. r_conn R s = (Inr v, s')"
  and responsive_keys: "responsive R \<Longrightarrow> \<exists>v s'. r_keys R t p s = (Inr v, s')"
  unfolding responsive_def by (blast intro: is_ok_fst)+

lemma scan_ids_responsive:
  assumes "responsive R"
  shows "is_ok (fst (scan_ids R C now P is s))"
proof (induction "is" arbitrary: s)
  case (Cons i "is")
  obtain v s' where "r_get R now (tunnel_key i) s = (Inr v, s')" using responsive_get [OF assms] by blast
  then show ?case using Cons by (auto simp: bind_act_def map_err_def split: option.split sum.split)
qed simp

lemma scan_users_responsive:
  assumes "responsive R"
  shows "is_ok (fst (scan_users R C now P ks s))"
proof (induction ks arbitrary: s)
  case (Cons k ks)
  obtain v s' where g: "r_get R now k s = (Inr v, s')" using responsive_get [OF assms] by blast
  have "is_ok (fst (bind_act (scan_ids R C now P is)
      (\<lambda>found. case found of Some info \<Rightarrow> ret (Some info) | None \<Rightarrow> scan_users R C now P ks) s'))" for "is"
    using is_ok_fst [OF scan_ids_responsive [OF assms, of C now P "is" s']] Cons
    by (auto simp: bind_act_def split: option.split)
  moreover have "map_err Fd_RedisError (r_get R now k) s = (Inr v, s')" by (simp add: map_err_def g)
  ultimately show ?case using Cons by (simp add: bind_act_Inr split: option.split sum.split)
qed simp

lemma scan_finds:
  assumes env: "storage_env R view C" and up: "responsive R"
    and l: "listed C (view s t) info" "P info" and sole: "\<And>i. listed C (view s t) i \<Longrightarrow> P i \<Longrightarrow> i = info"
  shows "\<exists>s'. scan_tunnels R C t P s = (Inr (Some info), s') \<and> same_from t (view s) (view s')"
proof -
  obtain u s1 ks s2 where c: "r_conn R s = (Inr u, s1)" and k: "r_keys R t (''tunnel_lookup:'' @ ''*'') s1 = (Inr ks, s2)"
    using responsive_conn [OF up] responsive_keys [OF up] by metis
  obtain r s' where r: "scan_users R C t P ks s2 = (Inr r, s')" using is_ok_fst [OF scan_users_responsive [OF up]] by blast
  have scan: "scan_tunnels R C t P s = (Inr r, s')"
    using c k r by (simp add: scan_tunnels_def connect_def seq_act_def bind_act_def map_err_def)
  note ok = storage_env.scan_tunnels_ok [OF env scan]
  have "r = Some info"
  proof (cases r)
    case None
    with ok(2) l show ?thesis by simp
  next
    case (Some i)
    with ok(2) sole show ?thesis by simp
  qed
  with scan ok(1) show ?thesis by simp
qed

lemma validate_public_key_accepts:
  assumes env: "storage_env R view C" and up: "responsive R"
    and stored: "view s t (pre @ '':'' @ i) = Some data" "de_session C data = Inr session"
    and valid: "t \<le> sd_expires_at session" "fp key = sd_fingerprint session"
  shows "\<exists>s'. validate_public_key R C fp t pre key i s = (Inr True, s') \<and> same_from t (view s) (view s')"
proof -
  have srv: "redis_server R view" using env by (simp add: storage_env_def)
  obtain u s1 v s2 where c: "r_conn R s = (Inr u, s1)" and g: "r_get R t (pre @ '':'' @ i) s1 = (Inr v, s2)"
    using responsive_conn [OF up] responsive_get [OF up] by metis
  have v1: "view s1 = view s" by (rule redis_server.conn_law [OF srv c])
  have "v = Some data" "same_from t (view s) (view s2)"
    using redis_server.get_law [OF srv g] stored(1) by (simp_all add: v1)
  then show ?thesis
    using c g stored(2) valid by (simp add: validate_public_key_def seq_act_def bind_act_def map_err_def)
qed

section \<open>The records of a created tunnel\<close>

lemma merge_lookup_member: "uuid_to_string C (t_id t) \<in> set (lk_tunnels (merge_lookup C t prev))"
  by (simp add: merge_lookup_def Let_def)

lemma whole_seconds_left:
  fixes d :: int
  assumes "0 \<le> d" "d < 2 ^ 63 * 1000000000"
  shows "int (unat (as_u64 (num_seconds d))) = d div 1000000000" and "d div 1000000000 < 2 ^ 63" and "0 \<le> d div 1000000000"
proof -
  have n: "num_seconds d = d div 1000000000" using assms(1) by (simp add: num_seconds_def)
  show l: "d div 1000000000 < 2 ^ 63" using assms(2) by linarith
  show z: "0 \<le> d div 1000000000" using assms(1) by simp
  show "int (unat (as_u64 (num_seconds d))) = d div 1000000000"
    unfolding n using l z by (intro unat_as_u64) simp_all
qed

lemma store_until_seconds:
  assumes "now \<le> t_expires_at t" "t_expires_at t - now < 2 ^ 63 * 1000000000"
  shows "store_until now t = now + (t_expires_at t - now) div 1000000000 * 1000000000"
  using whole_seconds_left(1) [OF _ assms(2)] assms(1) by (simp add: store_until_def store_ttl_def after_secs_def)

lemma store_until_near_expiry:
  assumes "t' + 1000000000 \<le> t_expires_at t" "now \<le> t'" "t_expires_at t - now < 2 ^ 63 * 1000000000"
  shows "t' < store_until now t"
proof -
  have "now \<le> t_expires_at t" using assms by simp
  from store_until_seconds [OF this assms(3)] show ?thesis using assms(1) by linarith
qed

lemma seconds_bound:
  assumes "(a :: int) div 1000000000 \<le> k"
  shows "a < (k + 1) * 1000000000"
proof (rule ccontr)
  assume "\<not> ?thesis"
  then have "(k + 1) * 1000000000 \<le> a" by simp
  from zdiv_mono1 [OF this, of 1000000000] assms show False by simp
qed

lemma session_until_near_expiry:
  assumes "t' \<le> e" "now \<le> t'" "e - now < 2 ^ 63 * 1000000000"
  shows "t' < after_secs now (unat (as_u64 (max (num_seconds (e - now)) 1) + 60))"
proof -
  let ?n = "max (num_seconds (e - now)) 1"
  have d: "0 \<le> e - now" using assms by simp
  have n: "num_seconds (e - now) = (e - now) div 1000000000" using d by (simp add: num_seconds_def)
  have m: "1 \<le> ?n" "?n < 2 ^ 63" "(e - now) div 1000000000 \<le> ?n" using whole_seconds_left(2) [OF d assms(3)] by (simp_all add: n)
  have "as_u64 ?n + 60 = as_u64 (?n + 60)" by (simp add: as_u64_def)
  then have "int (unat (as_u64 ?n + 60)) = ?n + 60" using unat_as_u64 [of "?n + 60"] m(1,2) by simp
  then have "after_secs now (unat (as_u64 ?n + 60)) = now + (?n + 60) * 1000000000" by (simp add: after_secs_def)
  moreover have "e - now < (?n + 1) * 1000000000" by (rule seconds_bound [OF m(3)])
  ultimately show ?thesis using assms(1) by (simp only: distrib_right)
qed

lemma created_listed:
  assumes laws: "codec_laws C" and ser: "ser_tunnel C t = Inr j" "ser_lookup C (merge_lookup C t prev) = Inr d"
    and m: "m (lookup_key u) = Some d" "m (tunnel_key (uuid_to_string C (t_id t))) = Some j"
  shows "listed C m (info_of_tunnel C t)"
  unfolding listed_def
  using m codec_laws.lookup_round [OF laws ser(2)] codec_laws.tunnel_info [OF laws ser(1)] merge_lookup_member [of C t prev]
  by (intro exI conjI) (auto simp: lookup_key_def)

lemma sint_u64_less: "sint (x :: u64) < 2 ^ 63"
  using sint_lt [of x] by simp

lemma created_records:
  assumes env: "storage_env (e_redis E) view (e_codec E)"
    and create: "create_tunnel E D clk hs request w = (Inr resp, w')" and clock: "mono clk"
    and draws: "\<forall>i. d_subdomain D i < 36"
  defines "e \<equiv> clk 11 + chrono_seconds (sint (get_or 3600 (rq_ttl request)))"
  obtains tun :: Tunnel and session where
    "rs_id resp = uuid_to_string (e_codec E) (t_id tun)" "rs_slot resp = t_slot tun" "dns_label (t_subdomain tun)"
    "rs_fqdn resp = t_subdomain tun @ ''.fleetingdns.run''" "t_protected tun = get_or False (rq_protected request)"
    and "\<And>t. clk 14 \<le> t \<Longrightarrow> t + 1000000000 \<le> e \<Longrightarrow> listed (e_codec E) (view (redis_of w') t) (info_of_tunnel (e_codec E) tun)"
    and "\<And>t. clk 14 \<le> t \<Longrightarrow> t \<le> e \<Longrightarrow>
       \<exists>data. view (redis_of w') t (session_key (rs_id resp)) = Some data \<and> de_session (e_codec E) data = Inr session"
    and "sd_fingerprint session = sk_fingerprint (rs_ssh_key resp)" "sd_expires_at session = e"
    and "\<And>t. clk 14 \<le> t \<Longrightarrow> t + 1000000000 \<le> e \<Longrightarrow> view (redis_of w') t (slot_key (rs_fqdn resp)) = Some (e_edge_ip E)"
    and "\<And>t. clk 12 \<le> e \<Longrightarrow> clk 14 \<le> t \<Longrightarrow> e \<le> t \<Longrightarrow> view (redis_of w') t (slot_key (rs_fqdn resp)) = None"
proof (rule create_tunnel_stored [OF env create])
  fix user and tun :: Tunnel and cert_expires s0 prev j d v
  assume sub: "choose_subdomain D request = Inr (t_subdomain tun)"
    and t: "rs_id resp = uuid_to_string (e_codec E) (t_id tun)" "rs_fqdn resp = t_fqdn tun" "rs_slot resp = t_slot tun"
      "t_protected tun = get_or False (rq_protected request)" "t_fqdn tun = t_subdomain tun @ ''.fleetingdns.run''"
    and exp: "t_expires_at tun = clk 11 + chrono_seconds (sint (get_or 3600 (rq_ttl request)))"
    and ser: "ser_tunnel (e_codec E) tun = Inr j" "ser_lookup (e_codec E) (merge_lookup (e_codec E) tun prev) = Inr d"
      "ser_session (e_codec E) (created_session user resp tun) = Inr v"
    and view: "\<And>t'. clk 14 \<le> t' \<Longrightarrow> view (redis_of w') t' = created_view E clk user resp tun cert_expires j d v (view s0 t') t'"
  have laws: "codec_laws (e_codec E)" using env by (simp add: storage_env_def)
  have e: "t_expires_at tun = e" by (simp add: exp e_def)
  have c: "clk 11 \<le> clk 12" "clk 12 \<le> clk 14" "clk 11 \<le> clk 14" by (simp_all add: monoD [OF clock])
  have "e - clk 11 < 2 ^ 63 * 1000000000"
    using sint_u64_less [of "get_or 3600 (rq_ttl request)"] by (simp add: e_def chrono_seconds_def)
  then have lim: "e - clk 12 < 2 ^ 63 * 1000000000" "e - clk 14 < 2 ^ 63 * 1000000000" using c by linarith+
  show thesis
  proof (rule that [of tun "created_session user resp tun"])
    fix t assume le: "clk 14 \<le> t" and near: "t + 1000000000 \<le> e"
    have "t < store_until (clk 12) tun" by (rule store_until_near_expiry) (use le near lim c e in simp_all)
    then have "view (redis_of w') t (lookup_key (gu_id user)) = Some d"
      "view (redis_of w') t (tunnel_key (uuid_to_string (e_codec E) (t_id tun))) = Some j"
      by (simp_all add: view [OF le] created_view_def t(1) [symmetric])
    then show "listed (e_codec E) (view (redis_of w') t) (info_of_tunnel (e_codec E) tun)"
      by (rule created_listed [OF laws ser(1,2)])
  next
    fix t assume le: "clk 14 \<le> t" and near: "t \<le> e"
    have "view (redis_of w') t (session_key (rs_id resp)) = Some v"
      using session_until_near_expiry [OF near le lim(2)] by (simp add: view [OF le] created_view_def e)
    then show "\<exists>data. view (redis_of w') t (session_key (rs_id resp)) = Some data
        \<and> de_session (e_codec E) data = Inr (created_session user resp tun)"
      using codec_laws.session_round [OF laws ser(3)] by blast
  next
    fix t assume le: "clk 14 \<le> t" and near: "t + 1000000000 \<le> e"
    have "t < store_until (clk 12) tun" by (rule store_until_near_expiry) (use le near lim c e in simp_all)
    then show "view (redis_of w') t (slot_key (rs_fqdn resp)) = Some (e_edge_ip E)" by (simp add: view [OF le] created_view_def)
  next
    fix t assume born: "clk 12 \<le> e" and le: "clk 14 \<le> t" and past: "e \<le> t"
    have "store_until (clk 12) tun \<le> e" using store_until_seconds [of "clk 12" tun] born lim(1) by (simp add: e)
    then show "view (redis_of w') t (slot_key (rs_fqdn resp)) = None" using past by (simp add: view [OF le] created_view_def)
  qed (simp_all add: t e choose_subdomain_valid(1) [OF sub draws] created_session_def)
qed (simp_all add: monoD [OF clock])

lemma label_of_fqdn: "dns_label l \<Longrightarrow> subdomain_from_sni (l @ ''.fleetingdns.run'') = l"
proof -
  assume "dns_label l"
  then have "CHR ''.'' \<notin> set l" by (auto simp: dns_label_def list_all_iff is_ascii_alphanumeric_def is_ascii_digit_def is_ascii_lowercase_def is_ascii_uppercase_def)
  then show ?thesis using split_on_append [of "CHR ''.''" l "''fleetingdns.run''"] by (simp add: subdomain_from_sni_def)
qed

lemma hub_accepts_stored_key:
  assumes env: "storage_env R view C" and up: "responsive R"
    and st: "redis_auth_handler st = Some ''session''" "bf_lockouts (brute_force_protection st) = []"
    and sid: "is_valid_session_id i"
    and stored: "view s (clk 1) (session_key i) = Some data" "de_session C data = Inr session"
    and valid: "clk 1 \<le> sd_expires_at session" "fp key = sd_fingerprint session"
  shows "\<exists>b s'. auth_publickey R C fp clk (''tunnel-'' @ i) key st (session_new addr) s
      = (True, st\<lparr> brute_force_protection := b \<rparr>, (session_new addr)\<lparr> client_certificate_serial := Some i \<rparr>, s')
    \<and> same_from (clk 1) (view s) (view s')"
proof -
  have i: "session_id_of (''tunnel-'' @ i) = i" by (simp add: session_id_of_def strip_prefix_str_def)
  obtain s' where "validate_public_key R C fp (clk 1) ''session'' key i s = (Inr True, s')" and same: "same_from (clk 1) (view s) (view s')"
    using validate_public_key_accepts [OF env up, where pre = "''session''" and i = i, of s "clk 1" data session fp key] stored valid
    by (auto simp: session_key_def)
  then have "key_accepted R C fp (clk 1) st key i s = (True, s')" by (simp add: key_accepted_def st(1))
  then show ?thesis
    using same sid st(2) unfolding auth_publickey_def i by (auto simp: is_locked_out_def session_new_def Let_def)
qed

lemma hub_grants_own_slot:
  assumes env: "storage_env R view C" and up: "responsive R" and pool: "has_redis_pool st"
    and listed: "listed C (view s t) info" "ti_slot info = slot"
    and sole: "\<And>i. listed C (view s t) i \<Longrightarrow> ti_slot i = slot \<Longrightarrow> i = info"
    and sess: "client_certificate_serial sess = Some (ti_id info)" and bind: "bind_port slot = Inr slot"
  shows "\<exists>sess' s'. tcpip_forward R C bind_port t t' st (ucast slot) sess s = (True, ucast slot, sess', s')
    \<and> serves sess' slot \<and> same_from t (view s) (view s')"
proof -
  have up32: "ucast (ucast slot :: u32) = slot" by (rule ucast_up_ucast_id) (simp add: is_up)
  obtain s' where "get_tunnel_by_slot R C t slot s = (Inr (Some info), s')" and same: "same_from t (view s) (view s')"
    using scan_finds [OF env up, where P = "\<lambda>i. ti_slot i = slot", OF listed sole] by (auto simp: get_tunnel_by_slot_def)
  then have "slot_gate R C t st sess slot s = (Some (ti_teardown_policy info, Some (ti_id info)), s')"
    by (simp add: slot_gate_def pool sess)
  then show ?thesis using bind same by (auto simp: tcpip_forward_def up32 serves_def)
qed

lemma router_serves_open_tunnel:
  assumes env: "storage_env R view C" and up: "responsive R"
    and listed: "listed C (view s (clk 0)) info" "ti_subdomain info = subdomain_from_sni sni" "\<not> ti_protected info"
    and sole: "\<And>i. listed C (view s (clk 0)) i \<Longrightarrow> ti_subdomain i = subdomain_from_sni sni \<Longrightarrow> i = info"
    and conn: "c_hello conn = Inr (Some sni)" "c_handshake conn = Inr ()" "n_dial net (ti_slot info) = dial.Connected"
  shows "fst (handle_router_connection R C clk net conn s) = Spliced (ti_slot info) [] (c_reads conn)"
proof -
  obtain s' where "dir_get_tunnel_by_subdomain R C (clk 0) (subdomain_from_sni sni) s = (Inr (Some info), s')"
    using scan_finds [OF env up, where P = "\<lambda>i. ti_subdomain i = subdomain_from_sni sni", OF listed(1,2) sole]
    by (auto simp: dir_get_tunnel_by_subdomain_def)
  then show ?thesis using conn listed(3) by (simp add: handle_router_connection_def authorize_viewer_def splice_def Let_def)
qed

lemma tunnel_comes_up:
  assumes env: "storage_env R view C" and up: "responsive R"
    and st: "redis_auth_handler st = Some ''session''" "has_redis_pool st" "bf_lockouts (brute_force_protection st) = []"
    and sid: "is_valid_session_id (ti_id info)" and times: "hclk 1 \<le> tf" "tf \<le> rclk 0"
    and stored: "view s0 (hclk 1) (session_key (ti_id info)) = Some data" "de_session C data = Inr session"
    and valid: "hclk 1 \<le> sd_expires_at session" "fp key = sd_fingerprint session"
    and listed: "\<And>t. t \<in> {tf, rclk 0} \<Longrightarrow> listed C (view s0 t) info"
    and only: "\<And>t j. t \<in> {tf, rclk 0} \<Longrightarrow> listed C (view s0 t) j \<Longrightarrow>
      ti_slot j = ti_slot info \<or> ti_subdomain j = ti_subdomain info \<Longrightarrow> j = info"
    and info: "\<not> ti_protected info" "ti_subdomain info = subdomain_from_sni sni" and bind: "bind_port (ti_slot info) = Inr (ti_slot info)"
    and viewer: "c_hello conn = Inr (Some sni)" "c_handshake conn = Inr ()" "n_dial net (ti_slot info) = dial.Connected"
  shows "\<exists>st' sess s sess' s'.
    auth_publickey R C fp hclk (''tunnel-'' @ ti_id info) key st (session_new addr) s0 = (True, st', sess, s)
    \<and> tcpip_forward R C bind_port tf tf' st' (ucast (ti_slot info)) sess s = (True, ucast (ti_slot info), sess', s')
    \<and> serves sess' (ti_slot info)
    \<and> fst (handle_router_connection R C rclk net conn s') = Spliced (ti_slot info) [] (c_reads conn)"
proof -
  let ?sess = "(session_new addr)\<lparr> client_certificate_serial := Some (ti_id info) \<rparr>"
  obtain b s where au: "auth_publickey R C fp hclk (''tunnel-'' @ ti_id info) key st (session_new addr) s0
      = (True, st\<lparr> brute_force_protection := b \<rparr>, ?sess, s)" and v1: "same_from (hclk 1) (view s0) (view s)"
    using hub_accepts_stored_key [OF env up st(1,3) sid, where clk = hclk and addr = addr and s = s0 and fp = fp and key = key, OF stored valid] by blast
  let ?st = "st\<lparr> brute_force_protection := b \<rparr>"
  have at_tf: "view s tf = view s0 tf" using v1 times by (simp add: same_from_def)
  have l1: "listed C (view s tf) info" and o1: "\<And>j. listed C (view s tf) j \<Longrightarrow> ti_slot j = ti_slot info \<Longrightarrow> j = info"
    unfolding at_tf using listed only by blast+
  have "has_redis_pool ?st" "client_certificate_serial ?sess = Some (ti_id info)" using st(2) by simp_all
  then obtain sess' s' where fw: "tcpip_forward R C bind_port tf tf' ?st (ucast (ti_slot info)) ?sess s
      = (True, ucast (ti_slot info), sess', s')" "serves sess' (ti_slot info)" and v2: "same_from tf (view s) (view s')"
    using hub_grants_own_slot [where st = ?st and sess = ?sess and t = tf and t' = tf' and s = s and bind_port = bind_port,
        OF env up _ l1 refl o1 _ bind] by blast
  have at_r: "view s' (rclk 0) = view s0 (rclk 0)" using v1 v2 times by (simp add: same_from_def)
  have l2: "listed C (view s' (rclk 0)) info"
    and o2: "\<And>j. listed C (view s' (rclk 0)) j \<Longrightarrow> ti_subdomain j = subdomain_from_sni sni \<Longrightarrow> j = info"
    unfolding at_r using listed only info(2) by (blast, metis insertCI)
  have "fst (handle_router_connection R C rclk net conn s') = Spliced (ti_slot info) [] (c_reads conn)"
    by (rule router_serves_open_tunnel [where clk = rclk and s = s', OF env up l2 info(2,1) o2 viewer])
  with au fw show ?thesis by blast
qed

section \<open>Properties across components\<close>

text \<open>
  C1: a created tunnel comes up.  After the API has created an open tunnel, on a hub binary that started
  with its Redis pools and while Redis answers, the key with the returned fingerprint is accepted for the
  returned tunnel id, the request to forward the returned slot is granted and the slot is served, and a
  viewer who asks for the returned host name is connected to that slot, at any time up to one second before
  the tunnel expires; provided that no other record in the directory has the same slot or subdomain.
\<close>

theorem created_tunnel_serves:
  assumes env: "storage_env (e_redis E) view (e_codec E)" and up: "responsive (e_redis E)"
    and create: "create_tunnel E D clk hs request w = (Inr resp, w')" and clock: "mono clk"
    and draws: "\<forall>i. d_subdomain D i < 36" and open_tunnel: "rq_protected request \<noteq> Some True"
    and boot: "edgehub_boot U signer read K H now new_pool vars started args fs = (Inr (cfg, srv), fs')"
    and pools: "is_ok (new_pool 1 (ar_redis args))" "is_ok (new_pool 2 (ar_redis args))"
    and id: "is_valid_session_id (rs_id resp)"
    and key: "fp key = sk_fingerprint (rs_ssh_key resp)"
    and times: "clk 14 \<le> hclk 1" "hclk 1 \<le> tf" "tf \<le> rclk 0"
      "rclk 0 + 1000000000 \<le> clk 11 + chrono_seconds (sint (get_or 3600 (rq_ttl request)))"
    and sole: "\<forall>t. sole_record (e_codec E) (view (redis_of w') t) (rs_slot resp) (subdomain_from_sni (rs_fqdn resp))"
    and bind: "bind_port (rs_slot resp) = Inr (rs_slot resp)"
    and viewer: "c_hello conn = Inr (Some (rs_fqdn resp))" "c_handshake conn = Inr ()"
      "n_dial net (rs_slot resp) = dial.Connected"
  shows "\<exists>st sess s sess' s'.
    auth_publickey (e_redis E) (e_codec E) fp hclk (''tunnel-'' @ rs_id resp) key (srv_state srv) (session_new addr)
      (redis_of w') = (True, st, sess, s)
    \<and> tcpip_forward (e_redis E) (e_codec E) bind_port tf tf' st (ucast (rs_slot resp)) sess s
      = (True, ucast (rs_slot resp), sess', s')
    \<and> serves sess' (rs_slot resp)
    \<and> fst (handle_router_connection (e_redis E) (e_codec E) rclk net conn s') = Spliced (rs_slot resp) [] (c_reads conn)"
proof -
  let ?R = "e_redis E" and ?C = "e_codec E" and ?e = "clk 11 + chrono_seconds (sint (get_or 3600 (rq_ttl request)))"
  obtain tun :: Tunnel and session where
    t: "rs_id resp = uuid_to_string ?C (t_id tun)" "rs_slot resp = t_slot tun" "dns_label (t_subdomain tun)"
      "rs_fqdn resp = t_subdomain tun @ ''.fleetingdns.run''" "t_protected tun = get_or False (rq_protected request)"
    and listed: "\<And>t. clk 14 \<le> t \<Longrightarrow> t + 1000000000 \<le> ?e \<Longrightarrow> listed ?C (view (redis_of w') t) (info_of_tunnel ?C tun)"
    and ses: "\<And>t. clk 14 \<le> t \<Longrightarrow> t \<le> ?e \<Longrightarrow>
       \<exists>data. view (redis_of w') t (session_key (rs_id resp)) = Some data \<and> de_session ?C data = Inr session"
    and fp: "sd_fingerprint session = sk_fingerprint (rs_ssh_key resp)" "sd_expires_at session = ?e"
    by (rule created_records [OF env create clock draws]) (rule that; assumption)
  let ?i = "info_of_tunnel ?C tun"
  have i: "ti_id ?i = rs_id resp" "ti_slot ?i = rs_slot resp" "ti_subdomain ?i = subdomain_from_sni (rs_fqdn resp)" "\<not> ti_protected ?i"
    using t open_tunnel label_of_fqdn [OF t(3)] by (auto simp: info_of_tunnel_def get_or_def split: option.splits)
  have st: "redis_auth_handler (srv_state srv) = Some ''session''" "has_redis_pool (srv_state srv)"
    "bf_lockouts (brute_force_protection (srv_state srv)) = []"
    using boot_state [OF boot] pools by (auto split: sum.splits)
  obtain data where data: "view (redis_of w') (hclk 1) (session_key (ti_id ?i)) = Some data" "de_session ?C data = Inr session"
    using ses [of "hclk 1"] times i(1) by auto
  have tf: "clk 14 \<le> t" "t + 1000000000 \<le> ?e" if "t \<in> {tf, rclk 0}" for t using times that by auto
  have v: "hclk 1 \<le> sd_expires_at session" "fp key = sd_fingerprint session" using times fp key by simp_all
  have lst: "listed ?C (view (redis_of w') t) ?i" if "t \<in> {tf, rclk 0}" for t using listed tf [OF that] by blast
  have only: "j = ?i" if "t \<in> {tf, rclk 0}" "listed ?C (view (redis_of w') t) j"
      "ti_slot j = ti_slot ?i \<or> ti_subdomain j = ti_subdomain ?i" for j t
    using sole lst [OF that(1)] that(2,3) i(2,3) unfolding sole_record_def by metis
  show ?thesis
    by (rule tunnel_comes_up [where info = ?i and st = "srv_state srv" and hclk = hclk and rclk = rclk and tf = tf and fp = fp
        and key = key and bind_port = bind_port and conn = conn and net = net and tf' = tf' and addr = addr, OF env up st
        id [folded i(1)] times(2,3) data v lst only i(4,3) bind [folded i(2)] viewer(1,2) viewer(3) [folded i(2)], unfolded i(1,2)])
qed

lemma mem_responsive: "responsive mem_redis"
  by (simp add: responsive_def mem_ops)

lemma demo_single: "listed (e_codec demo_api) m i \<Longrightarrow> listed (e_codec demo_api) m j \<Longrightarrow> i = j"
proof -
  have "de_info (e_codec demo_api) x = Inr k \<Longrightarrow> k = info_of_tunnel (e_codec demo_api) demo_created" for x k
    by (auto simp: demo_api_def tab_codec_def tab_de_def info_of_tunnel_def split: option.splits if_splits)
  then show "listed (e_codec demo_api) m i \<Longrightarrow> listed (e_codec demo_api) m j \<Longrightarrow> i = j" unfolding listed_def by metis
qed

theorem created_tunnel_serves_witness:
  "\<exists>resp w' cfg srv st sess s sess' s'.
     create_tunnel demo_api demo_draws (\<lambda>_. 0) (demo_headers ''7:ann:0.ab'') demo_request demo_world = (Inr resp, w')
     \<and> edgehub_boot demo_rustls demo_sign Inr demo_key_host demo_ca_host 0 (\<lambda>_ _. Inr ()) (\<lambda>_. None) (Inr ()) Args_default ()
       = (Inr (cfg, srv), ())
     \<and> auth_publickey mem_redis (e_codec demo_api) (\<lambda>k. k) (\<lambda>_. 0) (''tunnel-'' @ rs_id resp) (sk_fingerprint (rs_ssh_key resp))
         (srv_state srv) (session_new hub_demo_peer) (redis_of w') = (True, st, sess, s)
     \<and> tcpip_forward mem_redis (e_codec demo_api) Inr 0 0 st (ucast (rs_slot resp)) sess s = (True, ucast (rs_slot resp), sess', s')
     \<and> serves sess' (rs_slot resp)"
proof -
  obtain resp w' where c: "create_tunnel demo_api demo_draws (\<lambda>_. 0) (demo_headers ''7:ann:0.ab'') demo_request demo_world = (Inr resp, w')"
    and i: "rs_id resp = ''1''" using demo_create by blast
  obtain cfg srv where b: "edgehub_boot demo_rustls demo_sign Inr demo_key_host demo_ca_host 0 (\<lambda>_ _. Inr ()) (\<lambda>_. None) (Inr ())
      Args_default () = (Inr (cfg, srv), ())" using demo_boot by blast
  have id: "is_valid_session_id (rs_id resp)"
    by (simp add: i is_valid_session_id_def is_ascii_alphanumeric_def is_ascii_digit_def)
  have sole: "\<forall>t. sole_record (e_codec demo_api) (mem_view (redis_of w') t) (rs_slot resp) (subdomain_from_sni (rs_fqdn resp))"
    unfolding sole_record_def using demo_single by blast
  have life: "(0 :: instant) + 1000000000 \<le> 0 + chrono_seconds (sint (get_or (3600 :: u64) (rq_ttl demo_request)))"
    by (simp add: demo_request_def get_or_def chrono_seconds_def)
  let ?conn = "\<lparr> c_hello = Inr (Some (rs_fqdn resp)), c_handshake = Inr (), c_reads = [] \<rparr>"
  have "\<exists>st sess s sess' s'.
    auth_publickey (e_redis demo_api) (e_codec demo_api) (\<lambda>k. k) (\<lambda>_. 0) (''tunnel-'' @ rs_id resp) (sk_fingerprint (rs_ssh_key resp))
      (srv_state srv) (session_new hub_demo_peer) (redis_of w') = (True, st, sess, s)
    \<and> tcpip_forward (e_redis demo_api) (e_codec demo_api) Inr 0 0 st (ucast (rs_slot resp)) sess s
      = (True, ucast (rs_slot resp), sess', s')
    \<and> serves sess' (rs_slot resp)
    \<and> fst (handle_router_connection (e_redis demo_api) (e_codec demo_api) (\<lambda>_. 0) edge_net ?conn s')
      = Spliced (rs_slot resp) [] (c_reads ?conn)"
    by (rule created_tunnel_serves [where hclk = "\<lambda>_. 0" and rclk = "\<lambda>_. 0" and tf = 0, OF demo_api_env _ c _ _ _ b _ _ id _ _ _ _ life sole])
      (simp_all add: mem_responsive mono_def demo_request_def edge_net_def)
  then show ?thesis using c b unfolding demo_api_fields by blast
qed


definition demo_name_query :: "string \<Rightarrow> dns_message" where
  "demo_name_query fqdn = \<lparr> m_id = 7, m_op_code = 0, m_is_response = False, m_response_code = NoError,
     m_queries = [\<lparr> q_name = fqdn @ ''.'', q_type = Type_A \<rparr>], m_answers = [] \<rparr>"

definition demo_name_reply :: "string \<Rightarrow> dns_message" where
  "demo_name_reply fqdn = (response_msg 7 0)\<lparr> m_queries := [\<lparr> q_name = fqdn @ ''.'', q_type = Type_A \<rparr>],
     m_answers := [\<lparr> rr_name = fqdn @ ''.'', rr_ttl = 300, rr_data = Rdata_A 0x0A000001 \<rparr>] \<rparr>"

lemma demo_name_wire:
  "from_vec (tab_wire [demo_name_query f, demo_name_reply f]) ''0'' = Some (demo_name_query f)"
  "to_vec (tab_wire [demo_name_query f, demo_name_reply f]) (demo_name_reply f) = Some ''1''"
  by (simp_all add: tab_wire_def tab_de_def tab_ser_def parse_nat_def is_ascii_digit_def undec_def digit_val_def dec.simps digit_char_def
      demo_name_query_def demo_name_reply_def response_msg_def error_msg_def)


end
